(* ===== verification/Prelude.thy ===== *)
theory Prelude
  imports Main "HOL-Library.AList" "HOL-Library.Word" "HOL-Library.Char_ord"
    "HOL-Library.List_Lexorder" "HOL-Library.Sublist"
begin

section \<open>Shared vocabulary: Go values, Go strings, small list lemmas\<close>

text \<open>
  What every component uses of the language and its standard library.
  A Go string is its list of bytes (\<^typ>\<open>string\<close>). A Go map is an association list in
  iteration order (Go leaves that order open, so a theorem about any list is a theorem about any
  order); a map or slice that may be \<open>nil\<close> is an \<open>option\<close>. An \<open>int\<close> of Go
  is an \<^typ>\<open>int\<close>, with the 64-bit wrap-around written out (\<open>wrap64\<close>) where the code can
  overflow. A call that can fail returns a sum, \<open>Inl\<close> for the error.
  Case folding is modelled on ASCII letters; other bytes compare as they are.
\<close>

named_theorems go_defs \<open>definitions of the model that a closed computation unfolds\<close>
named_theorems step_simps \<open>rewrite rules that run the operations of a component\<close>

type_synonym 'v gomap = "(string \<times> 'v) list option"
type_synonym 'a goslice = "'a list option"

definition entries :: "'a list option \<Rightarrow> 'a list" where
  "entries m = (case m of None \<Rightarrow> [] | Some l \<Rightarrow> l)"

lemma entries_simps [simp]: "entries None = []" "entries (Some l) = l"
  by (simp_all add: entries_def)

subsection \<open>64-bit integers\<close>

definition wrap64 :: "int \<Rightarrow> int" where
  "wrap64 n = sint (word_of_int n :: 64 word)"

definition int64_max :: int where
  "int64_max = 9223372036854775807"

definition int64_min :: int where
  "int64_min = - 9223372036854775808"

lemma wrap64_id: "int64_min \<le> n \<Longrightarrow> n \<le> int64_max \<Longrightarrow> wrap64 n = n"
  unfolding wrap64_def int64_min_def int64_max_def
  by (simp add: sint_sbintrunc' signed_take_bit_int_eq_self)

lemma wrap64_range: "int64_min \<le> wrap64 n \<and> wrap64 n \<le> int64_max"
proof -
  have "sint (word_of_int n :: 64 word) < 2 ^ 63" "- (2 ^ 63) \<le> sint (word_of_int n :: 64 word)"
    using sint_lt [of "word_of_int n :: 64 word"] sint_ge [of "word_of_int n :: 64 word"] by simp_all
  then show ?thesis by (simp add: wrap64_def int64_min_def int64_max_def)
qed

subsection \<open>The \<open>strings\<close> package\<close>

definition has_prefix :: "string \<Rightarrow> string \<Rightarrow> bool" where
  "has_prefix s p = (take (length p) s = p)"

definition trim_prefix :: "string \<Rightarrow> string \<Rightarrow> string" where
  "trim_prefix s p = (if has_prefix s p then drop (length p) s else s)"

fun str_index :: "string \<Rightarrow> string \<Rightarrow> nat option" where
  "str_index [] sub = (if sub = [] then Some 0 else None)"
| "str_index (c # s) sub =
     (if has_prefix (c # s) sub then Some 0 else map_option Suc (str_index s sub))"

definition str_contains :: "string \<Rightarrow> string \<Rightarrow> bool" where
  "str_contains s sub = (str_index s sub \<noteq> None)"

definition trim_right :: "string \<Rightarrow> string \<Rightarrow> string" where
  "trim_right s cs = rev (dropWhile (\<lambda>c. c \<in> set cs) (rev s))"

definition split_n2 :: "string \<Rightarrow> string \<Rightarrow> string list" where
  "split_n2 s sep =
     (case str_index s sep of None \<Rightarrow> [s] | Some i \<Rightarrow> [take i s, drop (i + length sep) s])"

fun split_char :: "string \<Rightarrow> char \<Rightarrow> string list" where
  "split_char [] c = [[]]"
| "split_char (x # s) c =
     (if x = c then [] # split_char s c
      else (case split_char s c of [] \<Rightarrow> [[x]] | w # ws \<Rightarrow> (x # w) # ws))"

fun join :: "string \<Rightarrow> string list \<Rightarrow> string" where
  "join sep [] = []"
| "join sep [s] = s"
| "join sep (s # t # ss) = s @ sep @ join sep (t # ss)"

definition is_upper :: "char \<Rightarrow> bool" where
  "is_upper c = (65 \<le> (of_char c :: nat) \<and> (of_char c :: nat) \<le> 90)"

definition is_lower :: "char \<Rightarrow> bool" where
  "is_lower c = (97 \<le> (of_char c :: nat) \<and> (of_char c :: nat) \<le> 122)"

definition lower_char :: "char \<Rightarrow> char" where
  "lower_char c = (if is_upper c then char_of ((of_char c :: nat) + 32) else c)"

definition upper_char :: "char \<Rightarrow> char" where
  "upper_char c = (if is_lower c then char_of ((of_char c :: nat) - 32) else c)"

definition to_lower :: "string \<Rightarrow> string" where
  "to_lower s = map lower_char s"

definition to_upper :: "string \<Rightarrow> string" where
  "to_upper s = map upper_char s"

definition equal_fold :: "string \<Rightarrow> string \<Rightarrow> bool" where
  "equal_fold s t = (to_lower s = to_lower t)"

definition is_space :: "char \<Rightarrow> bool" where
  "is_space c = ((of_char c :: nat) \<in> {9, 10, 11, 12, 13, 32})"

definition trim_space :: "string \<Rightarrow> string" where
  "trim_space s = rev (dropWhile is_space (rev (dropWhile is_space s)))"

subsection \<open>Decimal text: \<open>strconv.Itoa\<close>, \<open>strconv.ParseInt\<close>\<close>

definition digit_char :: "nat \<Rightarrow> char" where
  "digit_char d = char_of (48 + d)"

definition is_digit :: "char \<Rightarrow> bool" where
  "is_digit c = (48 \<le> (of_char c :: nat) \<and> (of_char c :: nat) \<le> 57)"

definition digit_val :: "char \<Rightarrow> nat" where
  "digit_val c = (of_char c :: nat) - 48"

fun dec_nat :: "nat \<Rightarrow> string" where
  "dec_nat n = (if n < 10 then [digit_char n] else dec_nat (n div 10) @ [digit_char (n mod 10)])"

declare dec_nat.simps [simp del]

definition nat_of_dec :: "string \<Rightarrow> nat" where
  "nat_of_dec s = foldl (\<lambda>a c. 10 * a + digit_val c) 0 s"

definition dec_int :: "int \<Rightarrow> string" where
  "dec_int n = (if n < 0 then CHR ''-'' # dec_nat (nat (- n)) else dec_nat (nat n))"

definition parse_digits :: "string \<Rightarrow> nat option" where
  "parse_digits s = (if s \<noteq> [] \<and> list_all is_digit s then Some (nat_of_dec s) else None)"

definition in_int64 :: "int \<Rightarrow> int option" where
  "in_int64 n = (if int64_min \<le> n \<and> n \<le> int64_max then Some n else None)"

definition parse_int :: "string \<Rightarrow> int option" where
  "parse_int s =
     (case s of
        [] \<Rightarrow> None
      | c # t \<Rightarrow>
          (if c = CHR ''-'' then Option.bind (parse_digits t) (\<lambda>n. in_int64 (- int n))
           else if c = CHR ''+'' then Option.bind (parse_digits t) (\<lambda>n. in_int64 (int n))
           else Option.bind (parse_digits s) (\<lambda>n. in_int64 (int n))))"

lemma of_digit_char [simp]: "d < 10 \<Longrightarrow> of_char (digit_char d) = 48 + d"
  by (simp add: digit_char_def)

lemma is_digit_char [simp]: "d < 10 \<Longrightarrow> is_digit (digit_char d)"
  by (simp add: is_digit_def)

lemma digit_val_char [simp]: "d < 10 \<Longrightarrow> digit_val (digit_char d) = d"
  by (simp add: digit_val_def)

lemma dec_nat_nonempty [simp]: "dec_nat n \<noteq> []"
  by (subst dec_nat.simps) simp

lemma dec_nat_digits: "c \<in> set (dec_nat n) \<Longrightarrow> is_digit c"
proof (induction n rule: dec_nat.induct)
  case (1 n)
  then show ?case by (subst (asm) (2) dec_nat.simps) (auto split: if_splits)
qed

lemma dec_nat_all_digits: "list_all is_digit (dec_nat n)"
  by (simp add: list_all_iff dec_nat_digits)

lemma nat_of_dec_dec_nat [simp]: "nat_of_dec (dec_nat n) = n"
proof (induction n rule: dec_nat.induct)
  case (1 n)
  then show ?case by (subst dec_nat.simps) (simp add: nat_of_dec_def)
qed

lemma dec_nat_inj: "dec_nat m = dec_nat n \<Longrightarrow> m = n"
  by (metis nat_of_dec_dec_nat)

lemma parse_digits_dec_nat [simp]: "parse_digits (dec_nat n) = Some n"
  by (simp add: parse_digits_def dec_nat_all_digits)

lemma length_dec_nat: "n < 10 ^ k \<Longrightarrow> 0 < k \<Longrightarrow> length (dec_nat n) \<le> k"
proof (induction n arbitrary: k rule: dec_nat.induct)
  case (1 n)
  show ?case
  proof (cases "n < 10")
    case True
    with 1 show ?thesis by (subst dec_nat.simps) simp
  next
    case False
    with 1 obtain j where k: "k = Suc j" "0 < j"
      by (cases k; cases "k - 1") auto
    with 1 False have "length (dec_nat (n div 10)) \<le> j" by simp
    with False k show ?thesis by (subst dec_nat.simps) simp
  qed
qed

lemma is_digit_not_sign: "is_digit c \<Longrightarrow> c \<noteq> CHR ''-'' \<and> c \<noteq> CHR ''+''"
  by (auto simp: is_digit_def)

lemma parse_int_dec_int:
  assumes "int64_min \<le> n" "n \<le> int64_max"
  shows "parse_int (dec_int n) = Some n"
proof (cases "n < 0")
  case True
  with assms show ?thesis
    by (simp add: parse_int_def dec_int_def in_int64_def)
next
  case False
  obtain c t where ct: "dec_nat (nat n) = c # t" by (cases "dec_nat (nat n)") simp_all
  then have "is_digit c" using dec_nat_digits [of c "nat n"] by simp
  with is_digit_not_sign False assms ct show ?thesis
    using parse_digits_dec_nat [of "nat n"]
    by (simp add: parse_int_def dec_int_def in_int64_def)
qed

lemma parse_int_nondigit:
  "d \<in> set s \<Longrightarrow> d \<noteq> CHR ''-'' \<Longrightarrow> d \<noteq> CHR ''+'' \<Longrightarrow> \<not> is_digit d \<Longrightarrow> parse_int s = None"
  by (cases s) (auto simp: parse_int_def parse_digits_def list_all_iff)

subsection \<open>Lemmas on the string functions\<close>

lemma has_prefix_append [simp]: "has_prefix (p @ s) p"
  by (simp add: has_prefix_def)

lemma has_prefix_iff: "has_prefix s p \<longleftrightarrow> (\<exists>t. s = p @ t)"
  by (metis append_take_drop_id has_prefix_append has_prefix_def)

lemma has_prefix_Nil [simp]: "has_prefix s []"
  by (simp add: has_prefix_def)

lemma trim_prefix_append [simp]: "trim_prefix (p @ s) p = s"
  by (simp add: trim_prefix_def)

lemma of_upper_char: "(of_char (upper_char c) :: nat) = (if is_lower c then of_char c - 32 else of_char c)"
proof (cases "is_lower c")
  case True
  then have "((of_char c :: nat) - 32) mod 256 = of_char c - 32"
    by (auto simp: is_lower_def intro!: mod_less)
  with True show ?thesis by (simp add: upper_char_def)
qed (simp add: upper_char_def)

lemma of_lower_char: "(of_char (lower_char c) :: nat) = (if is_upper c then of_char c + 32 else of_char c)"
proof (cases "is_upper c")
  case True
  then have "((of_char c :: nat) + 32) mod 256 = of_char c + 32"
    by (auto simp: is_upper_def intro!: mod_less)
  with True show ?thesis by (simp add: lower_char_def)
qed (simp add: lower_char_def)

lemma char_code_eq: "c = d \<longleftrightarrow> (of_char c :: nat) = of_char d"
  by simp

lemma lower_upper_char [simp]: "lower_char (upper_char c) = lower_char c"
  unfolding char_code_eq of_lower_char of_upper_char is_upper_def is_lower_def by arith

lemma lower_char_idem [simp]: "lower_char (lower_char c) = lower_char c"
  unfolding char_code_eq of_lower_char is_upper_def by arith

lemma upper_char_idem [simp]: "upper_char (upper_char c) = upper_char c"
  unfolding char_code_eq of_upper_char is_lower_def by arith

lemma hyphen_case [simp]: "(upper_char c = CHR ''-'') = (c = CHR ''-'')" "(lower_char c = CHR ''-'') = (c = CHR ''-'')"
  unfolding char_code_eq of_upper_char of_lower_char is_lower_def is_upper_def by auto

lemma to_lower_idem [simp]: "to_lower (to_lower s) = to_lower s"
  by (simp add: to_lower_def)

lemma to_lower_to_upper [simp]: "to_lower (to_upper s) = to_lower s"
  by (simp add: to_lower_def to_upper_def)

lemma equal_fold_refl [simp]: "equal_fold s s"
  by (simp add: equal_fold_def)

lemma equal_fold_sym: "equal_fold s t \<Longrightarrow> equal_fold t s"
  by (simp add: equal_fold_def)

lemma str_contains_append: "str_contains (a @ sub @ b) sub"
proof (induction a)
  case Nil
  have "has_prefix (sub @ b) sub" by simp
  then show ?case by (cases "sub @ b") (auto simp: str_contains_def has_prefix_def)
next
  case (Cons c a)
  then show ?case by (auto simp: str_contains_def)
qed

lemma str_index_Some: "str_index s sub = Some i \<Longrightarrow> has_prefix (drop i s) sub \<and> i \<le> length s"
  by (induction s sub arbitrary: i rule: str_index.induct) (auto split: if_splits)

lemma str_contains_iff: "str_contains s sub \<longleftrightarrow> (\<exists>a b. s = a @ sub @ b)"
proof
  assume "str_contains s sub"
  then obtain i where "str_index s sub = Some i" by (auto simp: str_contains_def)
  then have "has_prefix (drop i s) sub" by (blast dest: str_index_Some)
  then show "\<exists>a b. s = a @ sub @ b"
    by (metis append_take_drop_id has_prefix_iff)
next
  show "\<exists>a b. s = a @ sub @ b \<Longrightarrow> str_contains s sub"
    using str_contains_append by auto
qed

subsection \<open>Association lists: Go map reads and writes\<close>

definition has_key :: "(string \<times> 'v) list \<Rightarrow> string \<Rightarrow> bool" where
  "has_key m k = (map_of m k \<noteq> None)"

lemma has_key_iff: "has_key m k \<longleftrightarrow> k \<in> fst ` set m"
  by (simp add: has_key_def map_of_eq_None_iff)

lemma AList_update_distinct [simp]:
  "distinct (map fst (AList.update k v m)) = distinct (map fst m)"
  by (induction m) (auto simp: dom_update)

lemma update_list_all: "P (k, v) \<Longrightarrow> list_all P m \<Longrightarrow> list_all P (AList.update k v m)"
  by (induction m) auto

end
