(* ===== verification/GoJson.thy ===== *)
theory GoJson
  imports Prelude
begin

section \<open>The \<open>encoding/json\<close> package, as far as the program uses it\<close>

text \<open>
  A JSON document as a tree; a number keeps its literal text, because Go reads it as an
  \<open>int\<close> or as a \<open>float64\<close> depending on where it goes. \<open>json_print\<close> is what
  \<open>json.Marshal\<close> writes (HTML characters and U+2028/9 escaped, invalid UTF-8 written as
  U+FFFD), \<open>json_unmarshal\<close> is the reader of \<open>json.Unmarshal\<close> with its nesting limit. The
  parser runs on fuel; \<open>pvalue_fuel\<close> shows that the amount given is enough. The round trip
  \<open>json_roundtrip\<close> is what the storage and redaction theories rest on.
\<close>

datatype json =
    JNull
  | JBool bool
  | JNum string
  | JStr string
  | JArr "json list"
  | JObj "(string \<times> json) list"

subsection \<open>UTF-8: \<open>utf8.DecodeRune\<close> and \<open>utf8.EncodeRune\<close>\<close>

abbreviation code :: "char \<Rightarrow> nat" where
  "code c \<equiv> of_char c"

definition byte_at :: "nat \<Rightarrow> nat \<Rightarrow> nat \<Rightarrow> string \<Rightarrow> bool" where
  "byte_at lo hi i s = (i < length s \<and> lo \<le> code (s ! i) \<and> code (s ! i) \<le> hi)"

text \<open>Length of the well-formed sequence at the head, 0 when there is none.\<close>

definition utf8_len :: "string \<Rightarrow> nat" where
  "utf8_len s =
     (case s of [] \<Rightarrow> 0
      | a # _ \<Rightarrow>
        (let b = code a; cont = byte_at 0x80 0xBF in
         if b < 0x80 then 1
         else if 0xC2 \<le> b \<and> b \<le> 0xDF then (if cont 1 s then 2 else 0)
         else if b = 0xE0 then (if byte_at 0xA0 0xBF 1 s \<and> cont 2 s then 3 else 0)
         else if b = 0xED then (if byte_at 0x80 0x9F 1 s \<and> cont 2 s then 3 else 0)
         else if 0xE1 \<le> b \<and> b \<le> 0xEF then (if cont 1 s \<and> cont 2 s then 3 else 0)
         else if b = 0xF0 then (if byte_at 0x90 0xBF 1 s \<and> cont 2 s \<and> cont 3 s then 4 else 0)
         else if 0xF1 \<le> b \<and> b \<le> 0xF3 then (if cont 1 s \<and> cont 2 s \<and> cont 3 s then 4 else 0)
         else if b = 0xF4 then (if byte_at 0x80 0x8F 1 s \<and> cont 2 s \<and> cont 3 s then 4 else 0)
         else 0))"

definition encode_rune :: "nat \<Rightarrow> string" where
  "encode_rune n =
     (if n < 0x80 then [char_of n]
      else if n < 0x800 then [char_of (0xC0 + n div 64), char_of (0x80 + n mod 64)]
      else if n < 0x10000 then
        [char_of (0xE0 + n div 4096), char_of (0x80 + n div 64 mod 64), char_of (0x80 + n mod 64)]
      else [char_of (0xF0 + n div 262144), char_of (0x80 + n div 4096 mod 64),
            char_of (0x80 + n div 64 mod 64), char_of (0x80 + n mod 64)])"

definition rune_error :: string where
  "rune_error = [CHR 0xEF, CHR 0xBF, CHR 0xBD]"

text \<open>The string with each invalid byte replaced by U+FFFD, as \<open>encoding/json\<close> does.\<close>

function to_valid :: "string \<Rightarrow> string" where
  "to_valid [] = []"
| "to_valid (c # s) =
     (case utf8_len (c # s) of
        0 \<Rightarrow> rune_error @ to_valid s
      | Suc k \<Rightarrow> c # take k s @ to_valid (drop k s))"
  by pat_completeness auto
termination
  by (relation "measure length") auto

function valid_utf8 :: "string \<Rightarrow> bool" where
  "valid_utf8 [] = True"
| "valid_utf8 (c # s) =
     (case utf8_len (c # s) of 0 \<Rightarrow> False | Suc k \<Rightarrow> valid_utf8 (drop k s))"
  by pat_completeness auto
termination
  by (relation "measure length") auto

lemma to_valid_id: "valid_utf8 s \<Longrightarrow> to_valid s = s"
  by (induction s rule: valid_utf8.induct) (auto split: nat.splits)

lemma utf8_len_ascii: "code c < 0x80 \<Longrightarrow> utf8_len (c # s) = Suc 0"
  by (simp add: utf8_len_def)

lemma utf8_len_pos: "code c < 0x80 \<Longrightarrow> utf8_len (c # s) \<noteq> 0"
  by (simp add: utf8_len_ascii)

lemma valid_utf8_ascii: "\<forall>c \<in> set s. code c < 0x80 \<Longrightarrow> valid_utf8 s"
  by (induction s) (auto simp: utf8_len_ascii)

lemma byte_at_append: "byte_at lo hi i s \<Longrightarrow> byte_at lo hi i (s @ t)"
  by (simp add: byte_at_def nth_append)

lemma byte_at_length: "byte_at lo hi i s \<Longrightarrow> i < length s"
  by (simp add: byte_at_def)

lemma byte_at_take: "i < k \<Longrightarrow> k \<le> length s \<Longrightarrow> byte_at lo hi i (take k s @ t) = byte_at lo hi i s"
  by (simp add: byte_at_def nth_append)

lemma utf8_len_length: "utf8_len s \<le> length s"
  by (cases s) (auto simp: utf8_len_def Let_def Suc_le_eq dest!: byte_at_length)

lemma utf8_len_take: "utf8_len s = k \<Longrightarrow> 0 < k \<Longrightarrow> utf8_len (take k s @ t) = k"
proof -
  assume k: "utf8_len s = k" "0 < k"
  then obtain a u where s: "s = a # u" by (cases s) (auto simp: utf8_len_def)
  have len: "k \<le> length s" using utf8_len_length [of s] k by simp
  from s k(2) obtain w where hd: "take k s @ t = a # w" by (cases k) auto
  have b: "byte_at lo hi i (a # w) = byte_at lo hi i s" if "i < k" for lo hi i
    using byte_at_take [OF that len] hd by metis
  from k have "utf8_len (a # w) = k"
    using b unfolding s by (auto simp: utf8_len_def Let_def split: if_splits)
  with hd show ?thesis by simp
qed

subsection \<open>Strings\<close>

definition hex_digit :: "nat \<Rightarrow> char" where
  "hex_digit d = (if d < 10 then char_of (48 + d) else char_of (87 + d))"

definition hex_val :: "char \<Rightarrow> nat option" where
  "hex_val c =
     (if 48 \<le> code c \<and> code c \<le> 57 then Some (code c - 48)
      else if 97 \<le> code c \<and> code c \<le> 102 then Some (code c - 87)
      else if 65 \<le> code c \<and> code c \<le> 70 then Some (code c - 55)
      else None)"

fun hex4 :: "string \<Rightarrow> (nat \<times> string) option" where
  "hex4 (a # b # c # d # s) =
     (case (hex_val a, hex_val b, hex_val c, hex_val d) of
        (Some w, Some x, Some y, Some z) \<Rightarrow> Some (((w * 16 + x) * 16 + y) * 16 + z, s)
      | _ \<Rightarrow> None)"
| "hex4 _ = None"

definition quote_ascii :: "char \<Rightarrow> string" where
  "quote_ascii c =
     (if c = CHR 0x22 then [CHR 0x5C, CHR 0x22]
      else if c = CHR 0x5C then [CHR 0x5C, CHR 0x5C]
      else if c = CHR 0x08 then [CHR 0x5C, CHR ''b'']
      else if c = CHR 0x0C then [CHR 0x5C, CHR ''f'']
      else if c = CHR 0x0A then [CHR 0x5C, CHR ''n'']
      else if c = CHR 0x0D then [CHR 0x5C, CHR ''r'']
      else if c = CHR 0x09 then [CHR 0x5C, CHR ''t'']
      else if code c < 32 \<or> c = CHR ''<'' \<or> c = CHR ''>'' \<or> c = CHR ''&'' then
        [CHR 0x5C, CHR ''u'', CHR ''0'', CHR ''0'', hex_digit (code c div 16), hex_digit (code c mod 16)]
      else [c])"

definition is_line_sep :: "string \<Rightarrow> bool" where
  "is_line_sep r = (r = [CHR 0xE2, CHR 0x80, CHR 0xA8] \<or> r = [CHR 0xE2, CHR 0x80, CHR 0xA9])"

definition quote_rune :: "string \<Rightarrow> string" where
  "quote_rune r =
     (if is_line_sep r then CHR 0x5C # ''u202'' @ [hex_digit (code (last r) mod 16)] else r)"

function quote_body :: "string \<Rightarrow> string" where
  "quote_body [] = []"
| "quote_body (c # s) =
     (if code c < 0x80 then quote_ascii c @ quote_body s
      else case utf8_len (c # s) of
        0 \<Rightarrow> CHR 0x5C # ''ufffd'' @ quote_body s
      | Suc k \<Rightarrow> quote_rune (c # take k s) @ quote_body (drop k s))"
  by pat_completeness auto
termination
  by (relation "measure length") auto

definition json_quote :: "string \<Rightarrow> string" where
  "json_quote s = CHR 0x22 # quote_body s @ [CHR 0x22]"

definition low_surrogate :: "nat \<Rightarrow> string \<Rightarrow> (nat \<times> string) option" where
  "low_surrogate n s =
     (if has_prefix s [CHR 0x5C, CHR ''u''] then
        (case hex4 (drop 2 s) of
           None \<Rightarrow> None
         | Some (m, t) \<Rightarrow>
             (if n < 0xDC00 \<and> 0xDC00 \<le> m \<and> m < 0xE000
              then Some ((n - 0xD800) * 1024 + (m - 0xDC00) + 0x10000, t) else None))
      else None)"

definition unescape_u :: "string \<Rightarrow> (string \<times> string) option" where
  "unescape_u s =
     (case hex4 s of
        None \<Rightarrow> None
      | Some (n, t) \<Rightarrow>
          (if 0xD800 \<le> n \<and> n < 0xE000 then
             (case low_surrogate n t of
                Some (m, u) \<Rightarrow> Some (encode_rune m, u)
              | None \<Rightarrow> Some (rune_error, t))
           else Some (encode_rune n, t)))"

definition unescape :: "string \<Rightarrow> (string \<times> string) option" where
  "unescape s =
     (case s of
        [] \<Rightarrow> None
      | e # t \<Rightarrow>
          (if e = CHR 0x22 \<or> e = CHR 0x5C \<or> e = CHR ''/'' then Some ([e], t)
           else if e = CHR ''b'' then Some ([CHR 0x08], t)
           else if e = CHR ''f'' then Some ([CHR 0x0C], t)
           else if e = CHR ''n'' then Some ([CHR 0x0A], t)
           else if e = CHR ''r'' then Some ([CHR 0x0D], t)
           else if e = CHR ''t'' then Some ([CHR 0x09], t)
           else if e = CHR ''u'' then unescape_u t
           else None))"

definition str_cons :: "string \<Rightarrow> (string \<times> string) option \<Rightarrow> (string \<times> string) option" where
  "str_cons p r = map_option (\<lambda>(x, t). (p @ x, t)) r"

lemma str_cons_simps [simp]:
  "str_cons p None = None" "str_cons p (Some (x, t)) = Some (p @ x, t)"
  by (simp_all add: str_cons_def)

lemma hex4_length: "hex4 s = Some (n, t) \<Longrightarrow> length t < length s"
  by (induction s rule: hex4.induct) (auto split: option.splits)

lemma low_surrogate_length: "low_surrogate n s = Some (m, t) \<Longrightarrow> length t < length s"
  by (auto simp: low_surrogate_def split: if_splits option.splits dest!: hex4_length)

lemma unescape_u_length: "unescape_u s = Some (p, t) \<Longrightarrow> length t < length s"
  by (auto simp: unescape_u_def split: if_splits option.splits
      dest!: hex4_length low_surrogate_length)

lemma unescape_length: "unescape s = Some (p, t) \<Longrightarrow> length t < length s"
  by (auto simp: unescape_def split: if_splits list.splits dest!: unescape_u_length)

text \<open>The characters of a literal after its opening quote: their value and what follows.\<close>

function parse_str :: "string \<Rightarrow> (string \<times> string) option" where
  "parse_str [] = None"
| "parse_str (c # s) =
     (if c = CHR 0x22 then Some ([], s)
      else if code c < 32 then None
      else if c = CHR 0x5C then
        (case unescape s of None \<Rightarrow> None | Some (p, t) \<Rightarrow> str_cons p (parse_str t))
      else case utf8_len (c # s) of
        0 \<Rightarrow> str_cons rune_error (parse_str s)
      | Suc k \<Rightarrow> str_cons (c # take k s) (parse_str (drop k s)))"
  by pat_completeness auto
termination
  by (relation "measure length") (auto dest!: unescape_length)

lemma parse_str_length: "parse_str s = Some (x, t) \<Longrightarrow> length t < length s"
proof (induction s arbitrary: x t rule: parse_str.induct)
  case (2 c s)
  then show ?case
    by (force simp: str_cons_def split: if_splits option.splits nat.splits dest!: unescape_length)
qed simp

lemma hex_val_hex_digit [simp]: "d < 16 \<Longrightarrow> hex_val (hex_digit d) = Some d"
  by (auto simp: hex_val_def hex_digit_def)

lemma code_char_eq: "c = char_of n \<longleftrightarrow> code c = n mod 256"
  by (metis char_of_mod_256 of_char_of char_of_char)

lemma unescape_quote_hex:
  assumes "code c < 0x80"
  shows "unescape (CHR ''u'' # CHR ''0'' # CHR ''0'' # hex_digit (code c div 16) # hex_digit (code c mod 16) # t)
    = Some ([c], t)"
proof -
  have z: "hex_val (CHR ''0'') = Some 0" by (simp add: hex_val_def)
  have "hex4 (CHR ''0'' # CHR ''0'' # hex_digit (code c div 16) # hex_digit (code c mod 16) # t)
      = Some (code c, t)"
    using assms z by simp
  then show ?thesis using assms by (simp add: unescape_def unescape_u_def encode_rune_def)
qed

lemma parse_str_plain:
  "code c < 0x80 \<Longrightarrow> 32 \<le> code c \<Longrightarrow> c \<noteq> CHR 0x22 \<Longrightarrow> c \<noteq> CHR 0x5C \<Longrightarrow>
   parse_str (c # s) = str_cons [c] (parse_str s)"
  by (simp add: utf8_len_ascii)

lemma parse_str_escape:
  "unescape s = Some (p, t) \<Longrightarrow> parse_str (CHR 0x5C # s) = str_cons p (parse_str t)"
  by simp

lemma quote_ascii_escape:
  assumes "code c < 0x80" and "code c < 32 \<or> c \<in> {CHR 0x22, CHR 0x5C, CHR ''<'', CHR ''>'', CHR ''&''}"
  shows "\<exists>e. quote_ascii c = CHR 0x5C # e \<and> (\<forall>t. unescape (e @ t) = Some ([c], t))"
proof (cases "c \<in> {CHR 0x22, CHR 0x5C, CHR 0x08, CHR 0x0C, CHR 0x0A, CHR 0x0D, CHR 0x09}")
  case True
  then show ?thesis by (elim insertE emptyE) (simp_all add: quote_ascii_def unescape_def)
next
  case False
  have "code c < 32 \<or> c = CHR ''<'' \<or> c = CHR ''>'' \<or> c = CHR ''&''"
    using assms(2) False by auto
  with False have "quote_ascii c = CHR 0x5C # CHR ''u'' # CHR ''0'' # CHR ''0'' #
      [hex_digit (code c div 16), hex_digit (code c mod 16)]"
    unfolding quote_ascii_def by simp
  then show ?thesis using unescape_quote_hex [OF assms(1)] by simp
qed

lemma quote_ascii_plain:
  assumes "\<not> code c < 32" and "c \<noteq> CHR 0x22" "c \<noteq> CHR 0x5C" "c \<noteq> CHR ''<''" "c \<noteq> CHR ''>''" "c \<noteq> CHR ''&''"
  shows "quote_ascii c = [c]"
proof -
  have "c \<noteq> CHR 0x08" "c \<noteq> CHR 0x0C" "c \<noteq> CHR 0x0A" "c \<noteq> CHR 0x0D" "c \<noteq> CHR 0x09"
    using assms(1) by force+
  then show ?thesis unfolding quote_ascii_def using assms by presburger
qed

lemma parse_quote_ascii:
  assumes "code c < 0x80"
  shows "parse_str (quote_ascii c @ s) = str_cons [c] (parse_str s)"
proof (cases "code c < 32 \<or> c \<in> {CHR 0x22, CHR 0x5C, CHR ''<'', CHR ''>'', CHR ''&''}")
  case False
  then have "quote_ascii c @ s = c # s" using quote_ascii_plain [of c] by simp
  moreover from False have "32 \<le> code c" "c \<noteq> CHR 0x22" "c \<noteq> CHR 0x5C" by simp_all
  ultimately show ?thesis using parse_str_plain [OF assms] by metis
next
  case True
  then obtain e where "quote_ascii c = CHR 0x5C # e" "\<forall>t. unescape (e @ t) = Some ([c], t)"
    using quote_ascii_escape [OF assms] by blast
  then show ?thesis using parse_str_escape [of "e @ s" "[c]" s] by (metis append_Cons)
qed

lemma parse_quote_invalid: "parse_str (CHR 0x5C # ''ufffd'' @ s) = str_cons rune_error (parse_str s)"
proof (rule parse_str_escape)
  have "hex4 (''fffd'' @ s) = Some (65533, s)" by (simp add: hex_val_def)
  moreover have "encode_rune 65533 = rune_error" by (simp add: encode_rune_def rune_error_def char_of_eq_iff)
  ultimately show "unescape (''ufffd'' @ s) = Some (rune_error, s)"
    by (simp add: unescape_def unescape_u_def)
qed

lemma parse_quote_rune:
  assumes "utf8_len (c # s) = Suc k" "\<not> code c < 0x80"
  shows "parse_str (quote_rune (c # take k s) @ t) = str_cons (c # take k s) (parse_str t)"
proof (cases "is_line_sep (c # take k s)")
  case True
  have e: "hex4 (''202'' @ hex_digit 8 # t) = Some (0x2028, t)"
    "hex4 (''202'' @ hex_digit 9 # t) = Some (0x2029, t)"
    by (simp_all add: hex_val_def hex_digit_def)
  have u: "encode_rune 0x2028 = [CHR 0xE2, CHR 0x80, CHR 0xA8]"
    "encode_rune 0x2029 = [CHR 0xE2, CHR 0x80, CHR 0xA9]"
    by (simp_all add: encode_rune_def char_of_eq_iff)
  have "unescape (''u202'' @ hex_digit (code (last (c # take k s)) mod 16) # t) = Some (c # take k s, t)"
    using True [unfolded is_line_sep_def] e u
    by (elim disjE) (simp_all add: unescape_def unescape_u_def)
  with True show ?thesis
    using parse_str_escape by (simp add: quote_rune_def del: parse_str.simps)
next
  case False
  have c: "c \<noteq> CHR 0x22" "c \<noteq> CHR 0x5C" "\<not> code c < 32" using assms(2) by auto
  have "utf8_len (c # take k s @ t) = Suc k"
    using utf8_len_take [of "c # s" "Suc k" t] assms(1) by simp
  moreover have "k \<le> length s" using utf8_len_length [of "c # s"] assms(1) by simp
  ultimately show ?thesis using False c by (simp add: quote_rune_def)
qed

lemma parse_quote_body:
  "parse_str (quote_body s @ CHR 0x22 # t) = Some (to_valid s, t)"
proof (induction s rule: quote_body.induct)
  case (2 c s)
  show ?case
  proof (cases "code c < 0x80")
    case True
    with 2 show ?thesis by (simp add: parse_quote_ascii utf8_len_ascii del: parse_str.simps)
  next
    case False
    show ?thesis
    proof (cases "utf8_len (c # s)")
      case 0
      with 2 False show ?thesis using parse_quote_invalid by (simp del: parse_str.simps)
    next
      case (Suc k)
      with 2 False parse_quote_rune show ?thesis by (simp del: parse_str.simps)
    qed
  qed
qed simp

subsection \<open>Numbers\<close>

type_synonym lexer = "string \<Rightarrow> (string \<times> string) option"

definition lex_seq :: "lexer \<Rightarrow> lexer \<Rightarrow> lexer" where
  "lex_seq f g s =
     (case f s of None \<Rightarrow> None
      | Some (a, r) \<Rightarrow> (case g r of None \<Rightarrow> None | Some (b, t) \<Rightarrow> Some (a @ b, t)))"

definition lex_digits :: "lexer" where
  "lex_digits s =
     (if takeWhile is_digit s = [] then None
      else Some (takeWhile is_digit s, dropWhile is_digit s))"

definition lex_opt :: "char list \<Rightarrow> lexer" where
  "lex_opt cs s =
     (case s of [] \<Rightarrow> Some ([], []) | c # t \<Rightarrow> if c \<in> set cs then Some ([c], t) else Some ([], s))"

definition lex_int :: "lexer" where
  "lex_int s =
     (case s of [] \<Rightarrow> None | c # t \<Rightarrow> if c = CHR ''0'' then Some ([c], t) else lex_digits s)"

text \<open>What may follow a number in a document that prints one.\<close>

definition num_end :: "string \<Rightarrow> bool" where
  "num_end r = (r = [] \<or> (\<not> is_digit (hd r) \<and> hd r \<notin> set ''.eE+-''))"

text \<open>
  A lexer splits its input, and keeps its answer when text is added that does not continue it.
\<close>

definition lexer_ok :: "lexer \<Rightarrow> bool" where
  "lexer_ok f \<longleftrightarrow> (\<forall>s a r. f s = Some (a, r) \<longrightarrow>
     s = a @ r \<and> (\<forall>t. (r \<noteq> [] \<or> num_end t) \<longrightarrow> f (s @ t) = Some (a, r @ t)))"

lemma lexer_split: "lexer_ok f \<Longrightarrow> f s = Some (a, r) \<Longrightarrow> s = a @ r"
  by (auto simp: lexer_ok_def)

lemma lexer_extend:
  "lexer_ok f \<Longrightarrow> f s = Some (a, r) \<Longrightarrow> r \<noteq> [] \<or> num_end t \<Longrightarrow> f (s @ t) = Some (a, r @ t)"
  unfolding lexer_ok_def by blast

lemma lexer_okI:
  assumes "\<And>s a r. f s = Some (a, r) \<Longrightarrow> s = a @ r"
    and "\<And>s a r t. f s = Some (a, r) \<Longrightarrow> r \<noteq> [] \<or> num_end t \<Longrightarrow> f (s @ t) = Some (a, r @ t)"
  shows "lexer_ok f"
  unfolding lexer_ok_def using assms by blast

lemma lexer_ok_seq:
  assumes f: "lexer_ok f" and g: "lexer_ok g"
  shows "lexer_ok (lex_seq f g)"
proof (rule lexer_okI)
  fix s a r
  assume "lex_seq f g s = Some (a, r)"
  then obtain b u c where fs: "f s = Some (b, u)" and gu: "g u = Some (c, r)" and a: "a = b @ c"
    by (auto simp: lex_seq_def split: option.splits)
  then show "s = a @ r" using lexer_split [OF f fs] lexer_split [OF g gu] by simp
  fix t
  assume t: "r \<noteq> [] \<or> num_end t"
  then have "u \<noteq> [] \<or> num_end t" using lexer_split [OF g gu] by auto
  then have "f (s @ t) = Some (b, u @ t)" by (rule lexer_extend [OF f fs])
  with lexer_extend [OF g gu t] a show "lex_seq f g (s @ t) = Some (a, r @ t)"
    by (simp add: lex_seq_def)
qed

lemma lexer_ok_digits: "lexer_ok lex_digits"
proof (rule lexer_okI)
  fix s a r
  assume "lex_digits s = Some (a, r)"
  then have a: "a = takeWhile is_digit s" "a \<noteq> []" and r: "r = dropWhile is_digit s"
    by (auto simp: lex_digits_def split: if_splits)
  then show "s = a @ r" by simp
  fix t
  assume t: "r \<noteq> [] \<or> num_end t"
  show "lex_digits (s @ t) = Some (a, r @ t)"
  proof (cases "r = []")
    case True
    then have all: "\<forall>c \<in> set s. is_digit c" using r by simp
    then have as: "a = s" using a by (metis takeWhile_eq_all_conv)
    from True t have "t = [] \<or> \<not> is_digit (hd t)" by (auto simp: num_end_def)
    then have "takeWhile is_digit t = []" "dropWhile is_digit t = t"
      by (cases t; simp)+
    then show ?thesis using all as a(2) True
      by (simp add: lex_digits_def takeWhile_append2 dropWhile_append2)
  next
    case False
    then obtain x where "x \<in> set s" "\<not> is_digit x" using r by auto
    with a r show ?thesis
      by (simp add: lex_digits_def takeWhile_append1 [of x] dropWhile_append1 [of x])
  qed
qed

lemma lexer_ok_opt: "set cs \<subseteq> set ''.eE+-'' \<Longrightarrow> lexer_ok (lex_opt cs)"
proof (rule lexer_okI)
  fix s a r t
  assume cs: "set cs \<subseteq> set ''.eE+-''" and "lex_opt cs s = Some (a, r)" "r \<noteq> [] \<or> num_end t"
  moreover from cs have "num_end t \<Longrightarrow> t = [] \<or> hd t \<notin> set cs" by (auto simp: num_end_def)
  ultimately show "lex_opt cs (s @ t) = Some (a, r @ t)"
    by (cases s; cases t) (auto simp: lex_opt_def split: if_splits)
qed (auto simp: lex_opt_def split: list.splits if_splits)

lemma lexer_ok_int: "lexer_ok lex_int"
proof (rule lexer_okI)
  fix s a r
  assume l: "lex_int s = Some (a, r)"
  then show "s = a @ r"
    using lexer_split [OF lexer_ok_digits] by (auto simp: lex_int_def split: list.splits if_splits)
  fix t
  assume t: "r \<noteq> [] \<or> num_end t"
  from l t show "lex_int (s @ t) = Some (a, r @ t)"
    using lexer_extend [OF lexer_ok_digits, of s a r t]
    by (auto simp: lex_int_def split: list.splits if_splits)
qed

text \<open>An optional tail: nothing, unless the input starts with one of the given characters.\<close>

definition lex_tail :: "char list \<Rightarrow> lexer \<Rightarrow> lexer" where
  "lex_tail cs f s =
     (case s of [] \<Rightarrow> Some ([], [])
      | c # t \<Rightarrow> if c \<in> set cs then map_option (apfst (Cons c)) (f t) else Some ([], s))"

lemma lexer_ok_tail:
  assumes cs: "set cs \<subseteq> set ''.eE+-''" and f: "lexer_ok f"
  shows "lexer_ok (lex_tail cs f)"
proof (rule lexer_okI)
  fix s a r
  assume l: "lex_tail cs f s = Some (a, r)"
  then show "s = a @ r"
    using lexer_split [OF f] by (auto simp: lex_tail_def split: list.splits if_splits)
  fix t
  assume t: "r \<noteq> [] \<or> num_end t"
  have n: "num_end t \<Longrightarrow> t = [] \<or> hd t \<notin> set cs" using cs by (auto simp: num_end_def)
  show "lex_tail cs f (s @ t) = Some (a, r @ t)"
  proof (cases s)
    case Nil
    with l t n show ?thesis by (cases t) (auto simp: lex_tail_def)
  next
    case (Cons c u)
    with l t lexer_extend [OF f, of u _ r t] show ?thesis
      by (auto simp: lex_tail_def split: if_splits)
  qed
qed

definition lex_number :: "lexer" where
  "lex_number =
     lex_seq (lex_opt ''-'') (lex_seq lex_int
       (lex_seq (lex_tail ''.'' lex_digits)
                (lex_tail ''eE'' (lex_seq (lex_opt ''+-'') lex_digits))))"

definition is_number :: "string \<Rightarrow> bool" where
  "is_number l = (lex_number l = Some (l, []))"

lemma lexer_ok_number: "lexer_ok lex_number"
  unfolding lex_number_def
  by (intro lexer_ok_seq lexer_ok_opt lexer_ok_int lexer_ok_tail lexer_ok_digits) auto

lemma lex_number_append: "is_number l \<Longrightarrow> num_end t \<Longrightarrow> lex_number (l @ t) = Some (l, t)"
  using lexer_extend [OF lexer_ok_number, of l l "[]" t] by (simp add: is_number_def)

subsection \<open>Printing a document\<close>

fun json_print :: "json \<Rightarrow> string" where
  "json_print JNull = ''null''"
| "json_print (JBool b) = (if b then ''true'' else ''false'')"
| "json_print (JNum l) = l"
| "json_print (JStr s) = json_quote s"
| "json_print (JArr vs) = ''['' @ join '','' (map json_print vs) @ '']''"
| "json_print (JObj ms) =
     ''{'' @ join '','' (map (\<lambda>(k, v). json_quote k @ '':'' @ json_print v) ms) @ ''}''"

fun json_depth :: "json \<Rightarrow> nat" where
  "json_depth (JArr vs) = Suc (foldr max (map json_depth vs) 0)"
| "json_depth (JObj ms) = Suc (foldr max (map (\<lambda>(k, v). json_depth v) ms) 0)"
| "json_depth _ = 0"

text \<open>Documents whose strings are UTF-8 and whose numbers are JSON numbers.\<close>

fun json_ok :: "json \<Rightarrow> bool" where
  "json_ok (JNum l) = is_number l"
| "json_ok (JStr s) = valid_utf8 s"
| "json_ok (JArr vs) = (\<forall>v \<in> set vs. json_ok v)"
| "json_ok (JObj ms) = (\<forall>(k, v) \<in> set ms. valid_utf8 k \<and> json_ok v)"
| "json_ok _ = True"

subsection \<open>Reading a document\<close>

definition is_json_ws :: "char \<Rightarrow> bool" where
  "is_json_ws c = (code c \<in> {9, 10, 13, 32})"

definition skip_ws :: "string \<Rightarrow> string" where
  "skip_ws s = dropWhile is_json_ws s"

text \<open>The next character after white space, when it is the one expected.\<close>

definition eat :: "char \<Rightarrow> string \<Rightarrow> string option" where
  "eat c s = (case skip_ws s of [] \<Rightarrow> None | x # r \<Rightarrow> if x = c then Some r else None)"

definition pscalar :: "string \<Rightarrow> (json \<times> string) option" where
  "pscalar s =
     (if has_prefix s ''null'' then Some (JNull, drop 4 s)
      else if has_prefix s ''true'' then Some (JBool True, drop 4 s)
      else if has_prefix s ''false'' then Some (JBool False, drop 5 s)
      else map_option (apfst JNum) (lex_number s))"

fun pvalue :: "nat \<Rightarrow> string \<Rightarrow> (json \<times> string) option"
  and pelems :: "nat \<Rightarrow> string \<Rightarrow> (json list \<times> string) option"
  and pmembers :: "nat \<Rightarrow> string \<Rightarrow> ((string \<times> json) list \<times> string) option" where
  "pvalue 0 s = None"
| "pvalue (Suc n) s =
     (case skip_ws s of
        [] \<Rightarrow> None
      | c # t \<Rightarrow>
          (if c = CHR 0x22 then map_option (apfst JStr) (parse_str t)
           else if c = CHR ''['' then
             (case eat (CHR '']'') t of
                Some r \<Rightarrow> Some (JArr [], r)
              | None \<Rightarrow> map_option (apfst JArr) (pelems n t))
           else if c = CHR ''{'' then
             (case eat (CHR ''}'') t of
                Some r \<Rightarrow> Some (JObj [], r)
              | None \<Rightarrow> map_option (apfst JObj) (pmembers n t))
           else pscalar (c # t)))"
| "pelems 0 s = None"
| "pelems (Suc n) s =
     (case pvalue n s of
        None \<Rightarrow> None
      | Some (v, r) \<Rightarrow>
          (case eat (CHR '','') r of
             Some r' \<Rightarrow> map_option (apfst (Cons v)) (pelems n r')
           | None \<Rightarrow> map_option (\<lambda>r'. ([v], r')) (eat (CHR '']'') r)))"
| "pmembers 0 s = None"
| "pmembers (Suc n) s =
     (case Option.bind (eat (CHR 0x22) s) parse_str of
        None \<Rightarrow> None
      | Some (k, r) \<Rightarrow>
          (case Option.bind (eat (CHR '':'') r) (pvalue n) of
             None \<Rightarrow> None
           | Some (v, r2) \<Rightarrow>
               (case eat (CHR '','') r2 of
                  Some r3 \<Rightarrow> map_option (apfst (Cons (k, v))) (pmembers n r3)
                | None \<Rightarrow> map_option (\<lambda>r3. ([(k, v)], r3)) (eat (CHR ''}'') r2))))"

definition max_nesting :: nat where
  "max_nesting = 10000"

definition json_unmarshal :: "string \<Rightarrow> json option" where
  "json_unmarshal s =
     (case pvalue (2 * length s + 2) s of
        None \<Rightarrow> None
      | Some (v, r) \<Rightarrow> if skip_ws r = [] \<and> json_depth v \<le> max_nesting then Some v else None)"

text \<open>\<open>Decoder.Decode\<close> reads one value and leaves what follows it.\<close>

definition json_decode :: "string \<Rightarrow> json option" where
  "json_decode s =
     (case pvalue (2 * length s + 2) s of
        None \<Rightarrow> None
      | Some (v, r) \<Rightarrow> if json_depth v \<le> max_nesting then Some v else None)"

subsection \<open>The fuel is enough\<close>

lemma skip_ws_length: "length (skip_ws s) \<le> length s"
  by (simp add: skip_ws_def length_dropWhile_le)

lemma eat_length: "eat c s = Some r \<Longrightarrow> length r < length s"
  using skip_ws_length [of s] by (auto simp: eat_def split: list.splits if_splits)

lemma lex_number_length: "lex_number s = Some (l, r) \<Longrightarrow> length r \<le> length s"
  using lexer_split [OF lexer_ok_number, of s l r] by simp

lemma pscalar_length: "pscalar s = Some (v, r) \<Longrightarrow> length r \<le> length s"
  by (auto simp: pscalar_def split: if_splits dest!: lex_number_length)

lemma parser_length:
  "pvalue n s = Some (v, r) \<Longrightarrow> length r \<le> length s"
  "pelems n s = Some (vs, r) \<Longrightarrow> length r \<le> length s"
  "pmembers n s = Some (ms, r) \<Longrightarrow> length r \<le> length s"
proof (induction n arbitrary: s v vs ms r)
  case (Suc n)
  {
    case 1
    have "length (skip_ws s) \<le> length s" by (rule skip_ws_length)
    with 1 show ?case
      by (auto split: list.splits if_splits option.splits
          dest!: parse_str_length eat_length pscalar_length Suc.IH)
  next
    case 2
    then show ?case
      by (auto split: option.splits dest!: eat_length Suc.IH)
  next
    case 3
    then show ?case
      by (auto split: option.splits Option.bind_splits dest!: eat_length parse_str_length Suc.IH)
  }
qed simp_all

lemma skip_ws_Cons: "skip_ws s = c # t \<Longrightarrow> length t < length s"
  using skip_ws_length [of s] by simp

lemma parser_fuel:
  "2 * length s < n \<Longrightarrow> 2 * length s < m \<Longrightarrow> pvalue n s = pvalue m s"
  "2 * length s + 1 < n \<Longrightarrow> 2 * length s + 1 < m \<Longrightarrow> pelems n s = pelems m s"
  "2 * length s + 1 < n \<Longrightarrow> 2 * length s + 1 < m \<Longrightarrow> pmembers n s = pmembers m s"
proof (induction n arbitrary: s m)
  case (Suc n)
  {
    case 1
    then obtain m' where m: "m = Suc m'" by (cases m) auto
    show ?case
    proof (cases "skip_ws s")
      case (Cons c t)
      with 1 m have "2 * length t + 1 < n" "2 * length t + 1 < m'"
        using skip_ws_Cons [OF Cons] by linarith+
      then have "pelems n t = pelems m' t" "pmembers n t = pmembers m' t"
        using Suc.IH(2,3) by blast+
      with m Cons show ?thesis by (simp split: option.split)
    qed (simp add: m)
  next
    case 2
    then obtain m' where m: "m = Suc m'" by (cases m) auto
    with 2 have v: "pvalue n s = pvalue m' s" by (intro Suc.IH(1)) auto
    have e: "pelems n r' = pelems m' r'" if "pvalue m' s = Some (x, r)" "eat c r = Some r'" for x r c r'
      using 2 m parser_length(1) [OF that(1)] eat_length [OF that(2)] by (intro Suc.IH(2)) linarith+
    show ?case using v e by (simp add: m split: option.split)
  next
    case 3
    then obtain m' where m: "m = Suc m'" by (cases m) auto
    show ?case
    proof (cases "Option.bind (eat (CHR 0x22) s) parse_str")
      case (Some p)
      obtain k r where p: "p = (k, r)" by (cases p)
      from Some p have rl: "length r < length s"
        by (auto split: Option.bind_splits dest!: eat_length parse_str_length)
      have v: "pvalue n u = pvalue m' u" if "eat c r = Some u" for c u
        using 3 m rl eat_length [OF that] by (intro Suc.IH(1)) linarith+
      have w: "pmembers n r3 = pmembers m' r3"
        if "eat c r = Some u" "pvalue m' u = Some (x, r2)" "eat d r2 = Some r3" for c u x r2 d r3
        using 3 m rl eat_length [OF that(1)] parser_length(1) [OF that(2)] eat_length [OF that(3)]
        by (intro Suc.IH(3)) linarith+
      show ?thesis using Some p v w
        by (auto simp: m split: option.split Option.bind_split)
    qed (simp add: m)
  }
qed simp_all

lemma pvalue_fuel: "2 * length s < n \<Longrightarrow> pvalue n s = pvalue (2 * length s + 2) s"
  by (rule parser_fuel(1)) simp_all

subsection \<open>Round trip\<close>

lemma eat_hit [simp]: "\<not> is_json_ws c \<Longrightarrow> eat c (c # r) = Some r"
  by (simp add: eat_def skip_ws_def)

lemma eat_miss: "\<not> is_json_ws x \<Longrightarrow> x \<noteq> c \<Longrightarrow> eat c (x # r) = None"
  by (simp add: eat_def skip_ws_def)

lemma json_ws_simps [simp]:
  "\<not> is_json_ws (CHR '','')" "\<not> is_json_ws (CHR '']'')" "\<not> is_json_ws (CHR ''}'')"
  "\<not> is_json_ws (CHR '':'')" "\<not> is_json_ws (CHR 0x22)" "\<not> is_json_ws (CHR ''['')"
  "\<not> is_json_ws (CHR ''{'')" "\<not> is_json_ws (CHR ''n'')" "\<not> is_json_ws (CHR ''t'')"
  "\<not> is_json_ws (CHR ''f'')"
  by (simp_all add: is_json_ws_def)

lemma lex_int_head: "lex_int s = Some (a, r) \<Longrightarrow> is_digit (hd s)"
  by (cases s)
     (auto simp: lex_int_def lex_digits_def is_digit_def split: if_splits)

lemma lex_int_Nil [simp]: "lex_int [] = None"
  by (simp add: lex_int_def)

lemma is_number_head: "is_number l \<Longrightarrow> l \<noteq> [] \<and> (hd l = CHR ''-'' \<or> is_digit (hd l))"
  by (cases l)
     (auto simp: is_number_def lex_number_def lex_seq_def lex_opt_def
       split: option.splits if_splits dest!: lex_int_head)

text \<open>A printed value starts with a character that is neither space nor a closing bracket.\<close>

definition value_head :: "char \<Rightarrow> bool" where
  "value_head c = (\<not> is_json_ws c \<and> c \<noteq> CHR '']'' \<and> c \<noteq> CHR ''}'' \<and> c \<noteq> CHR '','' \<and> c \<noteq> CHR '':'')"

lemma value_head_number: "c = CHR ''-'' \<or> is_digit c \<Longrightarrow> value_head c"
  by (auto simp: value_head_def is_json_ws_def is_digit_def)

lemma json_print_head:
  "json_ok v \<Longrightarrow> \<exists>c t. json_print v = c # t \<and> value_head c"
proof (cases v)
  case (JNum l)
  moreover assume "json_ok v"
  ultimately have "l \<noteq> []" "hd l = CHR ''-'' \<or> is_digit (hd l)"
    using is_number_head [of l] by simp_all
  with JNum show ?thesis using value_head_number by (cases l) auto
qed (auto simp: value_head_def json_quote_def)

definition value_end :: "string \<Rightarrow> bool" where
  "value_end r = (r = [] \<or> hd r = CHR '','' \<or> hd r = CHR '']'' \<or> hd r = CHR ''}'' \<or>
     hd r = CHR 0x0A)"

lemma value_end_simps [simp]:
  "value_end []" "value_end (CHR '','' # r)" "value_end (CHR '']'' # r)" "value_end (CHR ''}'' # r)"
  "value_end (CHR 0x0A # r)"
  by (simp_all add: value_end_def)

lemma value_end_num_end: "value_end r \<Longrightarrow> num_end r"
  by (auto simp: value_end_def num_end_def is_digit_def)

lemma parse_json_quote:
  "valid_utf8 s \<Longrightarrow> parse_str (quote_body s @ CHR 0x22 # r) = Some (s, r)"
  by (simp add: parse_quote_body to_valid_id)

lemma pscalar_number:
  assumes "is_number l" "value_end r"
  shows "pscalar (l @ r) = Some (JNum l, r)"
proof -
  obtain c t where l: "l = c # t" "c = CHR ''-'' \<or> is_digit c"
    using is_number_head [OF assms(1)] by (cases l) auto
  then have "c \<noteq> CHR ''n'' \<and> c \<noteq> CHR ''t'' \<and> c \<noteq> CHR ''f''" by (auto simp: is_digit_def)
  with l have "\<not> has_prefix (l @ r) ''null''" "\<not> has_prefix (l @ r) ''true''"
    "\<not> has_prefix (l @ r) ''false''"
    by (simp_all add: has_prefix_def)
  then show ?thesis
    using lex_number_append [OF assms(1) value_end_num_end [OF assms(2)]] by (simp add: pscalar_def)
qed

lemma pvalue_number:
  assumes "is_number l" "value_end r"
  shows "pvalue (Suc n) (l @ r) = Some (JNum l, r)"
proof -
  obtain c t where l: "l = c # t" "c = CHR ''-'' \<or> is_digit c"
    using is_number_head [OF assms(1)] by (cases l) auto
  then have "skip_ws (l @ r) = c # t @ r"
    using value_head_number [of c] by (simp add: skip_ws_def value_head_def)
  moreover have "c \<noteq> CHR 0x22 \<and> c \<noteq> CHR ''['' \<and> c \<noteq> CHR ''{''" using l(2) by (auto simp: is_digit_def)
  ultimately show ?thesis using pscalar_number [OF assms] l(1) by simp
qed

definition prints :: "json \<Rightarrow> bool" where
  "prints v \<longleftrightarrow> (\<forall>n r. 2 * length (json_print v) < n \<longrightarrow> value_end r \<longrightarrow>
     pvalue n (json_print v @ r) = Some (v, r))"

lemma printsD: "prints v \<Longrightarrow> 2 * length (json_print v) < n \<Longrightarrow> value_end r \<Longrightarrow>
    pvalue n (json_print v @ r) = Some (v, r)"
  by (simp add: prints_def)

lemma join_Cons: "join sep (s # ss) = (if ss = [] then s else s @ sep @ join sep ss)"
  by (cases ss) auto

lemma pelems_print:
  "\<forall>v \<in> set vs. prints v \<Longrightarrow> vs \<noteq> [] \<Longrightarrow>
   2 * length (join '','' (map json_print vs)) + 1 < n \<Longrightarrow>
   pelems n (join '','' (map json_print vs) @ CHR '']'' # r) = Some (vs, r)"
proof (induction vs arbitrary: n)
  case (Cons v vs)
  then obtain m where n: "n = Suc m" by (cases n) auto
  show ?case
  proof (cases "vs = []")
    case True
    with Cons n have "pvalue m (json_print v @ CHR '']'' # r) = Some (v, CHR '']'' # r)"
      by (intro printsD) auto
    with True n show ?thesis by (simp add: eat_miss)
  next
    case False
    let ?r = "CHR '','' # join '','' (map json_print vs) @ CHR '']'' # r"
    have v: "pvalue m (json_print v @ ?r) = Some (v, ?r)"
      using Cons.prems False n by (intro printsD) (auto simp: join_Cons)
    have "pelems m (join '','' (map json_print vs) @ CHR '']'' # r) = Some (vs, r)"
      using Cons.prems False n by (intro Cons.IH) (auto simp: join_Cons)
    with v False n show ?thesis by (simp add: join_Cons)
  qed
qed simp

abbreviation print_member :: "string \<times> json \<Rightarrow> string" where
  "print_member \<equiv> \<lambda>(k, v). json_quote k @ '':'' @ json_print v"

lemma pmembers_print:
  "\<forall>(k, v) \<in> set ms. valid_utf8 k \<and> prints v \<Longrightarrow> ms \<noteq> [] \<Longrightarrow>
   2 * length (join '','' (map print_member ms)) + 1 < n \<Longrightarrow>
   pmembers n (join '','' (map print_member ms) @ CHR ''}'' # r) = Some (ms, r)"
proof (induction ms arbitrary: n)
  case (Cons kv ms)
  obtain k v where kv: "kv = (k, v)" by (cases kv)
  from Cons.prems obtain m where n: "n = Suc m" by (cases n) auto
  from Cons.prems kv have k: "valid_utf8 k" and v: "prints v" by auto
  have key: "Option.bind (eat (CHR 0x22) (json_quote k @ t)) parse_str = Some (k, t)" for t
    using parse_json_quote [OF k, of t] by (simp add: json_quote_def)
  show ?case
  proof (cases "ms = []")
    case True
    with Cons.prems n kv have "pvalue m (json_print v @ CHR ''}'' # r) = Some (v, CHR ''}'' # r)"
      by (intro printsD [OF v]) (auto simp: json_quote_def)
    with True n kv key show ?thesis by (simp add: eat_miss)
  next
    case False
    let ?r = "CHR '','' # join '','' (map print_member ms) @ CHR ''}'' # r"
    have pv: "pvalue m (json_print v @ ?r) = Some (v, ?r)"
      using Cons.prems False n kv by (intro printsD [OF v]) (auto simp: join_Cons json_quote_def)
    have "pmembers m (join '','' (map print_member ms) @ CHR ''}'' # r) = Some (ms, r)"
      using Cons.prems False n kv by (intro Cons.IH) (auto simp: join_Cons)
    with pv key False n kv show ?thesis by (simp add: join_Cons)
  qed
qed simp

lemma eat_value_head: "value_head c \<Longrightarrow> d = CHR '']'' \<or> d = CHR ''}'' \<Longrightarrow> eat d (c # t) = None"
  by (rule eat_miss) (auto simp: value_head_def)

lemma json_ok_prints: "json_ok v \<Longrightarrow> prints v"
proof (induction v)
  case JNull
  show ?case unfolding prints_def
  proof (intro allI impI)
    fix n r assume "2 * length (json_print JNull) < n"
    then show "pvalue n (json_print JNull @ r) = Some (JNull, r)"
      by (cases n) (simp_all add: skip_ws_def pscalar_def has_prefix_def)
  qed
next
  case (JBool b)
  show ?case unfolding prints_def
  proof (intro allI impI)
    fix n r assume "2 * length (json_print (JBool b)) < n"
    then show "pvalue n (json_print (JBool b) @ r) = Some (JBool b, r)"
      by (cases n; cases b) (simp_all add: skip_ws_def pscalar_def has_prefix_def)
  qed
next
  case (JNum l)
  then show ?case
    unfolding prints_def using pvalue_number [of l] by (metis json_ok.simps(1) json_print.simps(3)
      not_less_zero old.nat.exhaust)
next
  case (JStr s)
  show ?case unfolding prints_def
  proof (intro allI impI)
    fix n r assume "2 * length (json_print (JStr s)) < n"
    with JStr show "pvalue n (json_print (JStr s) @ r) = Some (JStr s, r)"
      using parse_json_quote [of s r] by (cases n) (simp_all add: skip_ws_def json_quote_def)
  qed
next
  case (JArr vs)
  show ?case unfolding prints_def
  proof (intro allI impI)
    fix n r assume "2 * length (json_print (JArr vs)) < n"
    then obtain m where n: "n = Suc m" and m: "2 * length (join '','' (map json_print vs)) + 1 < m"
      by (cases n) auto
    show "pvalue n (json_print (JArr vs) @ r) = Some (JArr vs, r)"
    proof (cases vs)
      case Nil
      then show ?thesis by (simp add: n skip_ws_def)
    next
      case (Cons v ws)
      obtain c t where c: "json_print v = c # t" "value_head c"
        using json_print_head [of v] JArr.prems Cons by auto
      then obtain t' where "join '','' (map json_print vs) @ CHR '']'' # r = c # t'"
        by (cases "ws = []") (auto simp: Cons join_Cons)
      with c(2) have "eat (CHR '']'') (join '','' (map json_print vs) @ CHR '']'' # r) = None"
        using eat_value_head by metis
      moreover have "pelems m (join '','' (map json_print vs) @ CHR '']'' # r) = Some (vs, r)"
        using JArr m Cons by (intro pelems_print) auto
      ultimately show ?thesis by (simp add: n skip_ws_def)
    qed
  qed
next
  case (JObj ms)
  have ok: "\<forall>(k, v) \<in> set ms. valid_utf8 k \<and> prints v"
    using JObj by (auto 4 4 simp: snds.simps)
  show ?case unfolding prints_def
  proof (intro allI impI)
    fix n r assume "2 * length (json_print (JObj ms)) < n"
    then obtain m where n: "n = Suc m" and m: "2 * length (join '','' (map print_member ms)) + 1 < m"
      by (cases n) auto
    show "pvalue n (json_print (JObj ms) @ r) = Some (JObj ms, r)"
    proof (cases ms)
      case Nil
      then show ?thesis by (simp add: n skip_ws_def)
    next
      case (Cons kv ws)
      then obtain t where "join '','' (map print_member ms) @ CHR ''}'' # r = CHR 0x22 # t"
        by (cases kv; cases "ws = []") (auto simp: join_Cons json_quote_def)
      then have "eat (CHR ''}'') (join '','' (map print_member ms) @ CHR ''}'' # r) = None"
        by (simp add: eat_miss)
      moreover have "pmembers m (join '','' (map print_member ms) @ CHR ''}'' # r) = Some (ms, r)"
        using ok m Cons by (intro pmembers_print) simp_all
      ultimately show ?thesis by (simp add: n skip_ws_def)
    qed
  qed
qed

theorem json_roundtrip:
  assumes "json_ok v" "json_depth v \<le> max_nesting"
  shows "json_unmarshal (json_print v) = Some v"
  using printsD [OF json_ok_prints [OF assms(1)], of "2 * length (json_print v) + 2" "[]"] assms(2)
  by (simp add: json_unmarshal_def skip_ws_def)

lemma json_decode_print:
  assumes "json_ok v" "json_depth v \<le> max_nesting"
  shows "json_decode (json_print v) = Some v"
  using printsD [OF json_ok_prints [OF assms(1)], of "2 * length (json_print v) + 2" "[]"] assms(2)
  by (simp add: json_decode_def)

lemma json_decode_line:
  assumes "json_ok v" "json_depth v \<le> max_nesting"
  shows "json_decode (json_print v @ [CHR 0x0A]) = Some v"
proof -
  let ?s = "json_print v @ [CHR 0x0A]"
  have p: "pvalue (2 * length ?s + 2) ?s = Some (v, [CHR 0x0A])"
    using assms(1) by (intro printsD json_ok_prints) simp_all
  show ?thesis unfolding json_decode_def p using assms(2) by simp
qed

subsection \<open>What the reader returns is well formed\<close>

lemma utf8_len_append:
  assumes "utf8_len s = Suc k"
  shows "utf8_len (s @ t) = Suc k"
proof -
  have "take (Suc k) s @ drop (Suc k) s @ t = s @ t" by simp
  with utf8_len_take [OF assms, of "drop (Suc k) s @ t"] show ?thesis by (metis zero_less_Suc)
qed

lemma valid_utf8_append: "valid_utf8 s \<Longrightarrow> valid_utf8 t \<Longrightarrow> valid_utf8 (s @ t)"
proof (induction s rule: valid_utf8.induct)
  case (2 c s)
  show ?case
  proof (cases "utf8_len (c # s)")
    case (Suc k)
    then have "utf8_len (c # s @ t) = Suc k" using utf8_len_append [of "c # s" k t] by simp
    moreover have "k \<le> length s" using utf8_len_length [of "c # s"] Suc by simp
    ultimately show ?thesis using 2 Suc by simp
  qed (use 2 in simp)
qed simp

lemma valid_utf8_single: "code c < 0x80 \<Longrightarrow> valid_utf8 [c]"
  by (simp add: utf8_len_ascii)

lemma valid_utf8_whole: "utf8_len s = length s \<Longrightarrow> s \<noteq> [] \<Longrightarrow> valid_utf8 s"
  by (cases s) simp_all

lemma valid_rune_error: "valid_utf8 rune_error"
  by (rule valid_utf8_whole) (simp_all add: rune_error_def utf8_len_def byte_at_def)

lemma utf8_len2:
  "0xC2 \<le> code a \<Longrightarrow> code a \<le> 0xDF \<Longrightarrow> 0x80 \<le> code b \<Longrightarrow> code b \<le> 0xBF \<Longrightarrow> utf8_len [a, b] = 2"
  by (simp add: utf8_len_def byte_at_def)

lemma utf8_len3:
  assumes "0xE0 \<le> code a" "code a \<le> 0xEF" "0x80 \<le> code b" "code b \<le> 0xBF" "0x80 \<le> code c" "code c \<le> 0xBF"
    and "code a = 0xE0 \<Longrightarrow> 0xA0 \<le> code b" "code a = 0xED \<Longrightarrow> code b \<le> 0x9F"
  shows "utf8_len [a, b, c] = 3"
proof (cases "code a = 0xE0 \<or> code a = 0xED")
  case True
  then show ?thesis using assms by (elim disjE) (simp_all add: utf8_len_def byte_at_def)
next
  case False
  then have "0xE1 \<le> code a" using assms(1) by linarith
  with False show ?thesis using assms(2-6) by (simp add: utf8_len_def byte_at_def)
qed

lemma utf8_len4:
  assumes "0xF0 \<le> code a" "code a \<le> 0xF4" "0x80 \<le> code b" "code b \<le> 0xBF"
    "0x80 \<le> code c" "code c \<le> 0xBF" "0x80 \<le> code d" "code d \<le> 0xBF"
    and "code a = 0xF0 \<Longrightarrow> 0x90 \<le> code b" "code a = 0xF4 \<Longrightarrow> code b \<le> 0x8F"
  shows "utf8_len [a, b, c, d] = 4"
proof (cases "code a = 0xF0 \<or> code a = 0xF4")
  case True
  then show ?thesis using assms by (elim disjE) (simp_all add: utf8_len_def byte_at_def)
next
  case False
  then have "0xF1 \<le> code a" "code a \<le> 0xF3" using assms(1,2) by linarith+
  with False show ?thesis using assms(3-8) by (simp add: utf8_len_def byte_at_def)
qed

lemma encode_rune_valid1:
  assumes "n < 0x80" shows "valid_utf8 (encode_rune n)"
  using assms valid_utf8_single [of "char_of n"] by (simp add: encode_rune_def)

lemma encode_rune_valid2:
  assumes "0x80 \<le> n" "n < 0x800" shows "valid_utf8 (encode_rune n)"
proof -
  have e: "encode_rune n = [char_of (0xC0 + n div 64), char_of (0x80 + n mod 64)]"
    using assms by (simp add: encode_rune_def)
  have q: "2 \<le> n div 64" "n div 64 < 32" using assms by auto
  have m: "n mod 64 < 64" by simp
  have "utf8_len (encode_rune n) = 2"
    unfolding e using q m by (intro utf8_len2) simp_all
  with e show ?thesis by (intro valid_utf8_whole) simp_all
qed

lemma mod_shift_832:
  assumes "832 \<le> m" "m < 864" shows "m mod 64 < (32 :: nat)"
proof -
  have "m mod 64 = m - 832" using assms by (intro mod_nat_eqI) simp_all
  with assms show ?thesis by simp
qed

lemma encode_rune_valid3:
  assumes "0x800 \<le> n" "n < 0x10000" "\<not> (0xD800 \<le> n \<and> n < 0xE000)"
  shows "valid_utf8 (encode_rune n)"
proof -
  have e: "encode_rune n =
      [char_of (0xE0 + n div 4096), char_of (0x80 + n div 64 mod 64), char_of (0x80 + n mod 64)]"
    using assms by (simp add: encode_rune_def)
  have m: "n div 64 mod 64 < 64" "n mod 64 < 64" by simp_all
  have q: "n div 4096 < 16" using assms by auto
  have e0: "32 \<le> n div 64 mod 64" if "n div 4096 = 0"
    using that assms(1) by simp
  have ed: "n div 64 mod 64 < 32" if "n div 4096 = 13"
  proof -
    have "53248 \<le> n" "n < 57344" using that by auto
    then have "832 \<le> n div 64" "n div 64 < 864" using assms(3) by auto
    then show ?thesis by (rule mod_shift_832)
  qed
  have "utf8_len (encode_rune n) = 3"
    unfolding e using q m e0 ed by (intro utf8_len3) simp_all
  with e show ?thesis by (intro valid_utf8_whole) simp_all
qed

lemma encode_rune_valid4:
  assumes "0x10000 \<le> n" "n < 0x110000" shows "valid_utf8 (encode_rune n)"
proof -
  have e: "encode_rune n = [char_of (0xF0 + n div 262144), char_of (0x80 + n div 4096 mod 64),
      char_of (0x80 + n div 64 mod 64), char_of (0x80 + n mod 64)]"
    using assms by (simp add: encode_rune_def)
  have m: "n div 4096 mod 64 < 64" "n div 64 mod 64 < 64" "n mod 64 < 64" by simp_all
  have q: "n div 262144 \<le> 4" using assms(2) by auto
  have d: "n div 4096 = 64 * (n div 262144) + n div 4096 mod 64"
    using div_mult2_eq [of n 4096 64] by simp
  have f0: "16 \<le> n div 4096 mod 64" if "n div 262144 = 0"
    using that d assms(1) by simp
  have f4: "n div 4096 mod 64 < 16" if "n div 262144 = 4"
  proof -
    have "n div 4096 < 272" using assms(2) by auto
    with d that show ?thesis by simp
  qed
  have "utf8_len (encode_rune n) = 4"
    unfolding e using q m f0 f4 by (intro utf8_len4) simp_all
  with e show ?thesis by (intro valid_utf8_whole) simp_all
qed

lemma valid_encode_rune:
  assumes "n < 0x110000" "\<not> (0xD800 \<le> n \<and> n < 0xE000)"
  shows "valid_utf8 (encode_rune n)"
  using assms encode_rune_valid1 encode_rune_valid2 encode_rune_valid3 encode_rune_valid4
  by (meson not_le_imp_less)

lemma hex_val_bound: "hex_val c = Some d \<Longrightarrow> d < 16"
  by (auto simp: hex_val_def split: if_splits)

lemma hex4_bound: "hex4 s = Some (n, t) \<Longrightarrow> n < 0x10000"
  by (induction s rule: hex4.induct) (fastforce split: option.splits dest!: hex_val_bound)+

lemma low_surrogate_bound:
  "low_surrogate n s = Some (m, t) \<Longrightarrow> 0x10000 \<le> m \<and> (0xD800 \<le> n \<longrightarrow> m < 0x110000)"
  by (auto simp: low_surrogate_def split: if_splits option.splits)

lemma unescape_u_valid: "unescape_u s = Some (p, t) \<Longrightarrow> valid_utf8 p"
  by (auto simp: unescape_u_def valid_rune_error split: if_splits option.splits
      intro!: valid_encode_rune dest!: hex4_bound low_surrogate_bound)

lemma unescape_valid: "unescape s = Some (p, t) \<Longrightarrow> valid_utf8 p"
  by (auto simp: unescape_def utf8_len_ascii split: list.splits if_splits dest: unescape_u_valid)

lemma valid_utf8_take:
  assumes "utf8_len (c # s) = Suc k"
  shows "valid_utf8 (c # take k s)"
proof -
  have "utf8_len (c # take k s) = Suc k"
    using utf8_len_take [OF assms, of "[]"] by simp
  moreover have "k \<le> length s" using utf8_len_length [of "c # s"] assms by simp
  ultimately show ?thesis by simp
qed

lemma str_cons_valid:
  "str_cons p r = Some (x, t) \<Longrightarrow> valid_utf8 p \<Longrightarrow> (\<And>y u. r = Some (y, u) \<Longrightarrow> valid_utf8 y) \<Longrightarrow> valid_utf8 x"
  by (cases r) (auto simp: str_cons_def valid_utf8_append)

lemma parse_str_valid: "parse_str s = Some (x, t) \<Longrightarrow> valid_utf8 x"
proof (induction s arbitrary: x t rule: parse_str.induct)
  case (2 c s)
  consider "c = CHR 0x22" | "c = CHR 0x5C" "\<not> code c < 32" "c \<noteq> CHR 0x22"
    | "c \<noteq> CHR 0x22" "\<not> code c < 32" "c \<noteq> CHR 0x5C" | "code c < 32" by blast
  then show ?case
  proof cases
    case 2
    then obtain p u where u: "unescape s = Some (p, u)" "str_cons p (parse_str u) = Some (x, t)"
      using "2.prems" by (auto split: option.splits)
    from u(2) unescape_valid [OF u(1)] show ?thesis
      by (rule str_cons_valid) (use "2.IH"(1) [OF 2(3,2,1) u(1) refl] in auto)
  next
    case 3
    show ?thesis
    proof (cases "utf8_len (c # s)")
      case 0
      with 3 "2.prems" have "str_cons rune_error (parse_str s) = Some (x, t)" by simp
      then show ?thesis using valid_rune_error "2.IH"(2) [OF 3 0] by (rule str_cons_valid)
    next
      case (Suc k)
      with 3 "2.prems" have "str_cons (c # take k s) (parse_str (drop k s)) = Some (x, t)" by simp
      then show ?thesis using valid_utf8_take [OF Suc] "2.IH"(3) [OF 3 Suc] by (rule str_cons_valid)
    qed
  qed (use "2.prems" in \<open>auto split: if_splits\<close>)
qed simp

text \<open>A lexer gives the same answer when what it left is cut short.\<close>

definition lexer_cut :: "lexer \<Rightarrow> bool" where
  "lexer_cut f \<longleftrightarrow> (\<forall>s a r t. f s = Some (a, r @ t) \<longrightarrow> f (a @ r) = Some (a, r))"

lemma lexer_cutI:
  "(\<And>s a r t. f s = Some (a, r @ t) \<Longrightarrow> f (a @ r) = Some (a, r)) \<Longrightarrow> lexer_cut f"
  unfolding lexer_cut_def by blast

lemma lexer_cutD: "lexer_cut f \<Longrightarrow> f s = Some (a, r @ t) \<Longrightarrow> f (a @ r) = Some (a, r)"
  unfolding lexer_cut_def by blast

lemma lexer_cut_seq:
  assumes ok: "lexer_ok f" "lexer_ok g" and f: "lexer_cut f" and g: "lexer_cut g"
  shows "lexer_cut (lex_seq f g)"
proof (rule lexer_cutI)
  fix s a r t
  assume "lex_seq f g s = Some (a, r @ t)"
  then obtain b u c where fs: "f s = Some (b, u)" and gu: "g u = Some (c, r @ t)" and a: "a = b @ c"
    by (auto simp: lex_seq_def split: option.splits)
  have "u = (c @ r) @ t" using lexer_split [OF ok(2) gu] by simp
  then have "f (b @ c @ r) = Some (b, c @ r)" using lexer_cutD [OF f] fs by metis
  with lexer_cutD [OF g gu] a show "lex_seq f g (a @ r) = Some (a, r)" by (simp add: lex_seq_def)
qed

lemma lexer_cut_digits: "lexer_cut lex_digits"
proof (rule lexer_cutI)
  fix s a r t
  assume "lex_digits s = Some (a, r @ t)"
  then have a: "a \<noteq> []" "a = takeWhile is_digit s" and r: "r @ t = dropWhile is_digit s"
    by (auto simp: lex_digits_def split: if_splits)
  have all: "\<forall>c \<in> set a. is_digit c" using a(2) by (auto dest: set_takeWhileD)
  have "r = [] \<or> \<not> is_digit (hd r)"
    using hd_dropWhile [of is_digit s] r by (cases r) (auto simp flip: r)
  then have "takeWhile is_digit r = []" "dropWhile is_digit r = r" by (cases r; simp)+
  with all a(1) show "lex_digits (a @ r) = Some (a, r)"
    by (simp add: lex_digits_def takeWhile_append2 dropWhile_append2)
qed

lemma lexer_cut_opt: "lexer_cut (lex_opt cs)"
proof (rule lexer_cutI)
  fix s a r t
  assume "lex_opt cs s = Some (a, r @ t)"
  then show "lex_opt cs (a @ r) = Some (a, r)"
    by (cases r) (auto simp: lex_opt_def split: list.splits if_splits)
qed

lemma lexer_cut_int: "lexer_cut lex_int"
proof (rule lexer_cutI)
  fix s a r t
  assume l: "lex_int s = Some (a, r @ t)"
  then obtain c u where s: "s = c # u" by (cases s) auto
  show "lex_int (a @ r) = Some (a, r)"
  proof (cases "c = CHR ''0''")
    case False
    with l s have d: "lex_digits s = Some (a, r @ t)" by (simp add: lex_int_def)
    then have "a \<noteq> []" "hd a = c" using s by (auto simp: lex_digits_def split: if_splits)
    with lexer_cutD [OF lexer_cut_digits d] False show ?thesis by (cases a) (auto simp: lex_int_def)
  qed (use l s in \<open>auto simp: lex_int_def\<close>)
qed

lemma lexer_cut_tail:
  assumes f: "lexer_cut f"
  shows "lexer_cut (lex_tail cs f)"
proof (rule lexer_cutI)
  fix s a r t
  assume l: "lex_tail cs f s = Some (a, r @ t)"
  then show "lex_tail cs f (a @ r) = Some (a, r)"
    using lexer_cutD [OF f, of _ _ r t] lexer_cutD [OF f, of _ _ "[]" t]
    by (cases s; cases r) (auto simp: lex_tail_def split: if_splits)
qed

lemma lexer_cut_number: "lexer_cut lex_number"
  unfolding lex_number_def
  by (intro lexer_cut_seq lexer_cut_opt lexer_cut_int lexer_cut_tail lexer_cut_digits
      lexer_ok_seq lexer_ok_opt lexer_ok_int lexer_ok_tail lexer_ok_digits) auto

lemma lex_number_is_number: "lex_number s = Some (l, r) \<Longrightarrow> is_number l"
  using lexer_cutD [OF lexer_cut_number, of s l "[]" r] by (simp add: is_number_def)

lemma pscalar_ok: "pscalar s = Some (v, r) \<Longrightarrow> json_ok v"
  by (auto simp: pscalar_def split: if_splits dest: lex_number_is_number)

lemma parser_ok:
  "pvalue n s = Some (v, r) \<Longrightarrow> json_ok v"
  "pelems n s = Some (vs, r) \<Longrightarrow> Ball (set vs) json_ok"
  "pmembers n s = Some (ms, r) \<Longrightarrow> (\<forall>(k, v) \<in> set ms. valid_utf8 k \<and> json_ok v)"
proof (induction n arbitrary: s v vs ms r)
  case (Suc n)
  {
    case 1
    then show ?case
      by (auto split: list.splits if_splits option.splits
          dest!: parse_str_valid pscalar_ok Suc.IH(2,3))
  next
    case 2
    then show ?case
      by (auto split: option.splits dest!: Suc.IH(1,2))
  next
    case 3
    then show ?case
      by (auto split: option.splits Option.bind_splits dest!: parse_str_valid Suc.IH(1,3))
         fastforce+
  }
qed simp_all

lemma json_unmarshal_ok: "json_unmarshal s = Some v \<Longrightarrow> json_ok v \<and> json_depth v \<le> max_nesting"
  unfolding json_unmarshal_def by (auto split: option.splits if_splits dest: parser_ok(1) simp del: pvalue.simps)

subsection \<open>What a value leaves is the end of the text\<close>

lemmas suffix_trans = suffix_order.trans

lemma hex4_suffix: "hex4 s = Some (n, t) \<Longrightarrow> suffix t s"
  by (induction s rule: hex4.induct) (auto split: option.splits simp: suffix_Cons)

lemma low_surrogate_suffix: "low_surrogate n s = Some (m, t) \<Longrightarrow> suffix t s"
  by (auto simp: low_surrogate_def split: if_splits option.splits dest!: hex4_suffix)
     (metis suffix_drop suffix_order.trans)+

lemma unescape_u_suffix: "unescape_u s = Some (p, t) \<Longrightarrow> suffix t s"
  by (auto simp: unescape_u_def split: if_splits option.splits
      dest!: hex4_suffix low_surrogate_suffix intro: suffix_order.trans)

lemma unescape_suffix: "unescape s = Some (p, t) \<Longrightarrow> suffix t s"
  by (auto simp: unescape_def suffix_Cons split: if_splits list.splits dest!: unescape_u_suffix)

lemma parse_str_suffix: "parse_str s = Some (x, t) \<Longrightarrow> suffix t s"
proof (induction s arbitrary: x t rule: parse_str.induct)
  case (2 c s)
  have drop: "suffix u (drop k s) \<Longrightarrow> suffix u (c # s)" for u k
    by (metis suffix_ConsI suffix_drop suffix_order.trans)
  from 2 show ?case
    by (auto simp: str_cons_def suffix_Cons split: if_splits option.splits nat.splits dest!: unescape_suffix)
       (metis drop suffix_Cons suffix_order.trans)+
qed simp

lemma skip_ws_suffix: "suffix (skip_ws s) s"
  by (simp add: skip_ws_def suffix_dropWhile)

lemma eat_suffix: "eat c s = Some r \<Longrightarrow> suffix (c # r) s"
  using skip_ws_suffix [of s] by (auto simp: eat_def split: list.splits if_splits)

lemma eat_suffix_rest: "eat c s = Some r \<Longrightarrow> suffix r s"
  using eat_suffix suffix_ConsD by fastforce

lemma pscalar_suffix: "pscalar s = Some (v, r) \<Longrightarrow> suffix r s"
  using lexer_split [OF lexer_ok_number]
  by (auto simp: pscalar_def suffix_drop suffix_def split: if_splits) (metis append_take_drop_id)+

lemma parser_suffix:
  "pvalue n s = Some (v, r) \<Longrightarrow> suffix r s"
  "pelems n s = Some (vs, r) \<Longrightarrow> suffix r s"
  "pmembers n s = Some (ms, r) \<Longrightarrow> suffix (CHR ''}'' # r) s"
proof (induction n arbitrary: s v vs ms r)
  case (Suc n)
  {
    case 1
    have "suffix (skip_ws s) s" by (rule skip_ws_suffix)
    with 1 show ?case
      by (auto split: list.splits if_splits option.splits
          dest!: parse_str_suffix eat_suffix_rest pscalar_suffix Suc.IH dest: suffix_ConsD
          intro: suffix_trans)
  next
    case 2
    then show ?case
      by (auto split: option.splits dest!: eat_suffix_rest Suc.IH intro: suffix_trans)
  next
    case 3
    then obtain k u r1 v r2 where "eat (CHR 0x22) s = Some u" "parse_str u = Some (k, r1)"
      and "Option.bind (eat (CHR '':'') r1) (pvalue n) = Some (v, r2)"
      and e: "(case eat (CHR '','') r2 of
          Some r3 \<Rightarrow> map_option (apfst (Cons (k, v))) (pmembers n r3)
        | None \<Rightarrow> map_option (\<lambda>r3. ([(k, v)], r3)) (eat (CHR ''}'') r2)) = Some (ms, r)"
      by (auto split: option.splits Option.bind_splits)
    then have "suffix u s" "suffix r1 u" "suffix r2 r1"
      by (auto split: Option.bind_splits dest!: parse_str_suffix eat_suffix_rest Suc.IH(1)
          intro: suffix_trans)
    moreover have "suffix (CHR ''}'' # r) r2"
      using e by (auto split: option.splits dest!: Suc.IH(3) eat_suffix dest: suffix_ConsD intro: suffix_trans)
    ultimately show ?case by (blast intro: suffix_trans)
  }
qed simp_all

lemma pvalue_object_ends: "pvalue n s = Some (JObj ms, r) \<Longrightarrow> suffix (CHR ''}'' # r) s"
proof (induction n)
  case (Suc n)
  obtain c t where s: "skip_ws s = c # t"
    using Suc.prems by (cases "skip_ws s") auto
  have "suffix t s" using skip_ws_suffix [of s] by (simp add: s suffix_ConsD)
  moreover have "suffix (CHR ''}'' # r) t"
    using Suc.prems s
    by (auto simp: pscalar_def split: if_splits option.splits dest!: eat_suffix parser_suffix(3))
  ultimately show ?case by (rule suffix_trans [rotated])
qed simp

text \<open>A document that is an object ends, up to white space, with a brace.\<close>

lemma json_object_ends:
  assumes "json_unmarshal (a @ [c]) = Some (JObj ms)" and "\<not> is_json_ws c"
  shows "c = CHR ''}''"
proof -
  obtain r where r: "pvalue (2 * length (a @ [c]) + 2) (a @ [c]) = Some (JObj ms, r)" "skip_ws r = []"
    using assms(1) by (auto simp: json_unmarshal_def split: option.splits if_splits prod.splits)
  from pvalue_object_ends [OF r(1)] obtain b where b: "a @ [c] = b @ CHR ''}'' # r"
    by (auto simp: suffix_def)
  show ?thesis
  proof (cases r rule: rev_cases)
    case Nil
    with b show ?thesis by simp
  next
    case (snoc r' d)
    with b have "d = c" by simp
    moreover have "is_json_ws d" using r(2) snoc by (simp add: skip_ws_def dropWhile_eq_Nil_conv)
    ultimately show ?thesis using assms(2) by simp
  qed
qed

end
