(* ===== verification/GoCodec.thy ===== *)
theory GoCodec
  imports GoJson
begin

section \<open>Reading and writing Go values as JSON\<close>

text \<open>
  \<open>json.Unmarshal\<close> into a typed value, as the program uses it. A decoder takes the document and
  the value already there and returns whether every part fitted, with the new value: like
  \<open>encoding/json\<close> it goes on after a mismatch and reports it at the end, \<open>null\<close> leaves a scalar
  as it is, struct fields are found by name and then by name up to case, unknown fields are
  skipped and a repeated key is decoded again over the earlier value. In a value of type
  \<open>any\<close> a number is a \<open>float64\<close>: \<open>ft l\<close> is the text Go prints for the number read from
  the literal \<open>l\<close>, \<open>None\<close> when it is out of range. \<open>marshal\<close> prints maps with sorted keys.
  \<open>dec_struct_omit_str\<close> and its companions run a struct decoder over the fields that the
  encoder of the same struct writes; the storage theory uses them for every JSON column.
\<close>

type_synonym 'a dec = "json \<Rightarrow> 'a \<Rightarrow> bool \<times> 'a"
type_synonym float_text = "string \<Rightarrow> string option"

definition unmarshal :: "'a dec \<Rightarrow> string \<Rightarrow> 'a \<Rightarrow> bool \<times> 'a" where
  "unmarshal d s x = (case json_unmarshal s of None \<Rightarrow> (False, x) | Some v \<Rightarrow> d v x)"

definition decode_body :: "'a dec \<Rightarrow> string \<Rightarrow> 'a \<Rightarrow> bool \<times> 'a" where
  "decode_body d s x = (case json_decode s of None \<Rightarrow> (False, x) | Some v \<Rightarrow> d v x)"

subsection \<open>Decoders\<close>

definition dec_string :: "string dec" where
  "dec_string v x = (case v of JStr s \<Rightarrow> (True, s) | JNull \<Rightarrow> (True, x) | _ \<Rightarrow> (False, x))"

definition dec_bool :: "bool dec" where
  "dec_bool v x = (case v of JBool b \<Rightarrow> (True, b) | JNull \<Rightarrow> (True, x) | _ \<Rightarrow> (False, x))"

definition dec_num :: "int dec" where
  "dec_num v x =
     (case v of
        JNum l \<Rightarrow> (case parse_int l of Some n \<Rightarrow> (True, n) | None \<Rightarrow> (False, x))
      | JNull \<Rightarrow> (True, x)
      | _ \<Rightarrow> (False, x))"

definition put_entry :: "'v dec \<Rightarrow> 'v \<Rightarrow> bool \<times> (string \<times> 'v) list \<Rightarrow> string \<times> json \<Rightarrow>
    bool \<times> (string \<times> 'v) list" where
  "put_entry d z acc kv =
     (case d (snd kv) z of (b, x) \<Rightarrow> (fst acc \<and> b, AList.update (fst kv) x (snd acc)))"

definition dec_gomap :: "'v dec \<Rightarrow> 'v \<Rightarrow> 'v gomap dec" where
  "dec_gomap d z v m =
     (case v of
        JObj ms \<Rightarrow> apsnd Some (foldl (put_entry d z) (True, entries m) ms)
      | JNull \<Rightarrow> (True, None)
      | _ \<Rightarrow> (False, m))"

definition dec_slice :: "'a dec \<Rightarrow> 'a \<Rightarrow> 'a goslice dec" where
  "dec_slice d z v m =
     (case v of
        JArr vs \<Rightarrow> (list_all (\<lambda>v. fst (d v z)) vs, Some (map (\<lambda>v. snd (d v z)) vs))
      | JNull \<Rightarrow> (True, None)
      | _ \<Rightarrow> (False, m))"

definition dec_ptr :: "'a dec \<Rightarrow> 'a \<Rightarrow> 'a option dec" where
  "dec_ptr d z v p =
     (case v of
        JNull \<Rightarrow> (True, None)
      | _ \<Rightarrow> apsnd Some (d v (case p of None \<Rightarrow> z | Some x \<Rightarrow> x)))"

text \<open>
  A JSON object that becomes a Go map inside an \<open>any\<close>: the last of equal keys wins. Such a
  map is never ranged over by the program, so it is kept sorted by key.
\<close>

definition last_wins :: "(string \<times> 'v) list \<Rightarrow> (string \<times> 'v) list" where
  "last_wins ms = sort_key fst (foldl (\<lambda>m kv. AList.update (fst kv) (snd kv) m) [] ms)"

fun to_any :: "float_text \<Rightarrow> json \<Rightarrow> bool \<times> json" where
  "to_any ft (JNum l) = (case ft l of None \<Rightarrow> (False, JNull) | Some t \<Rightarrow> (True, JNum t))"
| "to_any ft (JArr vs) =
     (list_all (\<lambda>v. fst (to_any ft v)) vs, JArr (map (\<lambda>v. snd (to_any ft v)) vs))"
| "to_any ft (JObj ms) =
     (list_all (\<lambda>(k, v). fst (to_any ft v)) ms,
      JObj (last_wins (map (\<lambda>(k, v). (k, snd (to_any ft v))) ms)))"
| "to_any ft v = (True, v)"

definition dec_any :: "float_text \<Rightarrow> json dec" where
  "dec_any ft v x = to_any ft v"

definition dec_map_any :: "float_text \<Rightarrow> json gomap dec" where
  "dec_map_any ft = dec_gomap (dec_any ft) JNull"

subsection \<open>Structs\<close>

type_synonym 'a fields = "(string \<times> 'a dec) list"

definition find_field :: "'a fields \<Rightarrow> string \<Rightarrow> 'a dec option" where
  "find_field fs k =
     (case map_of fs k of
        Some f \<Rightarrow> Some f
      | None \<Rightarrow> map_option snd (find (\<lambda>f. equal_fold (fst f) k) fs))"

definition dec_member :: "'a fields \<Rightarrow> bool \<times> 'a \<Rightarrow> string \<times> json \<Rightarrow> bool \<times> 'a" where
  "dec_member fs acc kv =
     (case find_field fs (fst kv) of
        None \<Rightarrow> acc
      | Some f \<Rightarrow> (case f (snd kv) (snd acc) of (b, x) \<Rightarrow> (fst acc \<and> b, x)))"

definition dec_struct :: "'a fields \<Rightarrow> 'a dec" where
  "dec_struct fs v x =
     (case v of
        JObj ms \<Rightarrow> foldl (dec_member fs) (True, x) ms
      | JNull \<Rightarrow> (True, x)
      | _ \<Rightarrow> (False, x))"

definition at_field :: "'b dec \<Rightarrow> ('a \<Rightarrow> 'b) \<Rightarrow> (('b \<Rightarrow> 'b) \<Rightarrow> 'a \<Rightarrow> 'a) \<Rightarrow> 'a dec" where
  "at_field d get upd v x = (case d v (get x) of (b, y) \<Rightarrow> (b, upd (\<lambda>_. y) x))"

subsection \<open>Encoders\<close>

fun sort_keys :: "json \<Rightarrow> json" where
  "sort_keys (JArr vs) = JArr (map sort_keys vs)"
| "sort_keys (JObj ms) = JObj (sort_key fst (map (\<lambda>(k, v). (k, sort_keys v)) ms))"
| "sort_keys v = v"

definition enc_gomap :: "('v \<Rightarrow> json) \<Rightarrow> 'v gomap \<Rightarrow> json" where
  "enc_gomap e m =
     (case m of None \<Rightarrow> JNull | Some l \<Rightarrow> JObj (sort_key fst (map (\<lambda>(k, v). (k, e v)) l)))"

definition enc_slice :: "('a \<Rightarrow> json) \<Rightarrow> 'a goslice \<Rightarrow> json" where
  "enc_slice e m = (case m of None \<Rightarrow> JNull | Some l \<Rightarrow> JArr (map e l))"

definition enc_ptr :: "('a \<Rightarrow> json) \<Rightarrow> 'a option \<Rightarrow> json" where
  "enc_ptr e p = (case p of None \<Rightarrow> JNull | Some x \<Rightarrow> e x)"

definition enc_map_any :: "json gomap \<Rightarrow> json" where
  "enc_map_any = enc_gomap sort_keys"

definition enc_num :: "int \<Rightarrow> json" where
  "enc_num n = JNum (dec_int n)"

definition omit_str :: "string \<Rightarrow> string \<Rightarrow> (string \<times> json) list" where
  "omit_str k s = (if s = [] then [] else [(k, JStr s)])"

definition omit_num :: "string \<Rightarrow> int \<Rightarrow> (string \<times> json) list" where
  "omit_num k n = (if n = 0 then [] else [(k, enc_num n)])"

definition omit_bool :: "string \<Rightarrow> bool \<Rightarrow> (string \<times> json) list" where
  "omit_bool k b = (if b then [(k, JBool True)] else [])"

definition omit_gomap :: "('v \<Rightarrow> json) \<Rightarrow> string \<Rightarrow> 'v gomap \<Rightarrow> (string \<times> json) list" where
  "omit_gomap e k m = (if entries m = [] then [] else [(k, enc_gomap e m)])"

definition omit_slice :: "('v \<Rightarrow> json) \<Rightarrow> string \<Rightarrow> 'v goslice \<Rightarrow> (string \<times> json) list" where
  "omit_slice e k m = (if entries m = [] then [] else [(k, enc_slice e m)])"

definition omit_ptr :: "('v \<Rightarrow> json) \<Rightarrow> string \<Rightarrow> 'v option \<Rightarrow> (string \<times> json) list" where
  "omit_ptr e k p = (case p of None \<Rightarrow> [] | Some x \<Rightarrow> [(k, e x)])"

lemmas omit_defs = omit_str_def omit_num_def omit_bool_def omit_gomap_def omit_slice_def omit_ptr_def

subsection \<open>What a printed number reads as\<close>

lemma lex_digits_all: "list_all is_digit s \<Longrightarrow> s \<noteq> [] \<Longrightarrow> lex_digits s = Some (s, [])"
  by (cases s) (auto simp: lex_digits_def list_all_iff)

lemma dec_nat_head_nonzero: "0 < n \<Longrightarrow> hd (dec_nat n) \<noteq> CHR ''0''"
proof (induction n rule: dec_nat.induct)
  case (1 n)
  show ?case
  proof (cases "n < 10")
    case True
    have "(of_char (CHR ''0'') :: nat) = 48" by simp
    with 1 True of_digit_char [of n] have "digit_char n \<noteq> CHR ''0''" by force
    then show ?thesis using True by (subst dec_nat.simps) simp
  next
    case False
    with 1 show ?thesis by (subst dec_nat.simps) (simp add: hd_append)
  qed
qed

lemma dec_nat_zero: "dec_nat 0 = ''0''"
  by (simp add: dec_nat.simps digit_char_def char_of_eq_iff)

lemma lex_int_dec_nat: "lex_int (dec_nat n) = Some (dec_nat n, [])"
proof (cases "n = 0")
  case True
  then show ?thesis by (simp add: dec_nat_zero lex_int_def)
next
  case False
  then have "hd (dec_nat n) \<noteq> CHR ''0''" by (simp add: dec_nat_head_nonzero)
  then show ?thesis using lex_digits_all [OF dec_nat_all_digits, of n]
    by (cases "dec_nat n") (simp_all add: lex_int_def)
qed

lemma dec_nat_no_sign: "\<exists>c t. dec_nat n = c # t \<and> c \<noteq> CHR ''-''"
proof -
  obtain c t where "dec_nat n = c # t" by (cases "dec_nat n") simp_all
  with dec_nat_digits [of c n] is_digit_not_sign show ?thesis by auto
qed

lemma is_number_dec_int [simp]: "is_number (dec_int n)"
proof -
  have "lex_seq (lex_opt ''-'') lex_int (dec_int n) = Some (dec_int n, [])"
  proof (cases "n < 0")
    case True
    then show ?thesis using lex_int_dec_nat [of "nat (- n)"]
      by (simp add: dec_int_def lex_seq_def lex_opt_def)
  next
    case False
    obtain c t where "dec_nat (nat n) = c # t" "c \<noteq> CHR ''-''" using dec_nat_no_sign by blast
    then show ?thesis using False lex_int_dec_nat [of "nat n"]
      by (simp add: dec_int_def lex_seq_def lex_opt_def)
  qed
  then show ?thesis
    by (auto simp: is_number_def lex_number_def lex_seq_def lex_tail_def split: option.splits)
qed

definition is_int64 :: "int \<Rightarrow> bool" where
  "is_int64 n = (int64_min \<le> n \<and> n \<le> int64_max)"

lemma dec_num_enc [simp]: "is_int64 n \<Longrightarrow> dec_num (enc_num n) x = (True, n)"
  by (simp add: dec_num_def enc_num_def is_int64_def parse_int_dec_int)

lemma json_ok_enc_num [simp]: "json_ok (enc_num n)" "json_depth (enc_num n) = 0"
  by (simp_all add: enc_num_def)

lemma dec_scalar_simps [simp]:
  "dec_string (JStr s) x = (True, s)" "dec_bool (JBool b) c = (True, b)"
  "dec_string JNull x = (True, x)" "dec_bool JNull c = (True, c)" "dec_num JNull n = (True, n)"
  by (simp_all add: dec_string_def dec_bool_def dec_num_def)

subsection \<open>Maps\<close>

lemma AList_update_new: "k \<notin> fst ` set m \<Longrightarrow> AList.update k v m = m @ [(k, v)]"
  by (induction m) auto

lemma last_wins_distinct_aux:
  "distinct (map fst (m @ ms)) \<Longrightarrow> foldl (\<lambda>m kv. AList.update (fst kv) (snd kv) m) m ms = m @ ms"
proof (induction ms arbitrary: m)
  case (Cons kv ms)
  have "AList.update (fst kv) (snd kv) m = m @ [kv]"
    using Cons.prems AList_update_new [of "fst kv" m "snd kv"] by force
  moreover have "distinct (map fst ((m @ [kv]) @ ms))" using Cons.prems by simp
  ultimately show ?case using Cons.IH [of "m @ [kv]"] by simp
qed simp

lemma last_wins_distinct: "sorted (map fst ms) \<Longrightarrow> distinct (map fst ms) \<Longrightarrow> last_wins ms = ms"
  using last_wins_distinct_aux [of "[]" ms] by (simp add: last_wins_def sort_key_id_if_sorted)

lemma last_wins_keys: "distinct (map fst m) \<Longrightarrow>
  distinct (map fst (foldl (\<lambda>m kv. AList.update (fst kv) (snd kv) m) m ms))"
  by (induction ms arbitrary: m) simp_all

lemma distinct_keys_sort: "distinct (map fst (sort_key f l)) = distinct (map fst l)"
  by (simp add: distinct_map)

lemma map_of_sort: "distinct (map fst l) \<Longrightarrow> map_of (sort_key f l) k = map_of l k"
  by (metis distinct_keys_sort map_of_inject_set set_sort)

lemma last_wins_distinct_keys [simp]: "distinct (map fst (last_wins ms))"
  by (simp add: last_wins_def distinct_keys_sort last_wins_keys)

lemma last_wins_sorted [simp]: "sorted (map fst (last_wins ms))"
  by (simp add: last_wins_def)

lemma map_of_last_wins_aux:
  "map_of (foldl (\<lambda>m kv. AList.update (fst kv) (snd kv) m) m ms) k =
   (case map_of (rev ms) k of None \<Rightarrow> map_of m k | Some v \<Rightarrow> Some v)"
  by (induction ms arbitrary: m)
     (auto simp: update_conv map_add_def split: option.splits)

lemma map_of_last_wins: "map_of (last_wins ms) k = map_of (rev ms) k"
  by (simp add: last_wins_def map_of_sort last_wins_keys map_of_last_wins_aux split: option.split)

text \<open>A map in the form that printing and reading back leave it: distinct keys, sorted, UTF-8.\<close>

definition map_ok :: "('v \<Rightarrow> bool) \<Rightarrow> (string \<times> 'v) list \<Rightarrow> bool" where
  "map_ok P l = (sorted (map fst l) \<and> distinct (map fst l) \<and> (\<forall>(k, v) \<in> set l. valid_utf8 k \<and> P v))"

lemma put_entries:
  assumes "\<And>v. P v \<Longrightarrow> d (e v) z = (True, v)"
  shows "distinct (map fst (m @ l)) \<Longrightarrow> (\<forall>(k, v) \<in> set l. P v) \<Longrightarrow>
    foldl (put_entry d z) (True, m) (map (\<lambda>(k, v). (k, e v)) l) = (True, m @ l)"
proof (induction l arbitrary: m)
  case (Cons kv l)
  obtain k v where kv: "kv = (k, v)" by (cases kv)
  have "k \<notin> fst ` set m" using Cons.prems(1) kv by auto
  then have "put_entry d z (True, m) (k, e v) = (True, m @ [kv])"
    using assms [of v] Cons.prems(2) kv AList_update_new [of k m v] by (simp add: put_entry_def)
  moreover have "distinct (map fst ((m @ [kv]) @ l))" using Cons.prems(1) by simp
  ultimately show ?case using Cons.IH [of "m @ [kv]"] Cons.prems(2) kv by simp
qed simp

lemma dec_gomap_enc:
  assumes "\<And>v. P v \<Longrightarrow> d (e v) z = (True, v)" and "map_ok P l"
  shows "dec_gomap d z (enc_gomap e (Some l)) None = (True, Some l)"
proof -
  have "sorted (map fst (map (\<lambda>(k, v). (k, e v)) l))"
    using assms(2) by (simp add: map_ok_def case_prod_unfold comp_def)
  then have "enc_gomap e (Some l) = JObj (map (\<lambda>(k, v). (k, e v)) l)"
    by (simp add: enc_gomap_def sort_key_id_if_sorted)
  moreover have "\<forall>(k, v) \<in> set l. P v" using assms(2) by (auto simp: map_ok_def)
  ultimately show ?thesis
    using put_entries [where P = P and d = d and e = e and z = z and m = "[]" and l = l] assms
    by (simp add: dec_gomap_def map_ok_def)
qed

lemma foldr_max_le: "foldr max (map f l) 0 \<le> (n :: nat) \<longleftrightarrow> (\<forall>x \<in> set l. f x \<le> n)"
  by (induction l) auto

lemma json_ok_gomap:
  assumes "map_ok P l" and "\<And>v. P v \<Longrightarrow> json_ok (e v) \<and> json_depth (e v) \<le> n"
  shows "json_ok (enc_gomap e (Some l)) \<and> json_depth (enc_gomap e (Some l)) \<le> Suc n"
  using assms by (auto simp: enc_gomap_def map_ok_def foldr_max_le)

subsection \<open>Values of type \<open>any\<close>\<close>

fun any_ok :: "float_text \<Rightarrow> json \<Rightarrow> bool" where
  "any_ok ft (JNum l) = (is_number l \<and> ft l = Some l)"
| "any_ok ft (JStr s) = valid_utf8 s"
| "any_ok ft (JArr vs) = (\<forall>v \<in> set vs. any_ok ft v)"
| "any_ok ft (JObj ms) =
     (sorted (map fst ms) \<and> distinct (map fst ms) \<and> (\<forall>(k, v) \<in> set ms. valid_utf8 k \<and> any_ok ft v))"
| "any_ok ft _ = True"

lemma any_ok_json_ok: "any_ok ft v \<Longrightarrow> json_ok v"
  by (induction v) (auto 4 4 simp: snds.simps)

lemma any_ok_to_any: "any_ok ft v \<Longrightarrow> to_any ft v = (True, v)"
proof (induction v)
  case (JArr vs)
  then show ?case by (auto simp: list_all_iff intro: map_idI)
next
  case (JObj ms)
  then have ih: "\<forall>(k, v) \<in> set ms. to_any ft v = (True, v)" by (auto 4 4 simp: snds.simps)
  then have "map (\<lambda>(k, v). (k, snd (to_any ft v))) ms = ms" by (auto intro!: map_idI)
  with ih JObj.prems show ?case by (auto simp: list_all_iff last_wins_distinct)
qed simp_all

lemma any_ok_sort_keys: "any_ok ft v \<Longrightarrow> sort_keys v = v"
proof (induction v)
  case (JObj ms)
  then have "\<forall>(k, v) \<in> set ms. sort_keys v = v" by (auto 4 4 simp: snds.simps)
  then have "map (\<lambda>(k, v). (k, sort_keys v)) ms = ms" by (auto intro!: map_idI)
  with JObj.prems show ?case by (simp add: sort_key_id_if_sorted)
qed (auto intro: map_idI)

lemma dec_any_sort: "any_ok ft v \<Longrightarrow> dec_any ft (sort_keys v) z = (True, v)"
  by (simp add: dec_any_def any_ok_sort_keys any_ok_to_any)

subsection \<open>Running a struct decoder\<close>

lemma find_field_hd [simp]: "find_field ((k, f) # fs) k = Some f"
  by (simp add: find_field_def)

lemma find_field_map_of: "map_of fs k = Some f \<Longrightarrow> find_field fs k = Some f"
  by (simp add: find_field_def)

lemma dec_member_field:
  "map_of fs k = Some (at_field d get upd) \<Longrightarrow> d v (get st) = (True, x) \<Longrightarrow>
   dec_member fs (True, st) (k, v) = (True, upd (\<lambda>_. x) st)"
  by (simp add: dec_member_def find_field_map_of at_field_def)

lemma fold_omit_str:
  assumes "map_of fs k = Some (at_field dec_string get upd)" "upd (\<lambda>_. []) st = st"
  shows "foldl (dec_member fs) (True, st) (omit_str k s) = (True, upd (\<lambda>_. s) st)"
  using assms dec_member_field [OF assms(1), of "JStr s" st s] by (cases "s = []") (simp_all add: omit_str_def)

lemma fold_omit_num:
  assumes "map_of fs k = Some (at_field dec_num get upd)" "upd (\<lambda>_. 0) st = st" "is_int64 n"
  shows "foldl (dec_member fs) (True, st) (omit_num k n) = (True, upd (\<lambda>_. n) st)"
  using assms dec_member_field [OF assms(1), of "enc_num n" st n] by (cases "n = 0") (simp_all add: omit_num_def)

lemma fold_omit_bool:
  assumes "map_of fs k = Some (at_field dec_bool get upd)" "upd (\<lambda>_. False) st = st"
  shows "foldl (dec_member fs) (True, st) (omit_bool k b) = (True, upd (\<lambda>_. b) st)"
  using assms dec_member_field [OF assms(1), of "JBool b" st b] by (cases b) (simp_all add: omit_bool_def)

lemma dec_member_str:
  "map_of fs k = Some (at_field dec_string get upd) \<Longrightarrow>
   dec_member fs (True, st) (k, JStr s) = (True, upd (\<lambda>_. s) st)"
  by (simp add: dec_member_def find_field_map_of at_field_def)

lemma dec_member_bool:
  "map_of fs k = Some (at_field dec_bool get upd) \<Longrightarrow>
   dec_member fs (True, st) (k, JBool b) = (True, upd (\<lambda>_. b) st)"
  by (simp add: dec_member_def find_field_map_of at_field_def)

text \<open>An optional map that \<open>omitempty\<close> brings back as it was: absent, or not empty.\<close>

definition omap_ok :: "('v \<Rightarrow> bool) \<Rightarrow> 'v gomap \<Rightarrow> bool" where
  "omap_ok P m = (case m of None \<Rightarrow> True | Some l \<Rightarrow> l \<noteq> [] \<and> map_ok P l)"

lemma fold_omit_gomap:
  assumes "map_of fs k = Some (at_field (dec_gomap d z) get upd)" "upd (\<lambda>_. None) st = st" "get st = None"
    and "\<And>v. P v \<Longrightarrow> d (e v) z = (True, v)" and "omap_ok P m"
  shows "foldl (dec_member fs) (True, st) (omit_gomap e k m) = (True, upd (\<lambda>_. m) st)"
proof (cases m)
  case (Some l)
  with assms(5) have l: "l \<noteq> []" "map_ok P l" by (simp_all add: omap_ok_def)
  then have "dec_gomap d z (enc_gomap e m) (get st) = (True, m)"
    using dec_gomap_enc [of P d e z l] assms(3,4) Some by simp
  with l(1) Some dec_member_field [OF assms(1), of "enc_gomap e m" st m] show ?thesis
    by (simp add: omit_gomap_def)
qed (use assms in \<open>simp add: omit_gomap_def\<close>)

lemma fold_omit_strings:
  assumes "map_of fs k = Some (at_field (dec_gomap dec_string z) get upd)" "upd (\<lambda>_. None) st = st"
    "get st = None" "omap_ok valid_utf8 m"
  shows "foldl (dec_member fs) (True, st) (omit_gomap JStr k m) = (True, upd (\<lambda>_. m) st)"
  using fold_omit_gomap [OF assms(1-3), where P = valid_utf8] assms(4) by simp

lemma fold_omit_map_any:
  assumes "map_of fs k = Some (at_field (dec_map_any ft) get upd)" "upd (\<lambda>_. None) st = st"
    "get st = None" "omap_ok (any_ok ft) m"
  shows "foldl (dec_member fs) (True, st) (omit_gomap sort_keys k m) = (True, upd (\<lambda>_. m) st)"
  using fold_omit_gomap [OF assms(1) [unfolded dec_map_any_def] assms(2,3), where P = "any_ok ft"]
    assms(4) by (simp add: dec_any_sort)

lemmas fold_members =
  fold_omit_str fold_omit_num fold_omit_bool fold_omit_strings fold_omit_map_any
  dec_member_str dec_member_bool

text \<open>The members of a document that the reader accepts, each of depth at most \<open>n\<close>.\<close>

definition members_ok :: "nat \<Rightarrow> (string \<times> json) list \<Rightarrow> bool" where
  "members_ok n ms = (\<forall>(k, v) \<in> set ms. valid_utf8 k \<and> json_ok v \<and> json_depth v \<le> n)"

lemma valid_utf8_literal: "list_all (\<lambda>c. code c < 0x80) s \<Longrightarrow> valid_utf8 s"
  by (simp add: list_all_iff valid_utf8_ascii)

declare valid_utf8.simps(2) [simp del]

lemma members_ok_obj: "members_ok n ms \<Longrightarrow> json_ok (JObj ms) \<and> json_depth (JObj ms) \<le> Suc n"
  by (auto simp: members_ok_def foldr_max_le)

lemma members_ok_simps [simp]:
  "members_ok n []"
  "members_ok n ((k, v) # ms) \<longleftrightarrow> valid_utf8 k \<and> json_ok v \<and> json_depth v \<le> n \<and> members_ok n ms"
  "members_ok n (ms @ ms') \<longleftrightarrow> members_ok n ms \<and> members_ok n ms'"
  by (auto simp: members_ok_def)

lemma members_ok_omit:
  "valid_utf8 k \<Longrightarrow> valid_utf8 s \<Longrightarrow> members_ok n (omit_str k s)"
  "valid_utf8 k \<Longrightarrow> members_ok n (omit_num k i)"
  "valid_utf8 k \<Longrightarrow> members_ok n (omit_bool k b)"
  by (simp_all add: omit_defs)

lemma enc_strings_ok:
  "omap_ok valid_utf8 m \<Longrightarrow> entries m \<noteq> [] \<Longrightarrow>
   json_ok (enc_gomap JStr m) \<and> json_depth (enc_gomap JStr m) \<le> 1"
  using json_ok_gomap [of valid_utf8 _ JStr 0] by (cases m) (auto simp: omap_ok_def)

lemma members_ok_strings:
  "valid_utf8 k \<Longrightarrow> omap_ok valid_utf8 m \<Longrightarrow> 0 < n \<Longrightarrow> members_ok n (omit_gomap JStr k m)"
  using enc_strings_ok [of m] by (auto simp: omit_gomap_def)

definition map_depth :: "json gomap \<Rightarrow> nat" where
  "map_depth m = json_depth (JObj (entries m))"

lemma sort_keys_entries: "map_ok (any_ok ft) l \<Longrightarrow> enc_map_any (Some l) = JObj l"
proof -
  assume ok: "map_ok (any_ok ft) l"
  then have "map (\<lambda>(k, v). (k, sort_keys v)) l = l"
    by (intro map_idI) (auto simp: map_ok_def any_ok_sort_keys)
  with ok show ?thesis
    by (simp add: enc_map_any_def enc_gomap_def map_ok_def sort_key_id_if_sorted)
qed

lemma enc_map_any_None [simp]: "enc_map_any None = JNull"
  by (simp add: enc_map_any_def enc_gomap_def)

lemma enc_map_any_ok:
  assumes "case m of None \<Rightarrow> True | Some l \<Rightarrow> map_ok (any_ok ft) l"
  shows "json_ok (enc_map_any m)" "json_depth (enc_map_any m) \<le> map_depth m"
proof -
  show "json_ok (enc_map_any m)"
  proof (cases m)
    case (Some l)
    with assms have "map_ok (any_ok ft) l" by simp
    then show ?thesis using Some
      by (auto simp: sort_keys_entries) (auto simp: map_ok_def dest: any_ok_json_ok)
  qed (simp add: enc_map_any_def enc_gomap_def)
  show "json_depth (enc_map_any m) \<le> map_depth m"
    using assms by (cases m) (simp_all add: sort_keys_entries map_depth_def)
qed

lemma members_ok_map_any:
  assumes "valid_utf8 k" "omap_ok (any_ok ft) m" "map_depth m \<le> n"
  shows "members_ok n (omit_gomap sort_keys k m)"
proof -
  have c: "case m of None \<Rightarrow> True | Some l \<Rightarrow> map_ok (any_ok ft) l"
    using assms(2) by (cases m) (simp_all add: omap_ok_def)
  from enc_map_any_ok [OF c] assms show ?thesis by (auto simp: omit_gomap_def enc_map_any_def)
qed

subsection \<open>The contract of a JSON column\<close>

text \<open>
  What a type must provide to be kept in a JSON text column: its encoder writes documents that
  the reader accepts, and its decoder reads them back. Storage interprets it for every column.
\<close>

definition json_column :: "('a \<Rightarrow> json) \<Rightarrow> 'a \<Rightarrow> string" where
  "json_column enc x = json_print (enc x)"

locale json_codec =
  fixes dec :: "'a dec" and enc :: "'a \<Rightarrow> json" and zero :: 'a and good :: "'a \<Rightarrow> bool"
  assumes dec_enc: "good x \<Longrightarrow> dec (enc x) zero = (True, x)"
    and enc_ok: "good x \<Longrightarrow> json_ok (enc x)"
    and enc_depth: "good x \<Longrightarrow> json_depth (enc x) \<le> max_nesting"
begin

lemma column_roundtrip: "good x \<Longrightarrow> unmarshal dec (json_column enc x) zero = (True, x)"
  by (simp add: unmarshal_def json_column_def json_roundtrip enc_ok enc_depth dec_enc)

lemma body_roundtrip: "good x \<Longrightarrow> decode_body dec (json_column enc x) zero = (True, x)"
  by (simp add: decode_body_def json_column_def json_decode_print enc_ok enc_depth dec_enc)

lemma column_inj: "good x \<Longrightarrow> good y \<Longrightarrow> json_column enc x = json_column enc y \<Longrightarrow> x = y"
  by (metis column_roundtrip prod.inject)

end

end
