(* ===== verification/GoTime.thy ===== *)
theory GoTime
  imports Prelude
begin

section \<open>Instants and durations\<close>

text \<open>
  An instant (\<open>time.Time\<close>, UTC) is the number of nanoseconds since the Unix epoch, a
  \<open>time.Duration\<close> a number of nanoseconds. \<open>parse_duration\<close> is the algorithm of
  \<open>time.ParseDuration\<close> on \<open>uint64\<close> values with its overflow checks; its one floating-point
  expression, \<open>uint64(float64(f) * (float64(unit) / scale))\<close>, is the argument \<open>fx f unit scale\<close>,
  and no lemma assumes anything of it.
\<close>

type_synonym instant = int
type_synonym duration = int

definition zero_time :: instant where
  "zero_time = - 62135596800 * 1000000000"

definition is_zero_time :: "instant \<Rightarrow> bool" where
  "is_zero_time t = (t = zero_time)"

definition unix_milli :: "instant \<Rightarrow> int" where
  "unix_milli t = t div 1000000"

definition of_unix_milli :: "int \<Rightarrow> instant" where
  "of_unix_milli ms = ms * 1000000"

definition time_sub :: "instant \<Rightarrow> instant \<Rightarrow> duration" where
  "time_sub t u = max int64_min (min int64_max (t - u))"

lemma unix_milli_of_unix_milli [simp]: "unix_milli (of_unix_milli ms) = ms"
  by (simp add: unix_milli_def of_unix_milli_def)

lemma unix_milli_mono: "t \<le> u \<Longrightarrow> unix_milli t \<le> unix_milli u"
  by (simp add: unix_milli_def zdiv_mono1)

lemma time_sub_mono: "t \<le> t' \<Longrightarrow> time_sub t u \<le> time_sub t' u"
  by (simp add: time_sub_def)

subsection \<open>\<open>time.ParseDuration\<close>\<close>

definition u64 :: "nat \<Rightarrow> nat" where
  "u64 n = n mod 18446744073709551616"

definition two63 :: nat where
  "two63 = 9223372036854775808"

fun leading_int :: "nat \<Rightarrow> string \<Rightarrow> (nat \<times> string) option" where
  "leading_int x [] = Some (x, [])"
| "leading_int x (c # s) =
     (if \<not> is_digit c then Some (x, c # s)
      else if x > two63 div 10 then None
      else if x * 10 + digit_val c > two63 then None
      else leading_int (x * 10 + digit_val c) s)"

fun leading_fraction :: "bool \<Rightarrow> nat \<Rightarrow> nat \<Rightarrow> string \<Rightarrow> nat \<times> nat \<times> string" where
  "leading_fraction ovf x scale [] = (x, scale, [])"
| "leading_fraction ovf x scale (c # s) =
     (if \<not> is_digit c then (x, scale, c # s)
      else if ovf \<or> x > (two63 - 1) div 10 \<or> x * 10 + digit_val c > two63
        then leading_fraction True x scale s
      else leading_fraction ovf (x * 10 + digit_val c) (scale * 10) s)"

definition unit_map :: "(string \<times> nat) list" where
  "unit_map = [(''ns'', 1), (''us'', 1000), ([CHR 0xC2, CHR 0xB5, CHR ''s''], 1000),
     ([CHR 0xCE, CHR 0xBC, CHR ''s''], 1000), (''ms'', 1000000), (''s'', 1000000000),
     (''m'', 60000000000), (''h'', 3600000000000)]"

definition is_num_start :: "char \<Rightarrow> bool" where
  "is_num_start c = (c = CHR ''.'' \<or> is_digit c)"

lemma leading_int_length: "leading_int x s = Some (v, r) \<Longrightarrow> length r \<le> length s"
  by (induction x s rule: leading_int.induct) (auto split: if_splits)

lemma leading_fraction_length: "leading_fraction b x c s = (f, sc, r) \<Longrightarrow> length r \<le> length s"
  by (induction b x c s rule: leading_fraction.induct) (auto split: if_splits)

text \<open>
  One turn of the loop: the number before the unit (integer part, fraction and its scale), the
  unit, and what is left.
\<close>

definition duration_fraction :: "string \<Rightarrow> nat \<times> nat \<times> string" where
  "duration_fraction s1 =
     (case s1 of [] \<Rightarrow> (0, 1, s1)
      | c # t \<Rightarrow> (if c = CHR ''.'' then leading_fraction False 0 1 t else (0, 1, s1)))"

definition duration_number :: "string \<Rightarrow> (nat \<times> nat \<times> nat \<times> string) option" where
  "duration_number s =
     (if s = [] \<or> \<not> is_num_start (hd s) then None else
      case leading_int 0 s of None \<Rightarrow> None
      | Some (v, s1) \<Rightarrow>
        (case duration_fraction s1 of (f, scale, s2) \<Rightarrow>
          (if length s = length s1
              \<and> \<not> (s1 \<noteq> [] \<and> hd s1 = CHR ''.'' \<and> length (tl s1) \<noteq> length s2)
           then None else Some (v, f, scale, s2))))"

definition duration_value ::
    "(nat \<Rightarrow> nat \<Rightarrow> nat \<Rightarrow> nat) \<Rightarrow> nat \<Rightarrow> nat \<Rightarrow> nat \<Rightarrow> nat \<Rightarrow> nat option" where
  "duration_value fx v f scale unit =
     (if v > two63 div unit then None
      else if f > 0 then
        (if u64 (v * unit + fx f unit scale) > two63 then None
         else Some (u64 (v * unit + fx f unit scale)))
      else Some (v * unit))"

definition duration_part :: "(nat \<Rightarrow> nat \<Rightarrow> nat \<Rightarrow> nat) \<Rightarrow> string \<Rightarrow> (nat \<times> string) option" where
  "duration_part fx s =
     (case duration_number s of None \<Rightarrow> None
      | Some (v, f, scale, s2) \<Rightarrow>
        (case map_of unit_map (takeWhile (\<lambda>c. \<not> is_num_start c) s2) of
           None \<Rightarrow> None
         | Some unit \<Rightarrow> map_option (\<lambda>w. (w, dropWhile (\<lambda>c. \<not> is_num_start c) s2))
                              (duration_value fx v f scale unit)))"

lemma duration_fraction_length: "duration_fraction s = (f, sc, r) \<Longrightarrow> length r \<le> length s"
  by (auto simp: duration_fraction_def leading_fraction_length le_SucI
      split: list.splits if_splits dest: leading_fraction_length)

lemma duration_number_length: "duration_number s = Some (v, f, sc, r) \<Longrightarrow> length r \<le> length s"
  by (auto simp: duration_number_def split: if_splits option.splits prod.splits
      dest!: leading_int_length duration_fraction_length)

lemma unit_map_Nil: "map_of unit_map [] = None"
  by (simp add: unit_map_def)

lemma dropWhile_shorter: "takeWhile P s \<noteq> [] \<Longrightarrow> length (dropWhile P s) < length s"
  by (cases s) (auto simp: length_dropWhile_le less_Suc_eq_le split: if_splits)

lemma duration_part_length: "duration_part fx s = Some (v, r) \<Longrightarrow> length r < length s"
proof -
  assume "duration_part fx s = Some (v, r)"
  then obtain n f sc s2 unit where nu: "duration_number s = Some (n, f, sc, s2)"
    and un: "map_of unit_map (takeWhile (\<lambda>c. \<not> is_num_start c) s2) = Some unit"
    and r: "r = dropWhile (\<lambda>c. \<not> is_num_start c) s2"
    by (auto simp: duration_part_def split: option.splits)
  from un have "takeWhile (\<lambda>c. \<not> is_num_start c) s2 \<noteq> []"
    by (metis unit_map_Nil option.distinct(1))
  with duration_number_length [OF nu] r show ?thesis
    using dropWhile_shorter order_less_le_trans by blast
qed

function duration_loop :: "(nat \<Rightarrow> nat \<Rightarrow> nat \<Rightarrow> nat) \<Rightarrow> nat \<Rightarrow> string \<Rightarrow> nat option" where
  "duration_loop fx d s =
     (if s = [] then Some d else
      case duration_part fx s of None \<Rightarrow> None
      | Some (v, r) \<Rightarrow>
          (if u64 (d + v) > two63 then None else duration_loop fx (u64 (d + v)) r))"
  by pat_completeness auto
termination
  by (relation "measure (\<lambda>(fx, d, s). length s)") (auto dest: duration_part_length)

declare duration_loop.simps [simp del]

definition parse_duration :: "(nat \<Rightarrow> nat \<Rightarrow> nat \<Rightarrow> nat) \<Rightarrow> string \<Rightarrow> duration option" where
  "parse_duration fx s =
     (let neg = (s \<noteq> [] \<and> hd s = CHR ''-'');
          s' = (if s \<noteq> [] \<and> (hd s = CHR ''-'' \<or> hd s = CHR ''+'') then tl s else s)
      in if s' = ''0'' then Some 0
         else if s' = [] then None
         else case duration_loop fx 0 s' of None \<Rightarrow> None
         | Some d \<Rightarrow>
            (if neg then Some (- int d)
             else if d > two63 - 1 then None else Some (int d)))"

lemma duration_loop_step:
  "duration_loop fx d s = Some r \<longleftrightarrow> (s = [] \<and> r = d) \<or>
     (\<exists>v t. s \<noteq> [] \<and> duration_part fx s = Some (v, t) \<and> u64 (d + v) \<le> two63
        \<and> duration_loop fx (u64 (d + v)) t = Some r)"
  by (subst duration_loop.simps) (auto split: option.splits)

lemma duration_loop_bound: "duration_loop fx d s = Some r \<Longrightarrow> d \<le> two63 \<Longrightarrow> r \<le> two63"
proof (induction fx d s rule: duration_loop.induct)
  case (1 fx d s)
  from 1(2) consider "r = d" | v t where "s \<noteq> []" "duration_part fx s = Some (v, t)"
      "u64 (d + v) \<le> two63" "duration_loop fx (u64 (d + v)) t = Some r"
    by (subst (asm) duration_loop_step) blast
  then show ?case
  proof cases
    case 2
    then show ?thesis using 1(1) [of "(v, t)" v t] by simp
  qed (use 1(3) in simp)
qed

lemma parse_duration_range:
  "parse_duration fx s = Some d \<Longrightarrow> int64_min \<le> d \<and> d \<le> int64_max"
  by (auto simp: parse_duration_def Let_def int64_min_def int64_max_def two63_def
      split: if_splits option.splits dest!: duration_loop_bound)

subsection \<open>RFC 3339 text: \<open>Time.Format\<close>, \<open>Time.MarshalJSON\<close> and \<open>Time.UnmarshalJSON\<close>\<close>

text \<open>The proleptic Gregorian calendar: day 0 is 1970-01-01.\<close>

definition days_from_civil :: "int \<Rightarrow> int \<Rightarrow> int \<Rightarrow> int" where
  "days_from_civil y m d =
     (let y' = (if m \<le> 2 then y - 1 else y);
          yoe = y' mod 400;
          doy = (153 * (if m > 2 then m - 3 else m + 9) + 2) div 5 + d - 1
      in (y' div 400) * 146097 + (yoe * 365 + yoe div 4 - yoe div 100 + doy) - 719468)"

definition civil_from_days :: "int \<Rightarrow> int \<times> int \<times> int" where
  "civil_from_days n =
     (let z = n + 719468;
          doe = z mod 146097;
          yoe = (doe - doe div 1460 + doe div 36524 - doe div 146096) div 365;
          doy = doe - (365 * yoe + yoe div 4 - yoe div 100);
          mp = (5 * doy + 2) div 153;
          m = (if mp < 10 then mp + 3 else mp - 9);
          y = yoe + (z div 146097) * 400
      in (if m \<le> 2 then y + 1 else y, m, doy - (153 * mp + 2) div 5 + 1))"

definition pad :: "nat \<Rightarrow> int \<Rightarrow> string" where
  "pad w n = (let s = dec_nat (nat n) in replicate (w - length s) (CHR ''0'') @ s)"

definition day_ns :: int where
  "day_ns = 86400000000000"

definition rfc3339_seconds :: "instant \<Rightarrow> string" where
  "rfc3339_seconds t =
     (case civil_from_days (t div day_ns) of (y, m, d) \<Rightarrow>
        let s = t mod day_ns div 1000000000 in
        pad 4 y @ ''-'' @ pad 2 m @ ''-'' @ pad 2 d @ ''T'' @
        pad 2 (s div 3600) @ '':'' @ pad 2 (s mod 3600 div 60) @ '':'' @ pad 2 (s mod 60))"

definition rfc3339 :: "instant \<Rightarrow> string" where
  "rfc3339 t = rfc3339_seconds t @ ''Z''"

definition rfc3339_nano :: "instant \<Rightarrow> string" where
  "rfc3339_nano t =
     (let f = t mod 1000000000 in
      rfc3339_seconds t @ (if f = 0 then [] else ''.'' @ trim_right (pad 9 f) ''0'') @ ''Z'')"

definition is_leap :: "int \<Rightarrow> bool" where
  "is_leap y = (y mod 4 = 0 \<and> (y mod 100 \<noteq> 0 \<or> y mod 400 = 0))"

definition days_in :: "int \<Rightarrow> int \<Rightarrow> int" where
  "days_in y m =
     (if m = 2 then (if is_leap y then 29 else 28) else if m \<in> {4, 6, 9, 11} then 30 else 31)"

definition num_between :: "string \<Rightarrow> int \<Rightarrow> int \<Rightarrow> int option" where
  "num_between s lo hi =
     (case parse_digits s of None \<Rightarrow> None
      | Some n \<Rightarrow> if lo \<le> int n \<and> int n \<le> hi then Some (int n) else None)"

definition parse_fraction :: "string \<Rightarrow> int \<times> string" where
  "parse_fraction s =
     (case s of
        p # c # t \<Rightarrow>
          (if p = CHR ''.'' \<and> is_digit c then
             (let ds = take 9 (takeWhile is_digit (c # t)) in
              (int (nat_of_dec (ds @ replicate (9 - length ds) (CHR ''0''))), dropWhile is_digit (c # t)))
           else (0, s))
      | _ \<Rightarrow> (0, s))"

definition parse_zone :: "string \<Rightarrow> int option" where
  "parse_zone s =
     (if s = ''Z'' then Some 0
      else if length s = 6 \<and> s ! 3 = CHR '':'' \<and> s ! 0 \<in> set ''+-'' then
        Option.bind (num_between (take 2 (drop 1 s)) 0 24) (\<lambda>h.
        Option.bind (num_between (drop 4 s) 0 60) (\<lambda>m.
          Some ((if s ! 0 = CHR ''-'' then -1 else 1) * (h * 3600 + m * 60))))
      else None)"

definition parse_rfc3339 :: "string \<Rightarrow> instant option" where
  "parse_rfc3339 s =
     (if length s < 19 \<or> s ! 4 \<noteq> CHR ''-'' \<or> s ! 7 \<noteq> CHR ''-'' \<or> s ! 10 \<noteq> CHR ''T''
         \<or> s ! 13 \<noteq> CHR '':'' \<or> s ! 16 \<noteq> CHR '':'' then None else
      Option.bind (num_between (take 4 s) 0 9999) (\<lambda>y.
      Option.bind (num_between (take 2 (drop 5 s)) 1 12) (\<lambda>m.
      Option.bind (num_between (take 2 (drop 8 s)) 1 (days_in y m)) (\<lambda>d.
      Option.bind (num_between (take 2 (drop 11 s)) 0 23) (\<lambda>h.
      Option.bind (num_between (take 2 (drop 14 s)) 0 59) (\<lambda>mi.
      Option.bind (num_between (take 2 (drop 17 s)) 0 59) (\<lambda>sec.
        (case parse_fraction (drop 19 s) of (f, z) \<Rightarrow>
           Option.bind (parse_zone z) (\<lambda>off.
             Some (days_from_civil y m d * day_ns
                   + (h * 3600 + mi * 60 + sec - off) * 1000000000 + f))))))))))"

end
