(* ===== verification/Timeline.thy ===== *)
theory Timeline
  imports GoCodec GoTime
begin

section \<open>The timeline model (\<open>internal/timeline\<close>)\<close>

text \<open>
  The records of \<open>event.go\<close> and \<open>models.go\<close> with their status and kind constants,
  \<open>TimelineEvent.Validate\<close>, and the JSON form of each record (its struct tags): \<open>enc_\<dots>\<close>
  is what \<open>json.Marshal\<close> writes, \<open>dec_\<dots>\<close> what \<open>json.Unmarshal\<close> reads. A pointer
  field is an \<open>option\<close>. The interpretations of \<open>json_codec\<close> at the end show that every
  record kept in a JSON column reads back as it was written.
\<close>

subsection \<open>Constants\<close>

definition event_statuses :: "string list" where
  "event_statuses = [''ok'', ''error'', ''warning'', ''pending'', ''blocked'', ''faulted'', ''unknown'']"

definition scenario_statuses :: "string list" where
  "scenario_statuses = [''recording'', ''completed'', ''exported'', ''failed'']"

definition replay_statuses :: "string list" where
  "replay_statuses = [''running'', ''passed'', ''failed'', ''partial'', ''canceled'']"

definition service_statuses :: "string list" where
  "service_statuses = [''healthy'', ''unhealthy'', ''starting'', ''stopped'', ''unknown'']"

definition fault_scopes :: "string list" where
  "fault_scopes = [''live'', ''replay'', ''both'']"

definition source_http_proxy :: string where "source_http_proxy = ''http_proxy''"
definition source_postgres :: string where "source_postgres = ''postgres''"
definition source_redis :: string where "source_redis = ''redis''"
definition source_mailpit :: string where "source_mailpit = ''mailpit''"

subsection \<open>Records\<close>

record request_data =
  rq_method :: string
  rq_scheme :: string
  rq_host :: string
  rq_path :: string
  rq_query :: string
  rq_headers :: "string gomap"
  rq_body_preview :: string
  rq_body_sha256 :: string
  rq_body_redacted :: bool
  rq_replayable :: bool
  rq_replay_warning :: string

record response_data =
  rs_status_code :: int
  rs_headers :: "string gomap"
  rs_body_preview :: string
  rs_body_sha256 :: string
  rs_body_redacted :: bool

record raw_payload =
  raw_content_type :: string
  raw_encoding :: string
  raw_preview :: string
  raw_sha256 :: string
  raw_redacted :: bool

record fault_annotation =
  fa_rule_id :: string
  fa_rule_name :: string
  fa_kind :: string
  fa_applied_at :: instant
  fa_effect_summary :: string

record timeline_event =
  ev_id :: string
  ev_run_id :: string
  ev_scenario_id :: "string option"
  ev_replay_run_id :: "string option"
  ev_timestamp :: instant
  ev_source :: string
  ev_service :: string
  ev_action :: string
  ev_summary :: string
  ev_status :: string
  ev_duration_ms :: "int option"
  ev_correlation_id :: "string option"
  ev_parent_event_id :: "string option"
  ev_request :: "request_data option"
  ev_response :: "response_data option"
  ev_metadata :: "json gomap"
  ev_raw_payload :: "raw_payload option"
  ev_faults :: "fault_annotation goslice"

record scenario =
  sc_id :: string
  sc_name :: string
  sc_description :: string
  sc_status :: string
  sc_started_at :: instant
  sc_stopped_at :: "instant option"
  sc_event_count :: int
  sc_replayable_count :: int
  sc_root_event_ids :: "string goslice"
  sc_tags :: "string goslice"
  sc_config_snapshot_id :: string
  sc_redaction_summary :: "json gomap"
  sc_created_by :: string
  sc_error_message :: string

record replay_run =
  rr_id :: string
  rr_scenario_id :: string
  rr_started_at :: instant
  rr_finished_at :: "instant option"
  rr_status :: string
  rr_target_base_url :: string
  rr_request_count :: int
  rr_passed_count :: int
  rr_failed_count :: int
  rr_diff_summary :: "json gomap"
  rr_created_by :: string
  rr_error_message :: string

record fault_match =
  fm_source :: string
  fm_service :: string
  fm_method :: string
  fm_path :: string
  fm_path_prefix :: string
  fm_host :: string
  fm_status_code :: int
  fm_queue :: string
  fm_email_to_contains :: string
  fm_headers :: "string gomap"

record fault_action =
  fx_status_code :: int
  fx_body_json :: "json gomap"
  fx_delay_ms :: int
  fx_reason :: string

record fault_safety =
  fs_max_hits :: int
  fs_expires_after :: string
  fs_local_only :: bool

record fault_rule =
  fr_id :: string
  fr_name :: string
  fr_enabled :: bool
  fr_kind :: string
  fr_scope :: string
  fr_match :: fault_match
  fr_action :: fault_action
  fr_safety :: fault_safety
  fr_created_at :: instant
  fr_updated_at :: instant
  fr_hit_count :: int
  fr_last_applied_at :: "instant option"

record service_health =
  sh_service :: string
  sh_type :: string
  sh_status :: string
  sh_endpoint :: string
  sh_container_id :: string
  sh_last_checked_at :: instant
  sh_message :: string
  sh_metadata :: "json gomap"

record adapter_status =
  as_adapter :: string
  as_service :: string
  as_enabled :: bool
  as_status :: string
  as_last_event_at :: "instant option"
  as_last_error :: string
  as_event_count :: int
  as_metadata :: "json gomap"

record config_snapshot =
  cs_id :: string
  cs_created_at :: instant
  cs_hash :: string
  cs_config_json :: string
  cs_validation_json :: string

subsection \<open>\<open>TimelineEvent.Validate\<close>\<close>

datatype event_error =
    IdRequired
  | RunIdRequired
  | TimestampRequired
  | SourceRequired
  | ServiceRequired
  | ActionRequired
  | SummaryRequired
  | StatusInvalid string

definition is_valid_status :: "string \<Rightarrow> bool" where
  "is_valid_status s = (s \<in> set event_statuses)"

text \<open>The joined errors in the order they are added; the empty list is \<open>nil\<close>.\<close>

definition event_validate :: "timeline_event \<Rightarrow> event_error list" where
  "event_validate e =
     (if ev_id e = [] then [IdRequired] else []) @
     (if ev_run_id e = [] then [RunIdRequired] else []) @
     (if is_zero_time (ev_timestamp e) then [TimestampRequired] else []) @
     (if ev_source e = [] then [SourceRequired] else []) @
     (if ev_service e = [] then [ServiceRequired] else []) @
     (if ev_action e = [] then [ActionRequired] else []) @
     (if ev_summary e = [] then [SummaryRequired] else []) @
     (if \<not> is_valid_status (ev_status e) then [StatusInvalid (ev_status e)] else [])"

lemma event_validate_ok: "event_validate e = [] \<longleftrightarrow>
   ev_id e \<noteq> [] \<and> ev_run_id e \<noteq> [] \<and> \<not> is_zero_time (ev_timestamp e) \<and> ev_source e \<noteq> [] \<and>
   ev_service e \<noteq> [] \<and> ev_action e \<noteq> [] \<and> ev_summary e \<noteq> [] \<and> is_valid_status (ev_status e)"
  by (simp add: event_validate_def)

subsection \<open>JSON form of the captured data\<close>

definition zero_request :: request_data where
  "zero_request = \<lparr>rq_method = [], rq_scheme = [], rq_host = [], rq_path = [], rq_query = [],
     rq_headers = None, rq_body_preview = [], rq_body_sha256 = [],
     rq_body_redacted = False, rq_replayable = False, rq_replay_warning = []\<rparr>"

definition enc_request :: "request_data \<Rightarrow> json" where
  "enc_request r = JObj
     (omit_str ''method'' (rq_method r) @ omit_str ''scheme'' (rq_scheme r) @
      omit_str ''host'' (rq_host r) @ omit_str ''path'' (rq_path r) @
      omit_str ''query'' (rq_query r) @ omit_gomap JStr ''headers'' (rq_headers r) @
      omit_str ''bodyPreview'' (rq_body_preview r) @
      omit_str ''bodySha256'' (rq_body_sha256 r) @
      [(''bodyRedacted'', JBool (rq_body_redacted r))] @
      [(''replayable'', JBool (rq_replayable r))] @
      omit_str ''replayWarning'' (rq_replay_warning r))"

definition request_fields :: "request_data fields" where
  "request_fields =
     [(''method'', at_field dec_string rq_method rq_method_update),
      (''scheme'', at_field dec_string rq_scheme rq_scheme_update),
      (''host'', at_field dec_string rq_host rq_host_update),
      (''path'', at_field dec_string rq_path rq_path_update),
      (''query'', at_field dec_string rq_query rq_query_update),
      (''headers'', at_field (dec_gomap dec_string []) rq_headers rq_headers_update),
      (''bodyPreview'', at_field dec_string rq_body_preview rq_body_preview_update),
      (''bodySha256'', at_field dec_string rq_body_sha256 rq_body_sha256_update),
      (''bodyRedacted'', at_field dec_bool rq_body_redacted rq_body_redacted_update),
      (''replayable'', at_field dec_bool rq_replayable rq_replayable_update),
      (''replayWarning'', at_field dec_string rq_replay_warning rq_replay_warning_update)]"

definition dec_request :: "request_data dec" where
  "dec_request = dec_struct request_fields"

definition request_ok :: "request_data \<Rightarrow> bool" where
  "request_ok r =
     (valid_utf8 (rq_method r) \<and> valid_utf8 (rq_scheme r) \<and>
      valid_utf8 (rq_host r) \<and> valid_utf8 (rq_path r) \<and>
      valid_utf8 (rq_query r) \<and> omap_ok valid_utf8 (rq_headers r) \<and>
      valid_utf8 (rq_body_preview r) \<and> valid_utf8 (rq_body_sha256 r) \<and>
      valid_utf8 (rq_replay_warning r))"

lemma request_field_simps:
  "map_of request_fields ''method'' = Some (at_field dec_string rq_method rq_method_update)"
  "map_of request_fields ''scheme'' = Some (at_field dec_string rq_scheme rq_scheme_update)"
  "map_of request_fields ''host'' = Some (at_field dec_string rq_host rq_host_update)"
  "map_of request_fields ''path'' = Some (at_field dec_string rq_path rq_path_update)"
  "map_of request_fields ''query'' = Some (at_field dec_string rq_query rq_query_update)"
  "map_of request_fields ''headers'' = Some (at_field (dec_gomap dec_string []) rq_headers rq_headers_update)"
  "map_of request_fields ''bodyPreview'' = Some (at_field dec_string rq_body_preview rq_body_preview_update)"
  "map_of request_fields ''bodySha256'' = Some (at_field dec_string rq_body_sha256 rq_body_sha256_update)"
  "map_of request_fields ''bodyRedacted'' = Some (at_field dec_bool rq_body_redacted rq_body_redacted_update)"
  "map_of request_fields ''replayable'' = Some (at_field dec_bool rq_replayable rq_replayable_update)"
  "map_of request_fields ''replayWarning'' = Some (at_field dec_string rq_replay_warning rq_replay_warning_update)"
  by (simp_all add: request_fields_def)

lemma dec_enc_request:
  "request_ok r \<Longrightarrow> dec_request (enc_request r) zero_request = (True, r)"
  by (simp add: dec_request_def dec_struct_def enc_request_def request_ok_def
      fold_members zero_request_def request_field_simps)

lemma enc_request_ok:
  assumes "request_ok r"
  shows "json_ok (enc_request r)" "json_depth (enc_request r) \<le> max_nesting"
proof -
  have "json_ok (enc_request r) \<and> json_depth (enc_request r) \<le> Suc 1"
    unfolding enc_request_def using assms
    by (intro members_ok_obj)
       (simp add: request_ok_def members_ok_omit members_ok_strings valid_utf8_literal)
  then show "json_ok (enc_request r)" "json_depth (enc_request r) \<le> max_nesting"
    by (simp_all add: max_nesting_def)
qed

interpretation request_codec: json_codec dec_request enc_request zero_request request_ok
  by unfold_locales (simp_all add: dec_enc_request enc_request_ok)

definition zero_response :: response_data where
  "zero_response = \<lparr>rs_status_code = 0, rs_headers = None, rs_body_preview = [], rs_body_sha256 = [],
     rs_body_redacted = False\<rparr>"

definition enc_response :: "response_data \<Rightarrow> json" where
  "enc_response r = JObj
     (omit_num ''statusCode'' (rs_status_code r) @
      omit_gomap JStr ''headers'' (rs_headers r) @
      omit_str ''bodyPreview'' (rs_body_preview r) @
      omit_str ''bodySha256'' (rs_body_sha256 r) @
      [(''bodyRedacted'', JBool (rs_body_redacted r))])"

definition response_fields :: "response_data fields" where
  "response_fields =
     [(''statusCode'', at_field dec_num rs_status_code rs_status_code_update),
      (''headers'', at_field (dec_gomap dec_string []) rs_headers rs_headers_update),
      (''bodyPreview'', at_field dec_string rs_body_preview rs_body_preview_update),
      (''bodySha256'', at_field dec_string rs_body_sha256 rs_body_sha256_update),
      (''bodyRedacted'', at_field dec_bool rs_body_redacted rs_body_redacted_update)]"

definition dec_response :: "response_data dec" where
  "dec_response = dec_struct response_fields"

definition response_ok :: "response_data \<Rightarrow> bool" where
  "response_ok r =
     (is_int64 (rs_status_code r) \<and> omap_ok valid_utf8 (rs_headers r) \<and>
      valid_utf8 (rs_body_preview r) \<and> valid_utf8 (rs_body_sha256 r))"

lemma response_field_simps:
  "map_of response_fields ''statusCode'' = Some (at_field dec_num rs_status_code rs_status_code_update)"
  "map_of response_fields ''headers'' = Some (at_field (dec_gomap dec_string []) rs_headers rs_headers_update)"
  "map_of response_fields ''bodyPreview'' = Some (at_field dec_string rs_body_preview rs_body_preview_update)"
  "map_of response_fields ''bodySha256'' = Some (at_field dec_string rs_body_sha256 rs_body_sha256_update)"
  "map_of response_fields ''bodyRedacted'' = Some (at_field dec_bool rs_body_redacted rs_body_redacted_update)"
  by (simp_all add: response_fields_def)

lemma dec_enc_response:
  "response_ok r \<Longrightarrow> dec_response (enc_response r) zero_response = (True, r)"
  by (simp add: dec_response_def dec_struct_def enc_response_def response_ok_def
      fold_members zero_response_def response_field_simps)

lemma enc_response_ok:
  assumes "response_ok r"
  shows "json_ok (enc_response r)" "json_depth (enc_response r) \<le> max_nesting"
proof -
  have "json_ok (enc_response r) \<and> json_depth (enc_response r) \<le> Suc 1"
    unfolding enc_response_def using assms
    by (intro members_ok_obj)
       (simp add: response_ok_def members_ok_omit members_ok_strings valid_utf8_literal)
  then show "json_ok (enc_response r)" "json_depth (enc_response r) \<le> max_nesting"
    by (simp_all add: max_nesting_def)
qed

interpretation response_codec: json_codec dec_response enc_response zero_response response_ok
  by unfold_locales (simp_all add: dec_enc_response enc_response_ok)

definition zero_raw :: raw_payload where
  "zero_raw = \<lparr>raw_content_type = [], raw_encoding = [], raw_preview = [], raw_sha256 = [],
     raw_redacted = False\<rparr>"

definition enc_raw :: "raw_payload \<Rightarrow> json" where
  "enc_raw r = JObj
     ([(''contentType'', JStr (raw_content_type r))] @
      [(''encoding'', JStr (raw_encoding r))] @ [(''preview'', JStr (raw_preview r))] @
      [(''sha256'', JStr (raw_sha256 r))] @ [(''redacted'', JBool (raw_redacted r))])"

definition raw_fields :: "raw_payload fields" where
  "raw_fields =
     [(''contentType'', at_field dec_string raw_content_type raw_content_type_update),
      (''encoding'', at_field dec_string raw_encoding raw_encoding_update),
      (''preview'', at_field dec_string raw_preview raw_preview_update),
      (''sha256'', at_field dec_string raw_sha256 raw_sha256_update),
      (''redacted'', at_field dec_bool raw_redacted raw_redacted_update)]"

definition dec_raw :: "raw_payload dec" where
  "dec_raw = dec_struct raw_fields"

definition raw_ok :: "raw_payload \<Rightarrow> bool" where
  "raw_ok r =
     (valid_utf8 (raw_content_type r) \<and> valid_utf8 (raw_encoding r) \<and>
      valid_utf8 (raw_preview r) \<and> valid_utf8 (raw_sha256 r))"

lemma raw_field_simps:
  "map_of raw_fields ''contentType'' = Some (at_field dec_string raw_content_type raw_content_type_update)"
  "map_of raw_fields ''encoding'' = Some (at_field dec_string raw_encoding raw_encoding_update)"
  "map_of raw_fields ''preview'' = Some (at_field dec_string raw_preview raw_preview_update)"
  "map_of raw_fields ''sha256'' = Some (at_field dec_string raw_sha256 raw_sha256_update)"
  "map_of raw_fields ''redacted'' = Some (at_field dec_bool raw_redacted raw_redacted_update)"
  by (simp_all add: raw_fields_def)

lemma dec_enc_raw:
  "raw_ok r \<Longrightarrow> dec_raw (enc_raw r) zero_raw = (True, r)"
  by (simp add: dec_raw_def dec_struct_def enc_raw_def raw_ok_def
      fold_members zero_raw_def raw_field_simps)

lemma enc_raw_ok:
  assumes "raw_ok r"
  shows "json_ok (enc_raw r)" "json_depth (enc_raw r) \<le> max_nesting"
proof -
  have "json_ok (enc_raw r) \<and> json_depth (enc_raw r) \<le> Suc 1"
    unfolding enc_raw_def using assms
    by (intro members_ok_obj)
       (simp add: raw_ok_def members_ok_omit members_ok_strings valid_utf8_literal)
  then show "json_ok (enc_raw r)" "json_depth (enc_raw r) \<le> max_nesting"
    by (simp_all add: max_nesting_def)
qed

interpretation raw_codec: json_codec dec_raw enc_raw zero_raw raw_ok
  by unfold_locales (simp_all add: dec_enc_raw enc_raw_ok)

subsection \<open>JSON form of a fault rule\<close>

definition zero_match :: fault_match where
  "zero_match = \<lparr>fm_source = [], fm_service = [], fm_method = [], fm_path = [], fm_path_prefix = [],
     fm_host = [], fm_status_code = 0, fm_queue = [], fm_email_to_contains = [],
     fm_headers = None\<rparr>"

definition enc_match :: "fault_match \<Rightarrow> json" where
  "enc_match r = JObj
     (omit_str ''source'' (fm_source r) @ omit_str ''service'' (fm_service r) @
      omit_str ''method'' (fm_method r) @ omit_str ''path'' (fm_path r) @
      omit_str ''pathPrefix'' (fm_path_prefix r) @ omit_str ''host'' (fm_host r) @
      omit_num ''statusCode'' (fm_status_code r) @ omit_str ''queue'' (fm_queue r) @
      omit_str ''emailToContains'' (fm_email_to_contains r) @
      omit_gomap JStr ''headers'' (fm_headers r))"

definition match_fields :: "fault_match fields" where
  "match_fields =
     [(''source'', at_field dec_string fm_source fm_source_update),
      (''service'', at_field dec_string fm_service fm_service_update),
      (''method'', at_field dec_string fm_method fm_method_update),
      (''path'', at_field dec_string fm_path fm_path_update),
      (''pathPrefix'', at_field dec_string fm_path_prefix fm_path_prefix_update),
      (''host'', at_field dec_string fm_host fm_host_update),
      (''statusCode'', at_field dec_num fm_status_code fm_status_code_update),
      (''queue'', at_field dec_string fm_queue fm_queue_update),
      (''emailToContains'', at_field dec_string fm_email_to_contains fm_email_to_contains_update),
      (''headers'', at_field (dec_gomap dec_string []) fm_headers fm_headers_update)]"

definition dec_match :: "fault_match dec" where
  "dec_match = dec_struct match_fields"

definition match_ok :: "fault_match \<Rightarrow> bool" where
  "match_ok r =
     (valid_utf8 (fm_source r) \<and> valid_utf8 (fm_service r) \<and>
      valid_utf8 (fm_method r) \<and> valid_utf8 (fm_path r) \<and>
      valid_utf8 (fm_path_prefix r) \<and> valid_utf8 (fm_host r) \<and>
      is_int64 (fm_status_code r) \<and> valid_utf8 (fm_queue r) \<and>
      valid_utf8 (fm_email_to_contains r) \<and> omap_ok valid_utf8 (fm_headers r))"

lemma match_field_simps:
  "map_of match_fields ''source'' = Some (at_field dec_string fm_source fm_source_update)"
  "map_of match_fields ''service'' = Some (at_field dec_string fm_service fm_service_update)"
  "map_of match_fields ''method'' = Some (at_field dec_string fm_method fm_method_update)"
  "map_of match_fields ''path'' = Some (at_field dec_string fm_path fm_path_update)"
  "map_of match_fields ''pathPrefix'' = Some (at_field dec_string fm_path_prefix fm_path_prefix_update)"
  "map_of match_fields ''host'' = Some (at_field dec_string fm_host fm_host_update)"
  "map_of match_fields ''statusCode'' = Some (at_field dec_num fm_status_code fm_status_code_update)"
  "map_of match_fields ''queue'' = Some (at_field dec_string fm_queue fm_queue_update)"
  "map_of match_fields ''emailToContains'' = Some (at_field dec_string fm_email_to_contains fm_email_to_contains_update)"
  "map_of match_fields ''headers'' = Some (at_field (dec_gomap dec_string []) fm_headers fm_headers_update)"
  by (simp_all add: match_fields_def)

lemma dec_enc_match:
  "match_ok r \<Longrightarrow> dec_match (enc_match r) zero_match = (True, r)"
  by (simp add: dec_match_def dec_struct_def enc_match_def match_ok_def
      fold_members zero_match_def match_field_simps)

lemma enc_match_ok:
  assumes "match_ok r"
  shows "json_ok (enc_match r)" "json_depth (enc_match r) \<le> max_nesting"
proof -
  have "json_ok (enc_match r) \<and> json_depth (enc_match r) \<le> Suc 1"
    unfolding enc_match_def using assms
    by (intro members_ok_obj)
       (simp add: match_ok_def members_ok_omit members_ok_strings valid_utf8_literal)
  then show "json_ok (enc_match r)" "json_depth (enc_match r) \<le> max_nesting"
    by (simp_all add: max_nesting_def)
qed

interpretation match_codec: json_codec dec_match enc_match zero_match match_ok
  by unfold_locales (simp_all add: dec_enc_match enc_match_ok)

definition zero_action :: fault_action where
  "zero_action = \<lparr>fx_status_code = 0, fx_body_json = None, fx_delay_ms = 0, fx_reason = []\<rparr>"

definition enc_action :: "fault_action \<Rightarrow> json" where
  "enc_action r = JObj
     (omit_num ''statusCode'' (fx_status_code r) @
      omit_gomap sort_keys ''bodyJson'' (fx_body_json r) @
      omit_num ''delayMs'' (fx_delay_ms r) @ omit_str ''reason'' (fx_reason r))"

definition action_fields :: "float_text \<Rightarrow> fault_action fields" where
  "action_fields ft =
     [(''statusCode'', at_field dec_num fx_status_code fx_status_code_update),
      (''bodyJson'', at_field (dec_map_any ft) fx_body_json fx_body_json_update),
      (''delayMs'', at_field dec_num fx_delay_ms fx_delay_ms_update),
      (''reason'', at_field dec_string fx_reason fx_reason_update)]"

definition dec_action :: "float_text \<Rightarrow> fault_action dec" where
  "dec_action ft = dec_struct (action_fields ft)"

definition action_ok :: "float_text \<Rightarrow> fault_action \<Rightarrow> bool" where
  "action_ok ft r =
     (is_int64 (fx_status_code r) \<and>
      omap_ok (any_ok ft) (fx_body_json r) \<and> map_depth (fx_body_json r) < max_nesting \<and>
      is_int64 (fx_delay_ms r) \<and> valid_utf8 (fx_reason r))"

lemma action_field_simps:
  "map_of (action_fields ft) ''statusCode'' = Some (at_field dec_num fx_status_code fx_status_code_update)"
  "map_of (action_fields ft) ''bodyJson'' = Some (at_field (dec_map_any ft) fx_body_json fx_body_json_update)"
  "map_of (action_fields ft) ''delayMs'' = Some (at_field dec_num fx_delay_ms fx_delay_ms_update)"
  "map_of (action_fields ft) ''reason'' = Some (at_field dec_string fx_reason fx_reason_update)"
  by (simp_all add: action_fields_def)

lemma dec_enc_action:
  "action_ok ft r \<Longrightarrow> dec_action ft (enc_action r) zero_action = (True, r)"
  by (simp add: dec_action_def dec_struct_def enc_action_def action_ok_def
      fold_members zero_action_def action_field_simps)

lemma enc_action_ok:
  assumes "action_ok ft r"
  shows "json_ok (enc_action r)" "json_depth (enc_action r) \<le> max_nesting"
proof -
  have "members_ok (max_nesting - 1) (omit_gomap sort_keys ''bodyJson'' (fx_body_json r))"
    using assms by (intro members_ok_map_any [where ft = ft]) (auto simp: action_ok_def valid_utf8_literal max_nesting_def)
  then have "json_ok (enc_action r) \<and> json_depth (enc_action r) \<le> Suc (max_nesting - 1)"
    unfolding enc_action_def using assms
    by (intro members_ok_obj)
       (simp add: action_ok_def members_ok_omit members_ok_strings valid_utf8_literal max_nesting_def)
  then show "json_ok (enc_action r)" "json_depth (enc_action r) \<le> max_nesting"
    by (simp_all add: max_nesting_def)
qed

interpretation action_codec: json_codec "dec_action ft" enc_action zero_action "action_ok ft" for ft
  by unfold_locales (simp_all add: dec_enc_action enc_action_ok)

definition zero_safety :: fault_safety where
  "zero_safety = \<lparr>fs_max_hits = 0, fs_expires_after = [], fs_local_only = False\<rparr>"

definition enc_safety :: "fault_safety \<Rightarrow> json" where
  "enc_safety r = JObj
     (omit_num ''maxHits'' (fs_max_hits r) @
      omit_str ''expiresAfter'' (fs_expires_after r) @
      omit_bool ''localOnly'' (fs_local_only r))"

definition safety_fields :: "fault_safety fields" where
  "safety_fields =
     [(''maxHits'', at_field dec_num fs_max_hits fs_max_hits_update),
      (''expiresAfter'', at_field dec_string fs_expires_after fs_expires_after_update),
      (''localOnly'', at_field dec_bool fs_local_only fs_local_only_update)]"

definition dec_safety :: "fault_safety dec" where
  "dec_safety = dec_struct safety_fields"

definition safety_ok :: "fault_safety \<Rightarrow> bool" where
  "safety_ok r =
     (is_int64 (fs_max_hits r) \<and> valid_utf8 (fs_expires_after r))"

lemma safety_field_simps:
  "map_of safety_fields ''maxHits'' = Some (at_field dec_num fs_max_hits fs_max_hits_update)"
  "map_of safety_fields ''expiresAfter'' = Some (at_field dec_string fs_expires_after fs_expires_after_update)"
  "map_of safety_fields ''localOnly'' = Some (at_field dec_bool fs_local_only fs_local_only_update)"
  by (simp_all add: safety_fields_def)

lemma dec_enc_safety:
  "safety_ok r \<Longrightarrow> dec_safety (enc_safety r) zero_safety = (True, r)"
  by (simp add: dec_safety_def dec_struct_def enc_safety_def safety_ok_def
      fold_members zero_safety_def safety_field_simps)

lemma enc_safety_ok:
  assumes "safety_ok r"
  shows "json_ok (enc_safety r)" "json_depth (enc_safety r) \<le> max_nesting"
proof -
  have "json_ok (enc_safety r) \<and> json_depth (enc_safety r) \<le> Suc 1"
    unfolding enc_safety_def using assms
    by (intro members_ok_obj)
       (simp add: safety_ok_def members_ok_omit members_ok_strings valid_utf8_literal)
  then show "json_ok (enc_safety r)" "json_depth (enc_safety r) \<le> max_nesting"
    by (simp_all add: max_nesting_def)
qed

interpretation safety_codec: json_codec dec_safety enc_safety zero_safety safety_ok
  by unfold_locales (simp_all add: dec_enc_safety enc_safety_ok)

subsection \<open>Maps and slices kept in a column of their own\<close>

definition metadata_ok :: "float_text \<Rightarrow> json gomap \<Rightarrow> bool" where
  "metadata_ok ft m = ((case m of None \<Rightarrow> True | Some l \<Rightarrow> map_ok (any_ok ft) l) \<and> map_depth m \<le> max_nesting)"

lemma dec_enc_map_any:
  "metadata_ok ft m \<Longrightarrow> dec_map_any ft (enc_map_any m) None = (True, m)"
  using dec_gomap_enc [of "any_ok ft" "dec_any ft" sort_keys JNull]
  by (cases m) (auto simp: metadata_ok_def dec_map_any_def dec_gomap_def enc_map_any_def dec_any_sort
      enc_gomap_def [of _ None])

interpretation map_codec: json_codec "dec_map_any ft" enc_map_any None "metadata_ok ft" for ft
  by unfold_locales
     (auto simp: dec_enc_map_any metadata_ok_def intro: enc_map_any_ok order_trans [OF enc_map_any_ok(2)])

definition dec_strings :: "string goslice dec" where
  "dec_strings = dec_slice dec_string []"

definition enc_strings :: "string goslice \<Rightarrow> json" where
  "enc_strings = enc_slice JStr"

definition strings_ok :: "string goslice \<Rightarrow> bool" where
  "strings_ok m = list_all valid_utf8 (entries m)"

interpretation strings_codec: json_codec dec_strings enc_strings None strings_ok
proof unfold_locales
  fix m assume m: "strings_ok m"
  show "dec_strings (enc_strings m) None = (True, m)"
    by (cases m) (simp_all add: dec_strings_def enc_strings_def dec_slice_def enc_slice_def comp_def list_all_iff)
  show "json_ok (enc_strings m)" using m
    by (cases m) (auto simp: enc_strings_def enc_slice_def strings_ok_def list_all_iff)
  have "foldr max (map (json_depth \<circ> JStr) l) 0 = 0" for l
    by (induction l) simp_all
  then have "json_depth (enc_strings m) \<le> Suc 0"
    by (cases m) (simp_all add: enc_strings_def enc_slice_def)
  then show "json_depth (enc_strings m) \<le> max_nesting" by (simp add: max_nesting_def)
qed

definition zero_annotation :: fault_annotation where
  "zero_annotation = \<lparr>fa_rule_id = [], fa_rule_name = [], fa_kind = [], fa_applied_at = zero_time,
     fa_effect_summary = []\<rparr>"

text \<open>Instants are taken to lie in the years 0 to 9999, where \<open>Time.MarshalJSON\<close> does not fail.\<close>

definition enc_time :: "instant \<Rightarrow> json" where
  "enc_time t = JStr (rfc3339_nano t)"

definition dec_time :: "instant dec" where
  "dec_time v t =
     (case v of
        JStr s \<Rightarrow> (case parse_rfc3339 s of Some u \<Rightarrow> (True, u) | None \<Rightarrow> (False, t))
      | JNull \<Rightarrow> (True, t)
      | _ \<Rightarrow> (False, t))"

definition enc_annotation :: "fault_annotation \<Rightarrow> json" where
  "enc_annotation a = JObj
     [(''ruleId'', JStr (fa_rule_id a)), (''ruleName'', JStr (fa_rule_name a)),
      (''kind'', JStr (fa_kind a)), (''appliedAt'', enc_time (fa_applied_at a)),
      (''effectSummary'', JStr (fa_effect_summary a))]"

definition dec_annotation :: "fault_annotation dec" where
  "dec_annotation = dec_struct
     [(''ruleId'', at_field dec_string fa_rule_id fa_rule_id_update),
      (''ruleName'', at_field dec_string fa_rule_name fa_rule_name_update),
      (''kind'', at_field dec_string fa_kind fa_kind_update),
      (''appliedAt'', at_field dec_time fa_applied_at fa_applied_at_update),
      (''effectSummary'', at_field dec_string fa_effect_summary fa_effect_summary_update)]"

definition enc_faults :: "fault_annotation goslice \<Rightarrow> json" where
  "enc_faults = enc_slice enc_annotation"

definition dec_faults :: "fault_annotation goslice dec" where
  "dec_faults = dec_slice dec_annotation zero_annotation"

subsection \<open>JSON form of the records the API returns\<close>

definition enc_event :: "timeline_event \<Rightarrow> json" where
  "enc_event e = JObj
     ([(''id'', JStr (ev_id e)), (''runId'', JStr (ev_run_id e))] @
      omit_ptr JStr ''scenarioId'' (ev_scenario_id e) @
      omit_ptr JStr ''replayRunId'' (ev_replay_run_id e) @
      [(''timestamp'', enc_time (ev_timestamp e)), (''source'', JStr (ev_source e)),
       (''service'', JStr (ev_service e)), (''action'', JStr (ev_action e)),
       (''summary'', JStr (ev_summary e)), (''status'', JStr (ev_status e))] @
      omit_ptr enc_num ''durationMs'' (ev_duration_ms e) @
      omit_ptr JStr ''correlationId'' (ev_correlation_id e) @
      omit_ptr JStr ''parentEventId'' (ev_parent_event_id e) @
      omit_ptr enc_request ''request'' (ev_request e) @
      omit_ptr enc_response ''response'' (ev_response e) @
      omit_gomap sort_keys ''metadata'' (ev_metadata e) @
      omit_ptr enc_raw ''rawPayload'' (ev_raw_payload e) @
      omit_slice enc_annotation ''faults'' (ev_faults e))"

definition enc_scenario :: "scenario \<Rightarrow> json" where
  "enc_scenario s = JObj
     ([(''id'', JStr (sc_id s)), (''name'', JStr (sc_name s))] @
      omit_str ''description'' (sc_description s) @
      [(''status'', JStr (sc_status s)), (''startedAt'', enc_time (sc_started_at s))] @
      omit_ptr enc_time ''stoppedAt'' (sc_stopped_at s) @
      [(''eventCount'', enc_num (sc_event_count s)),
       (''replayableCount'', enc_num (sc_replayable_count s)),
       (''rootEventIds'', enc_strings (sc_root_event_ids s)), (''tags'', enc_strings (sc_tags s)),
       (''configSnapshotId'', JStr (sc_config_snapshot_id s)),
       (''redactionSummary'', enc_map_any (sc_redaction_summary s)),
       (''createdBy'', JStr (sc_created_by s))] @
      omit_str ''errorMessage'' (sc_error_message s))"

definition enc_replay_run :: "replay_run \<Rightarrow> json" where
  "enc_replay_run r = JObj
     ([(''id'', JStr (rr_id r)), (''scenarioId'', JStr (rr_scenario_id r)),
       (''startedAt'', enc_time (rr_started_at r))] @
      omit_ptr enc_time ''finishedAt'' (rr_finished_at r) @
      [(''status'', JStr (rr_status r)), (''targetBaseUrl'', JStr (rr_target_base_url r)),
       (''requestCount'', enc_num (rr_request_count r)),
       (''passedCount'', enc_num (rr_passed_count r)),
       (''failedCount'', enc_num (rr_failed_count r)),
       (''diffSummary'', enc_map_any (rr_diff_summary r)), (''createdBy'', JStr (rr_created_by r))] @
      omit_str ''errorMessage'' (rr_error_message r))"

definition zero_rule :: fault_rule where
  "zero_rule = \<lparr>fr_id = [], fr_name = [], fr_enabled = False, fr_kind = [], fr_scope = [],
     fr_match = zero_match, fr_action = zero_action, fr_safety = zero_safety,
     fr_created_at = zero_time, fr_updated_at = zero_time, fr_hit_count = 0,
     fr_last_applied_at = None\<rparr>"

definition enc_rule :: "fault_rule \<Rightarrow> json" where
  "enc_rule r = JObj
     ([(''id'', JStr (fr_id r)), (''name'', JStr (fr_name r)), (''enabled'', JBool (fr_enabled r)),
       (''kind'', JStr (fr_kind r)), (''scope'', JStr (fr_scope r)),
       (''match'', enc_match (fr_match r)), (''action'', enc_action (fr_action r)),
       (''safety'', enc_safety (fr_safety r)), (''createdAt'', enc_time (fr_created_at r)),
       (''updatedAt'', enc_time (fr_updated_at r)), (''hitCount'', enc_num (fr_hit_count r))] @
      omit_ptr enc_time ''lastAppliedAt'' (fr_last_applied_at r))"

definition dec_rule :: "float_text \<Rightarrow> fault_rule dec" where
  "dec_rule ft = dec_struct
     [(''id'', at_field dec_string fr_id fr_id_update),
      (''name'', at_field dec_string fr_name fr_name_update),
      (''enabled'', at_field dec_bool fr_enabled fr_enabled_update),
      (''kind'', at_field dec_string fr_kind fr_kind_update),
      (''scope'', at_field dec_string fr_scope fr_scope_update),
      (''match'', at_field dec_match fr_match fr_match_update),
      (''action'', at_field (dec_action ft) fr_action fr_action_update),
      (''safety'', at_field dec_safety fr_safety fr_safety_update),
      (''createdAt'', at_field dec_time fr_created_at fr_created_at_update),
      (''updatedAt'', at_field dec_time fr_updated_at fr_updated_at_update),
      (''hitCount'', at_field dec_num fr_hit_count fr_hit_count_update),
      (''lastAppliedAt'', at_field (dec_ptr dec_time zero_time) fr_last_applied_at fr_last_applied_at_update)]"

definition enc_service_health :: "service_health \<Rightarrow> json" where
  "enc_service_health h = JObj
     ([(''service'', JStr (sh_service h)), (''type'', JStr (sh_type h)), (''status'', JStr (sh_status h))] @
      omit_str ''endpoint'' (sh_endpoint h) @ omit_str ''containerId'' (sh_container_id h) @
      [(''lastCheckedAt'', enc_time (sh_last_checked_at h))] @
      omit_str ''message'' (sh_message h) @ omit_gomap sort_keys ''metadata'' (sh_metadata h))"

subsection \<open>Values of type \<open>any\<close> after a decode\<close>

text \<open>
  What the program relies on in \<open>strconv\<close>: the text printed for a \<open>float64\<close> is a JSON number
  and reads back as the same \<open>float64\<close>.
\<close>

definition float_text_ok :: "float_text \<Rightarrow> bool" where
  "float_text_ok ft = (\<forall>l t. is_number l \<longrightarrow> ft l = Some t \<longrightarrow> is_number t \<and> ft t = Some t)"

lemma float_text_okD:
  "float_text_ok ft \<Longrightarrow> is_number l \<Longrightarrow> ft l = Some t \<Longrightarrow> is_number t \<and> ft t = Some t"
  unfolding float_text_ok_def by blast

lemma last_wins_mem: "(k, v) \<in> set (last_wins ms) \<Longrightarrow> (k, v) \<in> set ms"
proof -
  assume "(k, v) \<in> set (last_wins ms)"
  then have "map_of (last_wins ms) k = Some v" by (simp add: map_of_is_SomeI)
  then have "map_of (rev ms) k = Some v" by (simp add: map_of_last_wins)
  then show ?thesis using map_of_SomeD by fastforce
qed

lemma to_any_ok: "float_text_ok ft \<Longrightarrow> json_ok v \<Longrightarrow> to_any ft v = (b, x) \<Longrightarrow> any_ok ft x"
proof (induction v arbitrary: b x)
  case (JNum l)
  then show ?case using float_text_okD [OF JNum(1), of l] by (cases "ft l") auto
next
  case (JArr vs)
  have "any_ok ft (snd (to_any ft v))" if "v \<in> set vs" for v
    by (rule JArr.IH [OF that JArr.prems(1) _ prod.collapse [symmetric]]) (use JArr.prems(2) that in simp)
  then show ?case using JArr.prems(3) by auto
next
  case (JObj ms)
  have "valid_utf8 k \<and> any_ok ft (snd (to_any ft v))" if "(k, v) \<in> set ms" for k v
  proof -
    have "v \<in> Basic_BNFs.snds (k, v)" by (simp add: snds.simps)
    moreover have "valid_utf8 k" "json_ok v" using JObj.prems(2) that by auto
    ultimately show ?thesis
      using JObj.IH [OF that _ JObj.prems(1) _ prod.collapse [symmetric]] by blast
  qed
  then show ?case using JObj.prems(3) by (auto dest!: last_wins_mem)
qed auto

lemma to_any_depth: "json_depth (snd (to_any ft v)) \<le> json_depth v"
proof (induction v)
  case (JNum l)
  then show ?case by (auto split: option.splits)
next
  case (JArr vs)
  have "json_depth (snd (to_any ft v)) \<le> foldr max (map json_depth vs) 0" if "v \<in> set vs" for v
    using JArr.IH [OF that] foldr_max_le [of json_depth vs "foldr max (map json_depth vs) 0"] that
    by (meson order.trans order_refl)
  then show ?case by (simp add: foldr_max_le)
next
  case (JObj ms)
  let ?n = "foldr max (map (\<lambda>(k, v). json_depth v) ms) 0"
  have "json_depth (snd (to_any ft v)) \<le> ?n" if "(k, v) \<in> set ms" for k v
    using JObj.IH [of "(k, v)" v] foldr_max_le [of "\<lambda>(k, v). json_depth v" ms ?n] that
    by (fastforce simp: snds.simps)
  then show ?case by (auto simp: foldr_max_le dest!: last_wins_mem)
qed auto

lemma put_entry_keys: "distinct (map fst (snd acc)) \<Longrightarrow>
  distinct (map fst (snd (foldl (put_entry d z) acc ms)))"
  by (induction ms arbitrary: acc) (auto simp: put_entry_def split: prod.split)

lemma AList_update_mem: "(k', v') \<in> set (AList.update k v m) \<Longrightarrow> (k', v') = (k, v) \<or> (k', v') \<in> set m"
  by (induction m) (auto split: if_splits)

lemma put_entry_mem:
  "(k, x) \<in> set (snd (foldl (put_entry d z) acc ms)) \<Longrightarrow>
   (k, x) \<in> set (snd acc) \<or> (\<exists>v. (k, v) \<in> set ms \<and> x = snd (d v z))"
proof (induction ms arbitrary: acc)
  case (Cons kv ms)
  from Cons.IH [of "put_entry d z acc kv"] Cons.prems show ?case
    by (cases kv; cases acc) (auto simp: put_entry_def split: prod.splits dest!: AList_update_mem)
qed simp

text \<open>A decoded \<open>map[string]any\<close>: distinct UTF-8 keys, canonical values.\<close>

definition any_entries :: "float_text \<Rightarrow> (string \<times> json) list \<Rightarrow> bool" where
  "any_entries ft l =
     (distinct (map fst l) \<and> (\<forall>(k, v) \<in> set l. valid_utf8 k \<and> any_ok ft v) \<and>
      json_depth (JObj l) \<le> max_nesting)"

lemma unmarshal_map_any_ok:
  assumes ft: "float_text_ok ft" and u: "unmarshal (dec_map_any ft) s None = (b, Some l)"
  shows "any_entries ft l"
proof -
  from u obtain v where v: "json_unmarshal s = Some v" "dec_map_any ft v None = (b, Some l)"
    by (auto simp: unmarshal_def split: option.splits)
  then obtain ms where ms: "v = JObj ms"
    and a: "apsnd Some (foldl (put_entry (dec_any ft) JNull) (True, []) ms) = (b, Some l)"
    by (cases v) (auto simp: dec_map_any_def dec_gomap_def)
  then have l: "l = snd (foldl (put_entry (dec_any ft) JNull) (True, []) ms)"
    by (metis option.sel snd_apsnd snd_conv)
  have ok: "json_ok (JObj ms)" and d: "json_depth (JObj ms) \<le> max_nesting"
    using json_unmarshal_ok [OF v(1)] ms by simp_all
  have mem: "\<exists>w. (k, w) \<in> set ms \<and> x = snd (to_any ft w)" if "(k, x) \<in> set l" for k x
    using put_entry_mem that unfolding l dec_any_def by fastforce
  have "distinct (map fst l)" unfolding l by (rule put_entry_keys) simp
  moreover have "valid_utf8 k \<and> any_ok ft x" if kx: "(k, x) \<in> set l" for k x
  proof -
    obtain w where w: "(k, w) \<in> set ms" "x = snd (to_any ft w)" using mem [OF kx] by blast
    then have "valid_utf8 k" "json_ok w" using ok by auto
    with w(2) to_any_ok [OF ft] show ?thesis by (metis prod.collapse)
  qed
  moreover have "json_depth (JObj l) \<le> json_depth (JObj ms)"
  proof -
    have "json_depth x \<le> foldr max (map (\<lambda>(k, v). json_depth v) ms) 0" if kx: "(k, x) \<in> set l" for k x
    proof -
      obtain w where w: "(k, w) \<in> set ms" "x = snd (to_any ft w)" using mem [OF kx] by blast
      have "json_depth w \<le> foldr max (map (\<lambda>(k, v). json_depth v) ms) 0"
        using foldr_max_le [of "\<lambda>(k, v). json_depth v" ms "foldr max (map (\<lambda>(k, v). json_depth v) ms) 0"] w(1)
        by auto
      with to_any_depth [of ft w] w(2) show ?thesis by simp
    qed
    then show ?thesis by (auto simp: foldr_max_le)
  qed
  ultimately show ?thesis using d by (auto simp: any_entries_def)
qed

lemma json_depth_obj:
  "json_depth (JObj l) \<le> n \<longleftrightarrow> 0 < n \<and> (\<forall>(k, v) \<in> set l. json_depth v < n)"
  by (cases n) (auto simp: foldr_max_le less_Suc_eq_le)

lemma any_entries_sort:
  "any_entries ft l \<Longrightarrow> metadata_ok ft (Some (sort_key fst l))"
  by (auto simp: any_entries_def metadata_ok_def map_ok_def distinct_keys_sort map_depth_def
      json_depth_obj simp del: json_depth.simps)

lemma enc_map_any_sort:
  assumes "any_entries ft l"
  shows "enc_map_any (Some l) = enc_map_any (Some (sort_key fst l))"
proof -
  have "map (\<lambda>(k, v). (k, sort_keys v)) l = l"
    using assms by (intro map_idI) (auto simp: any_entries_def any_ok_sort_keys)
  moreover have "map (\<lambda>(k, v). (k, sort_keys v)) (sort_key fst l) = sort_key fst l"
    using assms by (intro map_idI) (auto simp: any_entries_def any_ok_sort_keys)
  ultimately show ?thesis by (simp add: enc_map_any_def enc_gomap_def sort_key_id_if_sorted)
qed

text \<open>What \<open>json.Marshal\<close> writes for such a map reads back as the same map, keys sorted.\<close>

lemma map_any_reads_back:
  assumes "any_entries ft l"
  shows "unmarshal (dec_map_any ft) (json_column enc_map_any (Some l)) None = (True, Some (sort_key fst l))"
  using map_codec.column_roundtrip [OF any_entries_sort [OF assms]] enc_map_any_sort [OF assms]
  by (simp add: json_column_def)

end
