(* ===== verification/Storage.thy ===== *)
theory Storage
  imports Timeline
begin

section \<open>The database (\<open>internal/storage\<close>)\<close>

text \<open>
  The SQLite database as the rows of its tables, in insertion order, and the repositories as
  functions on it. A row has the columns of the schema in \<open>db.go\<close>, JSON columns as text. A
  statement first meets the environment: \<open>db_fail\<close> lists which of the coming statements fail with
  an I/O error (a locked or closed database), the empty list is a database that does not fail. An
  insert or update then meets the constraints of the schema in SQLite's order: \<open>CHECK\<close>, the
  primary key and \<open>UNIQUE\<close>, the foreign keys (\<open>_foreign_keys=on\<close>). Rows that tie in an
  \<open>ORDER BY\<close> come in insertion order. \<open>adapter_status\<close> is created but never used. An operation
  returns its result, \<open>Inl\<close> for the error, and the database.
\<close>

datatype db_error =
    IoError
  | CheckFailed
  | UniqueFailed
  | ForeignKeyFailed
  | NoRows
  | BadColumn string

subsection \<open>Rows and tables\<close>

record snapshot_row =
  cfr_id :: string
  cfr_created_at_ms :: int
  cfr_hash :: string
  cfr_config_json :: string
  cfr_validation_json :: string

record scenario_row =
  scr_id :: string
  scr_name :: string
  scr_description :: string
  scr_status :: string
  scr_started_at_ms :: int
  scr_stopped_at_ms :: "int option"
  scr_event_count :: int
  scr_replayable_count :: int
  scr_root_event_ids_json :: string
  scr_tags_json :: string
  scr_config_snapshot_id :: string
  scr_redaction_summary_json :: string
  scr_created_by :: string
  scr_error_message :: string

record run_row =
  rnr_id :: string
  rnr_scenario_id :: string
  rnr_started_at_ms :: int
  rnr_finished_at_ms :: "int option"
  rnr_status :: string
  rnr_target_base_url :: string
  rnr_request_count :: int
  rnr_passed_count :: int
  rnr_failed_count :: int
  rnr_diff_summary_json :: string
  rnr_created_by :: string
  rnr_error_message :: string

record event_row =
  evr_id :: string
  evr_run_id :: string
  evr_scenario_id :: "string option"
  evr_replay_run_id :: "string option"
  evr_timestamp_ms :: int
  evr_source :: string
  evr_service :: string
  evr_action :: string
  evr_summary :: string
  evr_status :: string
  evr_duration_ms :: "int option"
  evr_correlation_id :: "string option"
  evr_parent_event_id :: "string option"
  evr_request_json :: "string option"
  evr_response_json :: "string option"
  evr_metadata_json :: string
  evr_raw_payload_json :: "string option"
  evr_faults_json :: string
  evr_created_at_ms :: int

record service_row =
  svr_service :: string
  svr_type :: string
  svr_status :: string
  svr_endpoint :: string
  svr_container_id :: string
  svr_last_checked_at_ms :: int
  svr_message :: string
  svr_metadata_json :: string

record rule_row =
  flr_id :: string
  flr_name :: string
  flr_enabled :: int
  flr_kind :: string
  flr_scope :: string
  flr_match_json :: string
  flr_action_json :: string
  flr_safety_json :: string
  flr_hit_count :: int
  flr_last_applied_at_ms :: "int option"
  flr_created_at_ms :: int
  flr_updated_at_ms :: int

record db =
  db_snaps :: "snapshot_row list"
  db_scens :: "scenario_row list"
  db_runs :: "run_row list"
  db_events :: "event_row list"
  db_services :: "service_row list"
  db_rules :: "rule_row list"
  db_fail :: "bool list"

definition empty_db :: db where
  "empty_db = \<lparr>db_snaps = [], db_scens = [], db_runs = [], db_events = [], db_services = [],
     db_rules = [], db_fail = []\<rparr>"

type_synonym 'a db_op = "db \<Rightarrow> (db_error + 'a) \<times> db"

subsection \<open>Statements\<close>

definition statement :: "'a db_op \<Rightarrow> 'a db_op" where
  "statement act st =
     (case db_fail st of
        [] \<Rightarrow> act st
      | b # bs \<Rightarrow> (if b then (Inl IoError, st\<lparr>db_fail := bs\<rparr>) else act (st\<lparr>db_fail := bs\<rparr>)))"

definition insert_row ::
    "(db \<Rightarrow> bool) \<Rightarrow> (db \<Rightarrow> bool) \<Rightarrow> (db \<Rightarrow> bool) \<Rightarrow> (db \<Rightarrow> db) \<Rightarrow> unit db_op" where
  "insert_row chk uniq fk upd st =
     (if \<not> chk st then (Inl CheckFailed, st)
      else if \<not> uniq st then (Inl UniqueFailed, st)
      else if \<not> fk st then (Inl ForeignKeyFailed, st)
      else (Inr (), upd st))"

definition in_table :: "('r \<Rightarrow> 'k) \<Rightarrow> 'k \<Rightarrow> 'r list \<Rightarrow> bool" where
  "in_table key k rows = (k \<in> set (map key rows))"

definition ref_ok :: "('r \<Rightarrow> 'k) \<Rightarrow> 'k option \<Rightarrow> 'r list \<Rightarrow> bool" where
  "ref_ok key p rows = (case p of None \<Rightarrow> True | Some k \<Rightarrow> in_table key k rows)"

definition select_one :: "('r \<Rightarrow> bool) \<Rightarrow> 'r list \<Rightarrow> 'r option" where
  "select_one P rows = find P rows"

definition newest_first :: "('r \<Rightarrow> int) \<Rightarrow> 'r list \<Rightarrow> 'r list" where
  "newest_first f rows = sort_key (\<lambda>r. - f r) rows"

definition sql_limit :: "int \<Rightarrow> 'r list \<Rightarrow> 'r list" where
  "sql_limit n rows = (if n < 0 then rows else take (nat n) rows)"

subsection \<open>Events: columns\<close>

definition null_json :: "string \<Rightarrow> string option" where
  "null_json s = (if s = ''null'' \<or> s = [] then None else Some s)"

definition event_row_of :: "instant \<Rightarrow> timeline_event \<Rightarrow> event_row" where
  "event_row_of now e =
     \<lparr>evr_id = ev_id e, evr_run_id = ev_run_id e, evr_scenario_id = ev_scenario_id e,
      evr_replay_run_id = ev_replay_run_id e, evr_timestamp_ms = unix_milli (ev_timestamp e),
      evr_source = ev_source e, evr_service = ev_service e, evr_action = ev_action e,
      evr_summary = ev_summary e, evr_status = ev_status e, evr_duration_ms = ev_duration_ms e,
      evr_correlation_id = ev_correlation_id e, evr_parent_event_id = ev_parent_event_id e,
      evr_request_json = null_json (json_column (enc_ptr enc_request) (ev_request e)),
      evr_response_json = null_json (json_column (enc_ptr enc_response) (ev_response e)),
      evr_metadata_json = json_column enc_map_any (ev_metadata e),
      evr_raw_payload_json = null_json (json_column (enc_ptr enc_raw) (ev_raw_payload e)),
      evr_faults_json = json_column enc_faults (ev_faults e),
      evr_created_at_ms = unix_milli now\<rparr>"

definition scan_ptr :: "'a dec \<Rightarrow> 'a \<Rightarrow> string \<Rightarrow> string option \<Rightarrow> db_error + 'a option" where
  "scan_ptr d z what col =
     (case col of
        None \<Rightarrow> Inr None
      | Some s \<Rightarrow>
          (if s = [] \<or> s = ''null'' then Inr None
           else case unmarshal d s z of (ok, x) \<Rightarrow> if ok then Inr (Some x) else Inl (BadColumn what)))"

definition scan_value :: "'a dec \<Rightarrow> 'a \<Rightarrow> string \<Rightarrow> string \<Rightarrow> string \<Rightarrow> db_error + 'a" where
  "scan_value d z what skip s =
     (if s = [] \<or> s = skip then Inr z
      else case unmarshal d s z of (ok, x) \<Rightarrow> if ok then Inr x else Inl (BadColumn what))"

definition bind_sum :: "'e + 'a \<Rightarrow> ('a \<Rightarrow> 'e + 'b) \<Rightarrow> 'e + 'b" where
  "bind_sum m f = (case m of Inl e \<Rightarrow> Inl e | Inr x \<Rightarrow> f x)"

lemma bind_sum_simps [simp]: "bind_sum (Inr x) f = f x" "bind_sum (Inl e) f = Inl e"
  by (simp_all add: bind_sum_def)

definition scan_event :: "float_text \<Rightarrow> event_row \<Rightarrow> db_error + timeline_event" where
  "scan_event ft r =
     bind_sum (scan_ptr dec_request zero_request ''request'' (evr_request_json r)) (\<lambda>req.
     bind_sum (scan_ptr dec_response zero_response ''response'' (evr_response_json r)) (\<lambda>resp.
     bind_sum (scan_value (dec_map_any ft) None ''metadata'' ''{}'' (evr_metadata_json r)) (\<lambda>meta.
     bind_sum (scan_ptr dec_raw zero_raw ''raw payload'' (evr_raw_payload_json r)) (\<lambda>raw.
     bind_sum (scan_value dec_faults None ''faults'' ''[]'' (evr_faults_json r)) (\<lambda>flts.
       Inr \<lparr>ev_id = evr_id r, ev_run_id = evr_run_id r, ev_scenario_id = evr_scenario_id r,
         ev_replay_run_id = evr_replay_run_id r,
         ev_timestamp = of_unix_milli (evr_timestamp_ms r), ev_source = evr_source r,
         ev_service = evr_service r, ev_action = evr_action r, ev_summary = evr_summary r,
         ev_status = evr_status r, ev_duration_ms = evr_duration_ms r,
         ev_correlation_id = evr_correlation_id r, ev_parent_event_id = evr_parent_event_id r,
         ev_request = req, ev_response = resp, ev_metadata = meta, ev_raw_payload = raw,
         ev_faults = flts\<rparr>)))))"

text \<open>Rows are scanned one by one; the first that does not scan ends the query with its error.\<close>

fun scan_all :: "('r \<Rightarrow> db_error + 'a) \<Rightarrow> 'r list \<Rightarrow> db_error + 'a list" where
  "scan_all f [] = Inr []"
| "scan_all f (r # rs) = bind_sum (f r) (\<lambda>x. bind_sum (scan_all f rs) (\<lambda>xs. Inr (x # xs)))"

subsection \<open>\<open>EventRepository\<close>\<close>

definition event_insert :: "instant \<Rightarrow> timeline_event \<Rightarrow> unit db_op" where
  "event_insert now e = statement
     (insert_row
        (\<lambda>st. ev_status e \<in> set event_statuses)
        (\<lambda>st. \<not> in_table evr_id (ev_id e) (db_events st))
        (\<lambda>st. ref_ok scr_id (ev_scenario_id e) (db_scens st)
            \<and> ref_ok rnr_id (ev_replay_run_id e) (db_runs st)
            \<and> ref_ok evr_id (ev_parent_event_id e) (db_events st @ [event_row_of now e]))
        (\<lambda>st. st\<lparr>db_events := db_events st @ [event_row_of now e]\<rparr>))"

definition event_list_by_timestamp :: "float_text \<Rightarrow> int \<Rightarrow> int \<Rightarrow> timeline_event list db_op" where
  "event_list_by_timestamp ft limit cursor = statement (\<lambda>st.
     (scan_all (scan_event ft)
        (sql_limit limit (newest_first evr_timestamp_ms
           (if cursor > 0 then filter (\<lambda>r. evr_timestamp_ms r < cursor) (db_events st)
            else db_events st))), st))"

definition event_list_by_scenario :: "float_text \<Rightarrow> string \<Rightarrow> timeline_event list db_op" where
  "event_list_by_scenario ft sid = statement (\<lambda>st.
     (scan_all (scan_event ft)
        (sort_key evr_timestamp_ms (filter (\<lambda>r. evr_scenario_id r = Some sid) (db_events st))), st))"

definition event_list_by_replay_run :: "float_text \<Rightarrow> string \<Rightarrow> timeline_event list db_op" where
  "event_list_by_replay_run ft rid = statement (\<lambda>st.
     (scan_all (scan_event ft)
        (sort_key evr_timestamp_ms (filter (\<lambda>r. evr_replay_run_id r = Some rid) (db_events st))), st))"

definition event_get_by_id :: "float_text \<Rightarrow> string \<Rightarrow> timeline_event option db_op" where
  "event_get_by_id ft i = statement (\<lambda>st.
     (case select_one (\<lambda>r. evr_id r = i) (db_events st) of
        None \<Rightarrow> Inr None
      | Some r \<Rightarrow> bind_sum (scan_event ft r) (\<lambda>e. Inr (Some e)), st))"

definition event_count :: "int \<Rightarrow> int db_op" where
  "event_count since = statement (\<lambda>st.
     (Inr (int (length (if since > 0 then filter (\<lambda>r. since \<le> evr_timestamp_ms r) (db_events st)
                        else db_events st))), st))"

subsection \<open>\<open>ScenarioRepository\<close>\<close>

definition scenario_row_of :: "scenario \<Rightarrow> scenario_row" where
  "scenario_row_of s =
     \<lparr>scr_id = sc_id s, scr_name = sc_name s, scr_description = sc_description s,
      scr_status = sc_status s, scr_started_at_ms = unix_milli (sc_started_at s),
      scr_stopped_at_ms = map_option unix_milli (sc_stopped_at s),
      scr_event_count = sc_event_count s, scr_replayable_count = sc_replayable_count s,
      scr_root_event_ids_json = json_column enc_strings (sc_root_event_ids s),
      scr_tags_json = json_column enc_strings (sc_tags s),
      scr_config_snapshot_id = sc_config_snapshot_id s,
      scr_redaction_summary_json = json_column enc_map_any (sc_redaction_summary s),
      scr_created_by = sc_created_by s, scr_error_message = sc_error_message s\<rparr>"

definition scan_scenario :: "float_text \<Rightarrow> scenario_row \<Rightarrow> scenario" where
  "scan_scenario ft r =
     \<lparr>sc_id = scr_id r, sc_name = scr_name r, sc_description = scr_description r,
      sc_status = scr_status r, sc_started_at = of_unix_milli (scr_started_at_ms r),
      sc_stopped_at = map_option of_unix_milli (scr_stopped_at_ms r),
      sc_event_count = scr_event_count r, sc_replayable_count = scr_replayable_count r,
      sc_root_event_ids = snd (unmarshal dec_strings (scr_root_event_ids_json r) None),
      sc_tags = snd (unmarshal dec_strings (scr_tags_json r) None),
      sc_config_snapshot_id = scr_config_snapshot_id r,
      sc_redaction_summary = snd (unmarshal (dec_map_any ft) (scr_redaction_summary_json r) None),
      sc_created_by = scr_created_by r, sc_error_message = scr_error_message r\<rparr>"

definition scenario_insert :: "scenario \<Rightarrow> unit db_op" where
  "scenario_insert s = statement
     (insert_row
        (\<lambda>st. sc_status s \<in> set scenario_statuses)
        (\<lambda>st. \<not> in_table scr_id (sc_id s) (db_scens st) \<and> \<not> in_table scr_name (sc_name s) (db_scens st))
        (\<lambda>st. in_table cfr_id (sc_config_snapshot_id s) (db_snaps st))
        (\<lambda>st. st\<lparr>db_scens := db_scens st @ [scenario_row_of s]\<rparr>))"

definition scenario_update_status ::
    "string \<Rightarrow> string \<Rightarrow> instant option \<Rightarrow> int \<Rightarrow> int \<Rightarrow> string \<Rightarrow> unit db_op" where
  "scenario_update_status i status stopped n k msg = statement (\<lambda>st.
     (if in_table scr_id i (db_scens st) \<and> status \<notin> set scenario_statuses then (Inl CheckFailed, st)
      else (Inr (), st\<lparr>db_scens := map (\<lambda>r. if scr_id r = i
          then r\<lparr>scr_status := status, scr_stopped_at_ms := map_option unix_milli stopped,
                 scr_event_count := n, scr_replayable_count := k, scr_error_message := msg\<rparr>
          else r) (db_scens st)\<rparr>)))"

text \<open>
  \<open>scanScenario\<close> returns a pointer and an error: without a row the error is \<open>sql.ErrNoRows\<close>, and a
  pointer that comes without an error is never nil.
\<close>

definition scenario_select :: "float_text \<Rightarrow> (scenario_row \<Rightarrow> bool) \<Rightarrow> scenario option db_op" where
  "scenario_select ft P = statement (\<lambda>st.
     (case select_one P (db_scens st) of
        None \<Rightarrow> Inl NoRows
      | Some r \<Rightarrow> Inr (Some (scan_scenario ft r)), st))"

definition scenario_get_by_id :: "float_text \<Rightarrow> string \<Rightarrow> scenario option db_op" where
  "scenario_get_by_id ft i = scenario_select ft (\<lambda>r. scr_id r = i)"

definition scenario_get_by_name :: "float_text \<Rightarrow> string \<Rightarrow> scenario option db_op" where
  "scenario_get_by_name ft name = scenario_select ft (\<lambda>r. scr_name r = name)"

definition scenario_list :: "float_text \<Rightarrow> scenario list db_op" where
  "scenario_list ft = statement (\<lambda>st.
     (Inr (map (scan_scenario ft) (newest_first scr_started_at_ms (db_scens st))), st))"

definition scenario_get_active_recording :: "float_text \<Rightarrow> scenario option db_op" where
  "scenario_get_active_recording ft st =
     (case scenario_select ft (\<lambda>r. scr_status r = ''recording'') st of
        (Inr s, st') \<Rightarrow> (Inr s, st')
      | (Inl NoRows, st') \<Rightarrow> (Inr None, st')
      | (Inl e, st') \<Rightarrow> (Inl e, st'))"

definition scenario_delete :: "string \<Rightarrow> unit db_op" where
  "scenario_delete i = statement (\<lambda>st.
     (if in_table scr_id i (db_scens st) \<and>
         (in_table rnr_scenario_id i (db_runs st) \<or> in_table evr_scenario_id (Some i) (db_events st))
      then (Inl ForeignKeyFailed, st)
      else (Inr (), st\<lparr>db_scens := filter (\<lambda>r. scr_id r \<noteq> i) (db_scens st)\<rparr>)))"

subsection \<open>\<open>ReplayRunRepository\<close>\<close>

definition run_row_of :: "replay_run \<Rightarrow> run_row" where
  "run_row_of r =
     \<lparr>rnr_id = rr_id r, rnr_scenario_id = rr_scenario_id r,
      rnr_started_at_ms = unix_milli (rr_started_at r),
      rnr_finished_at_ms = map_option unix_milli (rr_finished_at r), rnr_status = rr_status r,
      rnr_target_base_url = rr_target_base_url r, rnr_request_count = rr_request_count r,
      rnr_passed_count = rr_passed_count r, rnr_failed_count = rr_failed_count r,
      rnr_diff_summary_json = json_column enc_map_any (rr_diff_summary r),
      rnr_created_by = rr_created_by r, rnr_error_message = rr_error_message r\<rparr>"

definition scan_run :: "float_text \<Rightarrow> run_row \<Rightarrow> replay_run" where
  "scan_run ft r =
     \<lparr>rr_id = rnr_id r, rr_scenario_id = rnr_scenario_id r,
      rr_started_at = of_unix_milli (rnr_started_at_ms r),
      rr_finished_at = map_option of_unix_milli (rnr_finished_at_ms r), rr_status = rnr_status r,
      rr_target_base_url = rnr_target_base_url r, rr_request_count = rnr_request_count r,
      rr_passed_count = rnr_passed_count r, rr_failed_count = rnr_failed_count r,
      rr_diff_summary = snd (unmarshal (dec_map_any ft) (rnr_diff_summary_json r) None),
      rr_created_by = rnr_created_by r, rr_error_message = rnr_error_message r\<rparr>"

definition run_insert :: "replay_run \<Rightarrow> unit db_op" where
  "run_insert r = statement
     (insert_row
        (\<lambda>st. rr_status r \<in> set replay_statuses)
        (\<lambda>st. \<not> in_table rnr_id (rr_id r) (db_runs st))
        (\<lambda>st. in_table scr_id (rr_scenario_id r) (db_scens st))
        (\<lambda>st. st\<lparr>db_runs := db_runs st @ [run_row_of r]\<rparr>))"

definition run_update_status ::
    "string \<Rightarrow> string \<Rightarrow> instant option \<Rightarrow> int \<Rightarrow> int \<Rightarrow> json gomap \<Rightarrow> string \<Rightarrow> unit db_op" where
  "run_update_status i status finished passed failed diff msg = statement (\<lambda>st.
     (if in_table rnr_id i (db_runs st) \<and> status \<notin> set replay_statuses then (Inl CheckFailed, st)
      else (Inr (), st\<lparr>db_runs := map (\<lambda>r. if rnr_id r = i
          then r\<lparr>rnr_status := status, rnr_finished_at_ms := map_option unix_milli finished,
                 rnr_passed_count := passed, rnr_failed_count := failed,
                 rnr_diff_summary_json := json_column enc_map_any diff, rnr_error_message := msg\<rparr>
          else r) (db_runs st)\<rparr>)))"

definition run_get_by_id :: "float_text \<Rightarrow> string \<Rightarrow> replay_run option db_op" where
  "run_get_by_id ft i = statement (\<lambda>st.
     (Inr (map_option (scan_run ft) (select_one (\<lambda>r. rnr_id r = i) (db_runs st))), st))"

definition run_list_by_scenario :: "float_text \<Rightarrow> string \<Rightarrow> replay_run list db_op" where
  "run_list_by_scenario ft sid = statement (\<lambda>st.
     (Inr (map (scan_run ft)
        (newest_first rnr_started_at_ms (filter (\<lambda>r. rnr_scenario_id r = sid) (db_runs st)))), st))"

subsection \<open>\<open>FaultRuleRepository\<close>\<close>

definition rule_row_of :: "fault_rule \<Rightarrow> rule_row" where
  "rule_row_of r =
     \<lparr>flr_id = fr_id r, flr_name = fr_name r, flr_enabled = (if fr_enabled r then 1 else 0),
      flr_kind = fr_kind r, flr_scope = fr_scope r,
      flr_match_json = json_column enc_match (fr_match r),
      flr_action_json = json_column enc_action (fr_action r),
      flr_safety_json = json_column enc_safety (fr_safety r), flr_hit_count = fr_hit_count r,
      flr_last_applied_at_ms = map_option unix_milli (fr_last_applied_at r),
      flr_created_at_ms = unix_milli (fr_created_at r),
      flr_updated_at_ms = unix_milli (fr_updated_at r)\<rparr>"

definition scan_rule :: "float_text \<Rightarrow> rule_row \<Rightarrow> fault_rule" where
  "scan_rule ft r =
     \<lparr>fr_id = flr_id r, fr_name = flr_name r, fr_enabled = (flr_enabled r = 1),
      fr_kind = flr_kind r, fr_scope = flr_scope r,
      fr_match = snd (unmarshal dec_match (flr_match_json r) zero_match),
      fr_action = snd (unmarshal (dec_action ft) (flr_action_json r) zero_action),
      fr_safety = snd (unmarshal dec_safety (flr_safety_json r) zero_safety),
      fr_created_at = of_unix_milli (flr_created_at_ms r),
      fr_updated_at = of_unix_milli (flr_updated_at_ms r), fr_hit_count = flr_hit_count r,
      fr_last_applied_at = map_option of_unix_milli (flr_last_applied_at_ms r)\<rparr>"

definition rule_insert :: "fault_rule \<Rightarrow> unit db_op" where
  "rule_insert r = statement
     (insert_row
        (\<lambda>st. fr_scope r \<in> set fault_scopes)
        (\<lambda>st. \<not> in_table flr_id (fr_id r) (db_rules st) \<and> \<not> in_table flr_name (fr_name r) (db_rules st))
        (\<lambda>st. True)
        (\<lambda>st. st\<lparr>db_rules := db_rules st @ [rule_row_of r]\<rparr>))"

definition rule_list :: "float_text \<Rightarrow> fault_rule list db_op" where
  "rule_list ft = statement (\<lambda>st.
     (Inr (map (scan_rule ft) (sort_key flr_created_at_ms (db_rules st))), st))"

definition update_rules :: "string \<Rightarrow> (rule_row \<Rightarrow> rule_row) \<Rightarrow> unit db_op" where
  "update_rules i f st =
     (Inr (), st\<lparr>db_rules := map (\<lambda>r. if flr_id r = i then f r else r) (db_rules st)\<rparr>)"

definition rule_set_enabled :: "instant \<Rightarrow> string \<Rightarrow> bool \<Rightarrow> unit db_op" where
  "rule_set_enabled now i b = statement
     (update_rules i (\<lambda>r. r\<lparr>flr_enabled := (if b then 1 else 0), flr_updated_at_ms := unix_milli now\<rparr>))"

definition rule_increment_hit_count :: "instant \<Rightarrow> instant \<Rightarrow> string \<Rightarrow> unit db_op" where
  "rule_increment_hit_count now now' i = statement
     (update_rules i (\<lambda>r. r\<lparr>flr_hit_count := flr_hit_count r + 1,
        flr_last_applied_at_ms := Some (unix_milli now), flr_updated_at_ms := unix_milli now'\<rparr>))"

definition rule_delete :: "string \<Rightarrow> unit db_op" where
  "rule_delete i = statement (\<lambda>st.
     (Inr (), st\<lparr>db_rules := filter (\<lambda>r. flr_id r \<noteq> i) (db_rules st)\<rparr>))"

subsection \<open>\<open>ConfigSnapshotRepository\<close> and \<open>ServiceRepository\<close>\<close>

definition snapshot_row_of :: "config_snapshot \<Rightarrow> snapshot_row" where
  "snapshot_row_of s =
     \<lparr>cfr_id = cs_id s, cfr_created_at_ms = unix_milli (cs_created_at s), cfr_hash = cs_hash s,
      cfr_config_json = cs_config_json s, cfr_validation_json = cs_validation_json s\<rparr>"

definition snapshot_insert :: "config_snapshot \<Rightarrow> unit db_op" where
  "snapshot_insert s = statement (\<lambda>st.
     (if in_table cfr_id (cs_id s) (db_snaps st) \<or> in_table cfr_hash (cs_hash s) (db_snaps st)
      then (Inr (), st)
      else (Inr (), st\<lparr>db_snaps := db_snaps st @ [snapshot_row_of s]\<rparr>)))"

definition scan_snapshot :: "snapshot_row \<Rightarrow> config_snapshot" where
  "scan_snapshot r =
     \<lparr>cs_id = cfr_id r, cs_created_at = of_unix_milli (cfr_created_at_ms r), cs_hash = cfr_hash r,
      cs_config_json = cfr_config_json r, cs_validation_json = cfr_validation_json r\<rparr>"

definition snapshot_get_by_hash :: "string \<Rightarrow> config_snapshot option db_op" where
  "snapshot_get_by_hash h = statement (\<lambda>st.
     (Inr (map_option scan_snapshot (select_one (\<lambda>r. cfr_hash r = h) (db_snaps st))), st))"

definition service_row_of :: "service_health \<Rightarrow> service_row" where
  "service_row_of h =
     \<lparr>svr_service = sh_service h, svr_type = sh_type h, svr_status = sh_status h,
      svr_endpoint = sh_endpoint h, svr_container_id = sh_container_id h,
      svr_last_checked_at_ms = unix_milli (sh_last_checked_at h), svr_message = sh_message h,
      svr_metadata_json = json_column enc_map_any (sh_metadata h)\<rparr>"

text \<open>The conflict clause updates every column but the name and the type.\<close>

definition service_upsert :: "service_health \<Rightarrow> unit db_op" where
  "service_upsert h = statement (\<lambda>st.
     (if sh_status h \<notin> set service_statuses then (Inl CheckFailed, st)
      else if in_table svr_service (sh_service h) (db_services st)
      then (Inr (), st\<lparr>db_services := map (\<lambda>r. if svr_service r = sh_service h
          then (service_row_of h)\<lparr>svr_type := svr_type r\<rparr> else r) (db_services st)\<rparr>)
      else (Inr (), st\<lparr>db_services := db_services st @ [service_row_of h]\<rparr>)))"

definition scan_service :: "float_text \<Rightarrow> service_row \<Rightarrow> service_health" where
  "scan_service ft r =
     \<lparr>sh_service = svr_service r, sh_type = svr_type r, sh_status = svr_status r,
      sh_endpoint = svr_endpoint r, sh_container_id = svr_container_id r,
      sh_last_checked_at = of_unix_milli (svr_last_checked_at_ms r), sh_message = svr_message r,
      sh_metadata = snd (unmarshal (dec_map_any ft) (svr_metadata_json r) None)\<rparr>"

definition service_list :: "float_text \<Rightarrow> service_health list db_op" where
  "service_list ft = statement (\<lambda>st.
     (Inr (map (scan_service ft) (sort_key svr_service (db_services st))), st))"

subsection \<open>What the schema promises\<close>

text \<open>
  Primary keys and unique columns, the status checks, and the foreign keys.
\<close>

definition keys_ok :: "db \<Rightarrow> bool" where
  "keys_ok st =
     (distinct (map cfr_id (db_snaps st)) \<and> distinct (map cfr_hash (db_snaps st)) \<and>
      distinct (map scr_id (db_scens st)) \<and> distinct (map scr_name (db_scens st)) \<and>
      distinct (map rnr_id (db_runs st)) \<and> distinct (map evr_id (db_events st)) \<and>
      distinct (map svr_service (db_services st)) \<and>
      distinct (map flr_id (db_rules st)) \<and> distinct (map flr_name (db_rules st)))"

definition checks_ok :: "db \<Rightarrow> bool" where
  "checks_ok st =
     (list_all (\<lambda>r. scr_status r \<in> set scenario_statuses) (db_scens st) \<and>
      list_all (\<lambda>r. rnr_status r \<in> set replay_statuses) (db_runs st) \<and>
      list_all (\<lambda>r. evr_status r \<in> set event_statuses) (db_events st) \<and>
      list_all (\<lambda>r. svr_status r \<in> set service_statuses) (db_services st) \<and>
      list_all (\<lambda>r. flr_scope r \<in> set fault_scopes \<and> flr_enabled r \<in> {0, 1}) (db_rules st))"

definition refs_ok :: "db \<Rightarrow> bool" where
  "refs_ok st =
     (list_all (\<lambda>r. in_table cfr_id (scr_config_snapshot_id r) (db_snaps st)) (db_scens st) \<and>
      list_all (\<lambda>r. in_table scr_id (rnr_scenario_id r) (db_scens st)) (db_runs st) \<and>
      list_all (\<lambda>r. ref_ok scr_id (evr_scenario_id r) (db_scens st)
                  \<and> ref_ok rnr_id (evr_replay_run_id r) (db_runs st)
                  \<and> ref_ok evr_id (evr_parent_event_id r) (db_events st)) (db_events st))"

definition db_ok :: "db \<Rightarrow> bool" where
  "db_ok st = (keys_ok st \<and> checks_ok st \<and> refs_ok st)"

subsection \<open>Every statement keeps the promise\<close>

definition preserves :: "(db \<Rightarrow> bool) \<Rightarrow> 'a db_op \<Rightarrow> bool" where
  "preserves P act = (\<forall>st. P st \<longrightarrow> P (snd (act st)))"

lemma preservesI [intro]: "(\<And>st. P st \<Longrightarrow> P (snd (act st))) \<Longrightarrow> preserves P act"
  by (simp add: preserves_def)

lemma preservesD: "preserves P act \<Longrightarrow> P st \<Longrightarrow> P (snd (act st))"
  by (simp add: preserves_def)

definition ignores_fail :: "(db \<Rightarrow> bool) \<Rightarrow> bool" where
  "ignores_fail P = (\<forall>st bs. P (st\<lparr>db_fail := bs\<rparr>) = P st)"

lemma preserves_statement:
  "ignores_fail P \<Longrightarrow> preserves P act \<Longrightarrow> preserves P (statement act)"
  by (rule preservesI) (simp add: statement_def ignores_fail_def preserves_def split: list.split)

lemma preserves_insert:
  "(\<And>st. P st \<Longrightarrow> chk st \<Longrightarrow> uniq st \<Longrightarrow> fk st \<Longrightarrow> P (upd st)) \<Longrightarrow>
   preserves P (insert_row chk uniq fk upd)"
  by (rule preservesI) (simp add: insert_row_def)

lemma preserves_query: "preserves P (\<lambda>st. (f st, st))"
  by (rule preservesI) simp

lemma ignores_fail_db_ok: "ignores_fail db_ok"
  by (simp add: ignores_fail_def db_ok_def keys_ok_def checks_ok_def refs_ok_def)

lemmas db_ok_defs = db_ok_def keys_ok_def checks_ok_def refs_ok_def

lemma in_table_simps [simp]:
  "in_table f k [] = False"
  "in_table f k (r # rs) \<longleftrightarrow> k = f r \<or> in_table f k rs"
  "in_table f k (rs @ ss) \<longleftrightarrow> in_table f k rs \<or> in_table f k ss"
  by (auto simp: in_table_def)

lemma ref_ok_simps [simp]:
  "ref_ok f None rs" "ref_ok f (Some k) rs = in_table f k rs"
  by (simp_all add: ref_ok_def)

lemma ref_ok_append: "ref_ok f p rs \<Longrightarrow> ref_ok f p (rs @ ss)"
  by (cases p) simp_all

lemma list_all_mono': "list_all P xs \<Longrightarrow> (\<And>x. P x \<Longrightarrow> Q x) \<Longrightarrow> list_all Q xs"
  by (simp add: list_all_iff)

lemma in_table_map:
  "(\<And>r. key (f r) = key r) \<Longrightarrow> in_table key k (map f rs) = in_table key k rs"
  by (induction rs) auto

lemma ref_ok_map: "(\<And>r. key (f r) = key r) \<Longrightarrow> ref_ok key p (map f rs) = ref_ok key p rs"
  by (cases p) (simp_all add: in_table_map)

lemma distinct_map_key:
  "(\<And>r. key (f r) = key r) \<Longrightarrow> distinct (map key (map f rs)) = distinct (map key rs)"
  by (simp add: comp_def)

lemma distinct_filter_key: "distinct (map key rs) \<Longrightarrow> distinct (map key (filter P rs))"
  by (simp add: distinct_map_filter)

lemma db_okI:
  "db_ok st \<Longrightarrow> keys_ok st' \<Longrightarrow> checks_ok st' \<Longrightarrow> refs_ok st' \<Longrightarrow> db_ok st'"
  by (simp add: db_ok_def)

lemma event_row_keys [simp]:
  "evr_id (event_row_of now e) = ev_id e" "evr_status (event_row_of now e) = ev_status e"
  "evr_scenario_id (event_row_of now e) = ev_scenario_id e"
  "evr_replay_run_id (event_row_of now e) = ev_replay_run_id e"
  "evr_parent_event_id (event_row_of now e) = ev_parent_event_id e"
  "evr_timestamp_ms (event_row_of now e) = unix_milli (ev_timestamp e)"
  by (simp_all add: event_row_of_def)

lemma event_insert_ok: "preserves db_ok (event_insert now e)"
  unfolding event_insert_def
proof (intro preserves_statement ignores_fail_db_ok preserves_insert)
  fix st
  assume ok: "db_ok st" and c: "ev_status e \<in> set event_statuses"
    and u: "\<not> in_table evr_id (ev_id e) (db_events st)"
    and f: "ref_ok scr_id (ev_scenario_id e) (db_scens st) \<and> ref_ok rnr_id (ev_replay_run_id e) (db_runs st)
     \<and> ref_ok evr_id (ev_parent_event_id e) (db_events st @ [event_row_of now e])"
  show "db_ok (st\<lparr>db_events := db_events st @ [event_row_of now e]\<rparr>)"
  proof (rule db_okI [OF ok])
    show "keys_ok (st\<lparr>db_events := db_events st @ [event_row_of now e]\<rparr>)"
      using ok u by (auto simp: db_ok_def keys_ok_def in_table_def)
    show "checks_ok (st\<lparr>db_events := db_events st @ [event_row_of now e]\<rparr>)"
      using ok c by (simp add: db_ok_def checks_ok_def)
    show "refs_ok (st\<lparr>db_events := db_events st @ [event_row_of now e]\<rparr>)"
      using ok f by (simp add: db_ok_def refs_ok_def list_all_iff ref_ok_append)
  qed
qed

lemma scenario_insert_ok: "preserves db_ok (scenario_insert s)"
  unfolding scenario_insert_def
proof (intro preserves_statement ignores_fail_db_ok preserves_insert)
  fix st
  assume ok: "db_ok st" and c: "sc_status s \<in> set scenario_statuses"
    and u: "\<not> in_table scr_id (sc_id s) (db_scens st) \<and> \<not> in_table scr_name (sc_name s) (db_scens st)"
    and f: "in_table cfr_id (sc_config_snapshot_id s) (db_snaps st)"
  show "db_ok (st\<lparr>db_scens := db_scens st @ [scenario_row_of s]\<rparr>)"
  proof (rule db_okI [OF ok])
    show "keys_ok (st\<lparr>db_scens := db_scens st @ [scenario_row_of s]\<rparr>)"
      using ok u by (auto simp: db_ok_def keys_ok_def in_table_def scenario_row_of_def)
    show "checks_ok (st\<lparr>db_scens := db_scens st @ [scenario_row_of s]\<rparr>)"
      using ok c by (simp add: db_ok_def checks_ok_def scenario_row_of_def)
    show "refs_ok (st\<lparr>db_scens := db_scens st @ [scenario_row_of s]\<rparr>)"
      using ok f by (simp add: db_ok_def refs_ok_def list_all_iff ref_ok_append scenario_row_of_def)
  qed
qed

text \<open>A table rewritten row by row, keys and references kept, keeps every reference to it.\<close>

lemma scenario_update_ok: "preserves db_ok (scenario_update_status i status stopped n k msg)"
  unfolding scenario_update_status_def
proof (intro preserves_statement ignores_fail_db_ok preservesI)
  fix st
  let ?f = "\<lambda>r. if scr_id r = i
          then r\<lparr>scr_status := status, scr_stopped_at_ms := map_option unix_milli stopped,
                 scr_event_count := n, scr_replayable_count := k, scr_error_message := msg\<rparr>
          else r"
  assume ok: "db_ok st"
  have "db_ok (st\<lparr>db_scens := map ?f (db_scens st)\<rparr>)"
    if st: "\<not> (in_table scr_id i (db_scens st) \<and> status \<notin> set scenario_statuses)"
  proof (rule db_okI [OF ok])
    show "keys_ok (st\<lparr>db_scens := map ?f (db_scens st)\<rparr>)"
      using ok by (simp add: db_ok_def keys_ok_def distinct_map_key del: map_map)
    show "checks_ok (st\<lparr>db_scens := map ?f (db_scens st)\<rparr>)"
      using ok st by (auto simp: db_ok_def checks_ok_def list_all_iff in_table_def)
    have "in_table scr_id j (map ?f (db_scens st)) = in_table scr_id j (db_scens st)"
      "ref_ok scr_id p (map ?f (db_scens st)) = ref_ok scr_id p (db_scens st)" for j p
      by (simp_all add: in_table_map ref_ok_map)
    then show "refs_ok (st\<lparr>db_scens := map ?f (db_scens st)\<rparr>)"
      using ok by (auto simp: db_ok_def refs_ok_def list_all_iff)
  qed
  with ok show "db_ok (snd (if in_table scr_id i (db_scens st) \<and> status \<notin> set scenario_statuses
      then (Inl CheckFailed, st) else (Inr (), st\<lparr>db_scens := map ?f (db_scens st)\<rparr>)))"
    by auto
qed


lemma scenario_delete_ok: "preserves db_ok (scenario_delete i)"
  unfolding scenario_delete_def
proof (intro preserves_statement ignores_fail_db_ok preservesI)
  fix st
  assume ok: "db_ok st"
  have keep: "in_table scr_id j (filter (\<lambda>r. scr_id r \<noteq> i) (db_scens st)) \<longleftrightarrow>
      j \<noteq> i \<and> in_table scr_id j (db_scens st)" for j
    by (auto simp: in_table_def)
  have "db_ok (st\<lparr>db_scens := filter (\<lambda>r. scr_id r \<noteq> i) (db_scens st)\<rparr>)"
    if st: "\<not> (in_table scr_id i (db_scens st) \<and>
         (in_table rnr_scenario_id i (db_runs st) \<or> in_table evr_scenario_id (Some i) (db_events st)))"
  proof (rule db_okI [OF ok])
    show "keys_ok (st\<lparr>db_scens := filter (\<lambda>r. scr_id r \<noteq> i) (db_scens st)\<rparr>)"
      using ok by (simp add: db_ok_def keys_ok_def distinct_filter_key)
    show "checks_ok (st\<lparr>db_scens := filter (\<lambda>r. scr_id r \<noteq> i) (db_scens st)\<rparr>)"
      using ok by (auto simp: db_ok_def checks_ok_def list_all_iff)
    have r: "rnr_scenario_id r \<noteq> i" if "r \<in> set (db_runs st)" for r
      using ok st that by (auto simp: db_ok_def refs_ok_def list_all_iff in_table_def)
    have e: "evr_scenario_id r \<noteq> Some i" if "r \<in> set (db_events st)" for r
    proof
      assume e: "evr_scenario_id r = Some i"
      then have "in_table evr_scenario_id (Some i) (db_events st)"
        using that by (force simp: in_table_def)
      moreover have "ref_ok scr_id (evr_scenario_id r) (db_scens st)"
        using ok that by (auto simp: db_ok_def refs_ok_def list_all_iff)
      ultimately show False using st e by simp
    qed
    have p: "ref_ok scr_id p (filter (\<lambda>r. scr_id r \<noteq> i) (db_scens st)) \<longleftrightarrow>
        p \<noteq> Some i \<and> ref_ok scr_id p (db_scens st)" for p
      by (cases p) (auto simp: keep)
    show "refs_ok (st\<lparr>db_scens := filter (\<lambda>r. scr_id r \<noteq> i) (db_scens st)\<rparr>)"
      using ok r e by (auto simp: db_ok_def refs_ok_def list_all_iff keep p)
  qed
  with ok show "db_ok (snd (if in_table scr_id i (db_scens st) \<and>
         (in_table rnr_scenario_id i (db_runs st) \<or> in_table evr_scenario_id (Some i) (db_events st))
      then (Inl ForeignKeyFailed, st)
      else (Inr (), st\<lparr>db_scens := filter (\<lambda>r. scr_id r \<noteq> i) (db_scens st)\<rparr>)))"
    by auto
qed

lemma run_insert_ok: "preserves db_ok (run_insert r)"
  unfolding run_insert_def
proof (intro preserves_statement ignores_fail_db_ok preserves_insert)
  fix st
  assume ok: "db_ok st" and c: "rr_status r \<in> set replay_statuses"
    and u: "\<not> in_table rnr_id (rr_id r) (db_runs st)"
    and f: "in_table scr_id (rr_scenario_id r) (db_scens st)"
  show "db_ok (st\<lparr>db_runs := db_runs st @ [run_row_of r]\<rparr>)"
  proof (rule db_okI [OF ok])
    show "keys_ok (st\<lparr>db_runs := db_runs st @ [run_row_of r]\<rparr>)"
      using ok u by (auto simp: db_ok_def keys_ok_def in_table_def run_row_of_def)
    show "checks_ok (st\<lparr>db_runs := db_runs st @ [run_row_of r]\<rparr>)"
      using ok c by (simp add: db_ok_def checks_ok_def run_row_of_def)
    show "refs_ok (st\<lparr>db_runs := db_runs st @ [run_row_of r]\<rparr>)"
      using ok f by (simp add: db_ok_def refs_ok_def list_all_iff ref_ok_append run_row_of_def)
  qed
qed

lemma run_update_ok: "preserves db_ok (run_update_status i status fin p k d msg)"
  unfolding run_update_status_def
proof (intro preserves_statement ignores_fail_db_ok preservesI)
  fix st
  let ?f = "\<lambda>r. if rnr_id r = i
          then r\<lparr>rnr_status := status, rnr_finished_at_ms := map_option unix_milli fin,
                 rnr_passed_count := p, rnr_failed_count := k,
                 rnr_diff_summary_json := json_column enc_map_any d, rnr_error_message := msg\<rparr>
          else r"
  assume ok: "db_ok st"
  have "db_ok (st\<lparr>db_runs := map ?f (db_runs st)\<rparr>)"
    if st: "\<not> (in_table rnr_id i (db_runs st) \<and> status \<notin> set replay_statuses)"
  proof (rule db_okI [OF ok])
    show "keys_ok (st\<lparr>db_runs := map ?f (db_runs st)\<rparr>)"
      using ok by (simp add: db_ok_def keys_ok_def distinct_map_key del: map_map)
    show "checks_ok (st\<lparr>db_runs := map ?f (db_runs st)\<rparr>)"
      using ok st by (auto simp: db_ok_def checks_ok_def list_all_iff in_table_def)
    have "ref_ok rnr_id q (map ?f (db_runs st)) = ref_ok rnr_id q (db_runs st)" for q
      by (simp add: ref_ok_map)
    then show "refs_ok (st\<lparr>db_runs := map ?f (db_runs st)\<rparr>)"
      using ok by (auto simp: db_ok_def refs_ok_def list_all_iff)
  qed
  with ok show "db_ok (snd (if in_table rnr_id i (db_runs st) \<and> status \<notin> set replay_statuses
      then (Inl CheckFailed, st) else (Inr (), st\<lparr>db_runs := map ?f (db_runs st)\<rparr>)))"
    by auto
qed

definition rules_ok :: "rule_row list \<Rightarrow> bool" where
  "rules_ok rs = (distinct (map flr_id rs) \<and> distinct (map flr_name rs) \<and>
     list_all (\<lambda>r. flr_scope r \<in> set fault_scopes \<and> flr_enabled r \<in> {0, 1}) rs)"

lemma db_ok_rulesI: "db_ok st \<Longrightarrow> rules_ok rs \<Longrightarrow> db_ok (st\<lparr>db_rules := rs\<rparr>)"
  by (simp add: db_ok_defs rules_ok_def)

lemma db_ok_rulesD: "db_ok st \<Longrightarrow> rules_ok (db_rules st)"
  by (simp add: db_ok_defs rules_ok_def)

lemma rule_insert_ok: "preserves db_ok (rule_insert r)"
  unfolding rule_insert_def
proof (intro preserves_statement ignores_fail_db_ok preserves_insert)
  fix st
  assume ok: "db_ok st" and "fr_scope r \<in> set fault_scopes"
    and "\<not> in_table flr_id (fr_id r) (db_rules st) \<and> \<not> in_table flr_name (fr_name r) (db_rules st)"
  then have "rules_ok (db_rules st @ [rule_row_of r])"
    using db_ok_rulesD [OF ok] by (auto simp: rules_ok_def rule_row_of_def in_table_def)
  with ok show "db_ok (st\<lparr>db_rules := db_rules st @ [rule_row_of r]\<rparr>)" by (rule db_ok_rulesI)
qed

lemma update_rules_ok:
  assumes "\<And>r. flr_id (f r) = flr_id r \<and> flr_name (f r) = flr_name r \<and> flr_scope (f r) = flr_scope r"
    and "\<And>r. flr_enabled r \<in> {0, 1} \<Longrightarrow> flr_enabled (f r) \<in> {0, 1}"
  shows "preserves db_ok (statement (update_rules i f))"
proof (intro preserves_statement ignores_fail_db_ok preservesI)
  fix st
  assume ok: "db_ok st"
  have "rules_ok (map (\<lambda>r. if flr_id r = i then f r else r) (db_rules st))"
    using db_ok_rulesD [OF ok] assms
    by (auto simp: rules_ok_def distinct_map_key list_all_iff simp del: map_map)
  with ok show "db_ok (snd (update_rules i f st))"
    unfolding update_rules_def snd_conv by (rule db_ok_rulesI)
qed

lemma rule_set_enabled_ok: "preserves db_ok (rule_set_enabled now i b)"
  unfolding rule_set_enabled_def by (rule update_rules_ok) simp_all

lemma rule_increment_ok: "preserves db_ok (rule_increment_hit_count now now' i)"
  unfolding rule_increment_hit_count_def by (rule update_rules_ok) simp_all

lemma rule_delete_ok: "preserves db_ok (rule_delete i)"
  unfolding rule_delete_def
proof (intro preserves_statement ignores_fail_db_ok preservesI)
  fix st assume ok: "db_ok st"
  then have "rules_ok (filter (\<lambda>r. flr_id r \<noteq> i) (db_rules st))"
    using db_ok_rulesD [OF ok] by (simp add: rules_ok_def distinct_filter_key list_all_iff)
  with ok show "db_ok (snd (Inr (), st\<lparr>db_rules := filter (\<lambda>r. flr_id r \<noteq> i) (db_rules st)\<rparr>))"
    unfolding snd_conv by (rule db_ok_rulesI)
qed

lemma snapshot_insert_ok: "preserves db_ok (snapshot_insert s)"
  unfolding snapshot_insert_def
  by (intro preserves_statement ignores_fail_db_ok preservesI)
     (auto simp: db_ok_defs snapshot_row_of_def in_table_def list_all_iff)

lemma service_upsert_ok: "preserves db_ok (service_upsert h)"
  unfolding service_upsert_def
proof (intro preserves_statement ignores_fail_db_ok preservesI)
  fix st
  let ?f = "\<lambda>r. if svr_service r = sh_service h then (service_row_of h)\<lparr>svr_type := svr_type r\<rparr> else r"
  assume ok: "db_ok st"
  have k: "svr_service (?f r) = svr_service r" for r by (simp add: service_row_of_def)
  show "db_ok (snd (if sh_status h \<notin> set service_statuses then (Inl CheckFailed, st)
      else if in_table svr_service (sh_service h) (db_services st)
      then (Inr (), st\<lparr>db_services := map ?f (db_services st)\<rparr>)
      else (Inr (), st\<lparr>db_services := db_services st @ [service_row_of h]\<rparr>)))"
  proof (cases "sh_status h \<in> set service_statuses")
    case True
    then have s: "svr_status (service_row_of h) \<in> set service_statuses" by (simp add: service_row_of_def)
    show ?thesis
    proof (cases "in_table svr_service (sh_service h) (db_services st)")
      case in_t: True
      have "distinct (map svr_service (map ?f (db_services st)))"
        using ok by (simp add: distinct_map_key [where f = ?f] k db_ok_defs del: map_map)
      moreover have "list_all (\<lambda>r. svr_status r \<in> set service_statuses) (map ?f (db_services st))"
        using ok s by (auto simp: db_ok_defs list_all_iff)
      ultimately show ?thesis using True in_t ok by (simp add: db_ok_defs del: map_map)
    next
      case False
      then have "distinct (map svr_service (db_services st @ [service_row_of h]))"
        using ok by (simp add: db_ok_defs in_table_def service_row_of_def)
      then show ?thesis using True False s ok by (simp add: db_ok_defs)
    qed
  qed (use ok in simp)
qed

text \<open>The statements of the repositories that change the database.\<close>

datatype db_write =
    WEvent instant timeline_event
  | WScenario scenario
  | WScenarioStatus string string "instant option" int int string
  | WScenarioDelete string
  | WRun replay_run
  | WRunStatus string string "instant option" int int "json gomap" string
  | WRule fault_rule
  | WRuleEnabled instant string bool
  | WRuleHit instant instant string
  | WRuleDelete string
  | WSnapshot config_snapshot
  | WService service_health

fun do_write :: "db_write \<Rightarrow> unit db_op" where
  "do_write (WEvent now e) = event_insert now e"
| "do_write (WScenario s) = scenario_insert s"
| "do_write (WScenarioStatus i status stopped n k msg) = scenario_update_status i status stopped n k msg"
| "do_write (WScenarioDelete i) = scenario_delete i"
| "do_write (WRun r) = run_insert r"
| "do_write (WRunStatus i status fin p k d msg) = run_update_status i status fin p k d msg"
| "do_write (WRule r) = rule_insert r"
| "do_write (WRuleEnabled now i b) = rule_set_enabled now i b"
| "do_write (WRuleHit now now' i) = rule_increment_hit_count now now' i"
| "do_write (WRuleDelete i) = rule_delete i"
| "do_write (WSnapshot s) = snapshot_insert s"
| "do_write (WService h) = service_upsert h"

lemma do_write_ok: "preserves db_ok (do_write w)"
  by (cases w)
     (simp_all add: event_insert_ok scenario_insert_ok scenario_update_ok scenario_delete_ok
       run_insert_ok run_update_ok rule_insert_ok rule_set_enabled_ok rule_increment_ok
       rule_delete_ok snapshot_insert_ok service_upsert_ok)

subsection \<open>Events come back as they were stored\<close>

lemma json_column_obj:
  "enc x = JObj ms \<Longrightarrow> null_json (json_column (enc_ptr enc) (Some x)) = Some (json_column enc x)
     \<and> json_column enc x \<noteq> [] \<and> json_column enc x \<noteq> ''null''"
  by (simp add: null_json_def json_column_def enc_ptr_def)

lemma null_json_None: "null_json (json_column (enc_ptr enc) None) = None"
  by (simp add: null_json_def json_column_def enc_ptr_def)

lemma scan_ptr_column:
  assumes "\<And>x. good x \<Longrightarrow> unmarshal d (json_column enc x) z = (True, x)"
    and "\<And>x. \<exists>ms. enc x = JObj ms" and "pred_option good p"
  shows "scan_ptr d z what (null_json (json_column (enc_ptr enc) p)) = Inr p"
proof (cases p)
  case None
  then show ?thesis by (simp add: null_json_None scan_ptr_def)
next
  case (Some x)
  then obtain ms where "enc x = JObj ms" "good x" using assms(2,3) by auto
  with Some json_column_obj [of enc x ms] assms(1) [of x] show ?thesis by (simp add: scan_ptr_def)
qed

lemmas column_objects =
  enc_request_def enc_response_def enc_raw_def enc_match_def enc_action_def enc_safety_def

lemma scan_request: "pred_option request_ok p \<Longrightarrow>
    scan_ptr dec_request zero_request what (null_json (json_column (enc_ptr enc_request) p)) = Inr p"
  by (rule scan_ptr_column [where good = request_ok]) (simp_all add: request_codec.column_roundtrip column_objects)

lemma scan_response: "pred_option response_ok p \<Longrightarrow>
    scan_ptr dec_response zero_response what (null_json (json_column (enc_ptr enc_response) p)) = Inr p"
  by (rule scan_ptr_column [where good = response_ok]) (simp_all add: response_codec.column_roundtrip column_objects)

lemma scan_raw: "pred_option raw_ok p \<Longrightarrow>
    scan_ptr dec_raw zero_raw what (null_json (json_column (enc_ptr enc_raw) p)) = Inr p"
  by (rule scan_ptr_column [where good = raw_ok]) (simp_all add: raw_codec.column_roundtrip column_objects)

lemma scan_metadata:
  assumes "metadata_ok ft m" "m \<noteq> Some []"
  shows "scan_value (dec_map_any ft) None what ''{}'' (json_column enc_map_any m) = Inr m"
proof (cases m)
  case (Some l)
  with assms have "map_ok (any_ok ft) l" "l \<noteq> []" by (simp_all add: metadata_ok_def)
  then have "json_column enc_map_any m \<noteq> ''{}'' \<and> json_column enc_map_any m \<noteq> []"
    by (cases l) (auto simp: Some sort_keys_entries json_column_def join_Cons json_quote_def)
  then show ?thesis using map_codec.column_roundtrip [OF assms(1)] Some
    by (auto simp: scan_value_def)
qed (use map_codec.column_roundtrip [OF assms(1)] in \<open>simp add: scan_value_def\<close>)

lemma null_column: "json_unmarshal ''null'' = Some JNull"
  using json_roundtrip [of JNull] by (simp add: max_nesting_def)

lemma scan_no_faults: "scan_value dec_faults None what ''[]'' (json_column enc_faults None) = Inr None"
  by (simp add: scan_value_def json_column_def enc_faults_def enc_slice_def unmarshal_def null_column
      dec_faults_def dec_slice_def)

text \<open>
  The events whose fields the JSON columns keep: UTF-8 text, 64-bit integers, maps that are
  absent or not empty, no fault annotations (the program never creates one).
\<close>

definition event_ok :: "float_text \<Rightarrow> timeline_event \<Rightarrow> bool" where
  "event_ok ft e =
     (pred_option request_ok (ev_request e) \<and> pred_option response_ok (ev_response e) \<and>
      pred_option raw_ok (ev_raw_payload e) \<and> metadata_ok ft (ev_metadata e) \<and>
      ev_metadata e \<noteq> Some [] \<and> ev_faults e = None)"

definition event_ms :: "timeline_event \<Rightarrow> timeline_event" where
  "event_ms e = e\<lparr>ev_timestamp := of_unix_milli (unix_milli (ev_timestamp e))\<rparr>"

lemma scan_event_row: "event_ok ft e \<Longrightarrow> scan_event ft (event_row_of now e) = Inr (event_ms e)"
  by (simp add: event_ok_def scan_event_def event_row_of_def scan_request scan_response scan_raw
      scan_metadata scan_no_faults event_ms_def)

subsection \<open>The contract of a table with a primary key\<close>

text \<open>
  What the clients of a repository rely on: an insertion that succeeds adds one record under a
  key that was free and leaves the others; one that fails changes nothing.
\<close>

locale keyed_table =
  fixes insert_op :: "'v \<Rightarrow> 's \<Rightarrow> ('e + unit) \<times> 's"
    and look :: "'s \<Rightarrow> 'k \<Rightarrow> 'r option"
    and key :: "'v \<Rightarrow> 'k"
    and row :: "'v \<Rightarrow> 'r"
  assumes insert_done: "insert_op v s = (Inr (), s') \<Longrightarrow>
      look s (key v) = None \<and> look s' = (look s)(key v \<mapsto> row v)"
    and insert_error: "insert_op v s = (Inl e, s') \<Longrightarrow> look s' = look s"
begin

lemma insert_found: "insert_op v s = (Inr (), s') \<Longrightarrow> look s' (key v) = Some (row v)"
  by (auto dest: insert_done)

lemma insert_twice: "insert_op v s = (Inr (), s') \<Longrightarrow> key w = key v \<Longrightarrow> insert_op w s' \<noteq> (Inr (), s'')"
  using insert_found insert_done by (metis option.distinct(1))

lemma insert_keeps:
  "insert_op v s = (x, s') \<Longrightarrow> look s k = Some r \<Longrightarrow> look s' k = Some r"
  using insert_done [of v s s'] insert_error [of v s _ s'] by (cases x) (auto split: if_splits)

end

definition find_row :: "('r \<Rightarrow> 'k) \<Rightarrow> 'r list \<Rightarrow> 'k \<Rightarrow> 'r option" where
  "find_row key rows k = select_one (\<lambda>r. key r = k) rows"

lemma find_row_append:
  "find_row key (rows @ [r]) k =
     (case find_row key rows k of Some x \<Rightarrow> Some x | None \<Rightarrow> if key r = k then Some r else None)"
  by (induction rows) (auto simp: find_row_def select_one_def)

lemma find_row_None: "find_row key rows k = None \<longleftrightarrow> \<not> in_table key k rows"
  by (auto simp: find_row_def select_one_def find_None_iff in_table_def)

lemma find_row_insert:
  "\<not> in_table key (key r) rows \<Longrightarrow> find_row key (rows @ [r]) = (find_row key rows)(key r \<mapsto> r)"
  using find_row_None [of key rows "key r"]
  by (auto simp: find_row_append fun_eq_iff split: option.split)

lemma statement_cases:
  obtains "statement act st = (Inl IoError, st\<lparr>db_fail := tl (db_fail st)\<rparr>)"
    | bs where "statement act st = act (st\<lparr>db_fail := bs\<rparr>)"
proof (cases "db_fail st")
  case Nil
  then have "statement act st = act (st\<lparr>db_fail := []\<rparr>)" by (cases st) (simp add: statement_def)
  with that show thesis by blast
next
  case (Cons b bs)
  with that show thesis by (cases b) (simp_all add: statement_def)
qed

lemma statement_done:
  assumes "statement act st = (Inr x, st')"
  obtains bs where "act (st\<lparr>db_fail := bs\<rparr>) = (Inr x, st')"
  by (rule statement_cases [of act st]) (use assms that in auto)

lemma statement_error:
  assumes "statement act st = (Inl e, st')"
  shows "(\<exists>bs. act (st\<lparr>db_fail := bs\<rparr>) = (Inl e, st')) \<or> (\<exists>bs. st' = st\<lparr>db_fail := bs\<rparr>)"
  by (rule statement_cases [of act st]) (use assms in auto)

lemma insert_row_done: "insert_row chk uniq fk upd st = (Inr (), st') \<longleftrightarrow>
    chk st \<and> uniq st \<and> fk st \<and> st' = upd st"
  by (auto simp: insert_row_def)

lemma insert_row_error: "insert_row chk uniq fk upd st = (Inl e, st') \<Longrightarrow> st' = st"
  by (auto simp: insert_row_def split: if_splits)

interpretation event_table: keyed_table "event_insert now" "\<lambda>st. find_row evr_id (db_events st)"
    ev_id "event_row_of now" for now
proof unfold_locales
  fix v s s'
  assume "event_insert now v s = (Inr (), s')"
  then show "find_row evr_id (db_events s) (ev_id v) = None \<and>
      find_row evr_id (db_events s') = (find_row evr_id (db_events s))(ev_id v \<mapsto> event_row_of now v)"
    unfolding event_insert_def
    by (elim statement_done)
       (auto simp: insert_row_done find_row_None find_row_insert)
next
  fix v s e s'
  assume "event_insert now v s = (Inl e, s')"
  then have "(\<exists>bs. s' = s\<lparr>db_fail := bs\<rparr>)"
    unfolding event_insert_def by (blast dest: statement_error insert_row_error)
  then show "find_row evr_id (db_events s') = find_row evr_id (db_events s)" by auto
qed

interpretation scenario_table: keyed_table scenario_insert "\<lambda>st. find_row scr_id (db_scens st)"
    sc_id scenario_row_of
proof unfold_locales
  fix v s s'
  assume "scenario_insert v s = (Inr (), s')"
  then show "find_row scr_id (db_scens s) (sc_id v) = None \<and>
      find_row scr_id (db_scens s') = (find_row scr_id (db_scens s))(sc_id v \<mapsto> scenario_row_of v)"
    unfolding scenario_insert_def
    by (elim statement_done)
       (auto simp: insert_row_done find_row_None find_row_insert scenario_row_of_def)
next
  fix v s e s'
  assume "scenario_insert v s = (Inl e, s')"
  then have "(\<exists>bs. s' = s\<lparr>db_fail := bs\<rparr>)"
    unfolding scenario_insert_def by (blast dest: statement_error insert_row_error)
  then show "find_row scr_id (db_scens s') = find_row scr_id (db_scens s)" by auto
qed

interpretation run_table: keyed_table run_insert "\<lambda>st. find_row rnr_id (db_runs st)" rr_id run_row_of
proof unfold_locales
  fix v s s'
  assume "run_insert v s = (Inr (), s')"
  then show "find_row rnr_id (db_runs s) (rr_id v) = None \<and>
      find_row rnr_id (db_runs s') = (find_row rnr_id (db_runs s))(rr_id v \<mapsto> run_row_of v)"
    unfolding run_insert_def
    by (elim statement_done)
       (auto simp: insert_row_done find_row_None find_row_insert run_row_of_def)
next
  fix v s e s'
  assume "run_insert v s = (Inl e, s')"
  then have "(\<exists>bs. s' = s\<lparr>db_fail := bs\<rparr>)"
    unfolding run_insert_def by (blast dest: statement_error insert_row_error)
  then show "find_row rnr_id (db_runs s') = find_row rnr_id (db_runs s)" by auto
qed

interpretation rule_table: keyed_table rule_insert "\<lambda>st. find_row flr_id (db_rules st)" fr_id rule_row_of
proof unfold_locales
  fix v s s'
  assume "rule_insert v s = (Inr (), s')"
  then show "find_row flr_id (db_rules s) (fr_id v) = None \<and>
      find_row flr_id (db_rules s') = (find_row flr_id (db_rules s))(fr_id v \<mapsto> rule_row_of v)"
    unfolding rule_insert_def
    by (elim statement_done)
       (auto simp: insert_row_done find_row_None find_row_insert rule_row_of_def)
next
  fix v s e s'
  assume "rule_insert v s = (Inl e, s')"
  then have "(\<exists>bs. s' = s\<lparr>db_fail := bs\<rparr>)"
    unfolding rule_insert_def by (blast dest: statement_error insert_row_error)
  then show "find_row flr_id (db_rules s') = find_row flr_id (db_rules s)" by auto
qed

subsection \<open>Scenarios, runs and rules come back as they were stored\<close>

definition scenario_ok :: "float_text \<Rightarrow> scenario \<Rightarrow> bool" where
  "scenario_ok ft s =
     (strings_ok (sc_root_event_ids s) \<and> strings_ok (sc_tags s) \<and> metadata_ok ft (sc_redaction_summary s))"

definition scenario_ms :: "scenario \<Rightarrow> scenario" where
  "scenario_ms s = s\<lparr>sc_started_at := of_unix_milli (unix_milli (sc_started_at s)),
     sc_stopped_at := map_option (\<lambda>t. of_unix_milli (unix_milli t)) (sc_stopped_at s)\<rparr>"

lemma scan_scenario_row: "scenario_ok ft s \<Longrightarrow> scan_scenario ft (scenario_row_of s) = scenario_ms s"
  by (simp add: scenario_ok_def scan_scenario_def scenario_row_of_def scenario_ms_def
      strings_codec.column_roundtrip map_codec.column_roundtrip option.map_comp comp_def)

definition rule_ok :: "float_text \<Rightarrow> fault_rule \<Rightarrow> bool" where
  "rule_ok ft r = (match_ok (fr_match r) \<and> action_ok ft (fr_action r) \<and> safety_ok (fr_safety r))"

definition rule_ms :: "fault_rule \<Rightarrow> fault_rule" where
  "rule_ms r = r\<lparr>fr_created_at := of_unix_milli (unix_milli (fr_created_at r)),
     fr_updated_at := of_unix_milli (unix_milli (fr_updated_at r)),
     fr_last_applied_at := map_option (\<lambda>t. of_unix_milli (unix_milli t)) (fr_last_applied_at r)\<rparr>"

lemma scan_rule_row: "rule_ok ft r \<Longrightarrow> scan_rule ft (rule_row_of r) = rule_ms r"
  by (simp add: rule_ok_def scan_rule_def rule_row_of_def rule_ms_def match_codec.column_roundtrip
      action_codec.column_roundtrip safety_codec.column_roundtrip option.map_comp comp_def)

subsection \<open>Errors change nothing\<close>

definition same_tables :: "db \<Rightarrow> db \<Rightarrow> bool" where
  "same_tables st st' = (st'\<lparr>db_fail := db_fail st\<rparr> = st)"

lemma same_tables_fail [simp]: "same_tables st (st\<lparr>db_fail := bs\<rparr>)" "same_tables st st"
  by (simp_all add: same_tables_def)

lemma statement_error_tables:
  assumes "statement act st = (Inl e, st')" and "\<And>st e st'. act st = (Inl e, st') \<Longrightarrow> st' = st"
  shows "same_tables st st'"
  using statement_error [OF assms(1)] assms(2) by fastforce

lemmas write_defs = event_insert_def scenario_insert_def scenario_update_status_def
  scenario_delete_def run_insert_def run_update_status_def rule_insert_def
  rule_set_enabled_def rule_increment_hit_count_def rule_delete_def snapshot_insert_def
  service_upsert_def

lemma do_write_error: "do_write w st = (Inl e, st') \<Longrightarrow> same_tables st st'"
  by (cases w; simp only: do_write.simps write_defs; erule statement_error_tables;
      auto simp: update_rules_def dest: insert_row_error split: if_splits)

subsection \<open>Newest first\<close>

lemma scan_all_list: "scan_all f rs = Inr xs \<longleftrightarrow> list_all2 (\<lambda>r x. f r = Inr x) rs xs"
proof (induction rs arbitrary: xs)
  case (Cons r rs)
  show ?case
  proof (cases "f r")
    case (Inr x)
    then show ?thesis
      by (cases "scan_all f rs") (auto simp: list_all2_Cons1 Cons.IH [symmetric])
  qed (auto simp: list_all2_Cons1)
qed auto

lemma scan_event_timestamp: "scan_event ft r = Inr e \<Longrightarrow>
    ev_timestamp e = of_unix_milli (evr_timestamp_ms r) \<and> ev_id e = evr_id r"
  by (auto simp: scan_event_def bind_sum_def split: sum.splits)

lemma newest_first_sorted: "sorted_wrt (\<lambda>a b. f b \<le> f a) (newest_first f rows)"
proof -
  have "sorted (map (\<lambda>r. - f r) (newest_first f rows))" by (simp add: newest_first_def)
  then show ?thesis by (simp add: sorted_wrt_map)
qed

lemma sql_limit_sorted: "sorted_wrt P rows \<Longrightarrow> sorted_wrt P (sql_limit n rows)"
  by (simp add: sql_limit_def sorted_wrt_take)

lemma list_all2_right_mem: "list_all2 R rs xs \<Longrightarrow> x \<in> set xs \<Longrightarrow> \<exists>r \<in> set rs. R r x"
  by (induction rule: list_all2_induct) auto

lemma sorted_wrt_list_all2:
  "list_all2 R rs xs \<Longrightarrow> sorted_wrt P rs \<Longrightarrow>
   (\<And>r x r' x'. R r x \<Longrightarrow> R r' x' \<Longrightarrow> P r r' \<Longrightarrow> Q x x') \<Longrightarrow> sorted_wrt Q xs"
proof (induction rule: list_all2_induct)
  case (Cons r rs x xs)
  have "Q x y" if y: "y \<in> set xs" for y
  proof -
    obtain s where "s \<in> set rs" "R s y" using list_all2_right_mem [OF Cons.hyps(2) y] by blast
    moreover have "P r s" if "s \<in> set rs" for s using Cons.prems(1) that by simp
    ultimately show ?thesis using Cons.prems(2) [OF Cons.hyps(1)] by blast
  qed
  then show ?case using Cons.IH Cons.prems by simp
qed simp

definition eligible :: "int \<Rightarrow> db \<Rightarrow> event_row list" where
  "eligible cursor st = (if cursor > 0 then filter (\<lambda>r. evr_timestamp_ms r < cursor) (db_events st)
     else db_events st)"

lemma event_page:
  assumes "event_list_by_timestamp ft limit cursor st = (Inr es, st')" and "0 \<le> limit"
  shows "sorted_wrt (\<lambda>a b. ev_timestamp b \<le> ev_timestamp a) es"
    and "length es = min (nat limit) (length (eligible cursor st))"
    and "\<forall>e \<in> set es. \<exists>r \<in> set (eligible cursor st). scan_event ft r = Inr e"
proof -
  let ?rows = "sql_limit limit (newest_first evr_timestamp_ms (eligible cursor st))"
  from assms(1) have "scan_all (scan_event ft) ?rows = Inr es"
    unfolding event_list_by_timestamp_def by (elim statement_done) (auto simp: eligible_def)
  then have l2: "list_all2 (\<lambda>r e. scan_event ft r = Inr e) ?rows es" by (simp add: scan_all_list)
  have "sorted_wrt (\<lambda>a b. evr_timestamp_ms b \<le> evr_timestamp_ms a) ?rows"
    by (rule sql_limit_sorted [OF newest_first_sorted])
  with l2 show "sorted_wrt (\<lambda>a b. ev_timestamp b \<le> ev_timestamp a) es"
    by (rule sorted_wrt_list_all2) (auto simp: of_unix_milli_def dest!: scan_event_timestamp)
  show "length es = min (nat limit) (length (eligible cursor st))"
    using list_all2_lengthD [OF l2] assms(2) by (simp add: sql_limit_def newest_first_def)
  have "set ?rows \<subseteq> set (eligible cursor st)"
    using set_take_subset [of "nat limit" "newest_first evr_timestamp_ms (eligible cursor st)"]
    by (simp add: sql_limit_def newest_first_def)
  then show "\<forall>e \<in> set es. \<exists>r \<in> set (eligible cursor st). scan_event ft r = Inr e"
    using list_all2_right_mem [OF l2] by blast
qed

subsection \<open>Without a config snapshot there is no scenario\<close>

fun writes_snapshot :: "db_write \<Rightarrow> bool" where
  "writes_snapshot (WSnapshot s) = True"
| "writes_snapshot _ = False"

definition no_scenario :: "db \<Rightarrow> bool" where
  "no_scenario st = (db_snaps st = [] \<and> db_scens st = [])"

lemma ignores_fail_no_scenario: "ignores_fail no_scenario"
  by (simp add: ignores_fail_def no_scenario_def)

lemma do_write_no_scenario: "\<not> writes_snapshot w \<Longrightarrow> preserves no_scenario (do_write w)"
  by (cases w; simp only: do_write.simps write_defs;
      intro preserves_statement ignores_fail_no_scenario;
      auto simp: preserves_def update_rules_def no_scenario_def insert_row_def)

lemma preserves_fold:
  "(\<And>w. w \<in> set ws \<Longrightarrow> preserves P (do_write w)) \<Longrightarrow> P st \<Longrightarrow>
   P (foldl (\<lambda>st w. snd (do_write w st)) st ws)"
  by (induction ws arbitrary: st) (auto dest: preservesD)

subsection \<open>Properties\<close>

text \<open>C1: Whatever statements the repositories run, and whichever of them the environment fails,
  the database keeps what the schema promises: primary keys and unique columns, status checks and
  foreign keys.\<close>

theorem db_always_ok:
  "db_ok (foldl (\<lambda>st w. snd (do_write w st)) (empty_db\<lparr>db_fail := fails\<rparr>) ws)"
proof (rule preserves_fold)
  show "db_ok (empty_db\<lparr>db_fail := fails\<rparr>)" by (simp add: db_ok_defs empty_db_def)
qed (rule do_write_ok)


definition sample_event :: timeline_event where
  "sample_event = \<lparr>ev_id = ''evt_1'', ev_run_id = ''run_1'', ev_scenario_id = None,
     ev_replay_run_id = None, ev_timestamp = 1700000000123456789, ev_source = ''http_proxy'',
     ev_service = ''api'', ev_action = ''http.request'', ev_summary = ''GET /'', ev_status = ''ok'',
     ev_duration_ms = Some 5, ev_correlation_id = None, ev_parent_event_id = None,
     ev_request = Some (zero_request\<lparr>rq_method := ''GET'', rq_path := ''/'', rq_replayable := True\<rparr>),
     ev_response = Some (zero_response\<lparr>rs_status_code := 200\<rparr>),
     ev_metadata = None, ev_raw_payload = None, ev_faults = None\<rparr>"

lemma sample_event_ok: "event_ok ft sample_event"
  by (simp add: event_ok_def sample_event_def request_ok_def response_ok_def zero_request_def
      zero_response_def omap_ok_def metadata_ok_def map_depth_def max_nesting_def is_int64_def
      int64_min_def int64_max_def valid_utf8_literal)

lemma sample_event_insert:
  "event_insert 0 sample_event empty_db = (Inr (), empty_db\<lparr>db_events := [event_row_of 0 sample_event]\<rparr>)"
  by (simp add: event_insert_def statement_def insert_row_def empty_db_def sample_event_def
      event_statuses_def)




text \<open>C9: \<open>ListByTimestamp\<close> returns events from newest to oldest, as many as there are up to
  the limit, each stored and, with a cursor, older than the cursor.\<close>

theorem event_list_newest_first:
  assumes "event_list_by_timestamp ft limit cursor st = (Inr es, st')" and "0 \<le> limit"
  shows "sorted_wrt (\<lambda>a b. ev_timestamp b \<le> ev_timestamp a) es \<and>
    length es = min (nat limit) (length (eligible cursor st)) \<and>
    (\<forall>e \<in> set es. \<exists>r \<in> set (db_events st). scan_event ft r = Inr e \<and>
       (cursor > 0 \<longrightarrow> unix_milli (ev_timestamp e) < cursor))"
  using event_page [OF assms]
  by (fastforce simp: eligible_def split: if_splits dest: scan_event_timestamp)

lemma event_list_newest_first_witness:
  "\<exists>es. event_list_by_timestamp Some 1 0 (empty_db\<lparr>db_events := [event_row_of 0 sample_event]\<rparr>) =
      (Inr es, empty_db\<lparr>db_events := [event_row_of 0 sample_event]\<rparr>) \<and> length es = 1"
proof -
  have "event_list_by_timestamp Some 1 0 (empty_db\<lparr>db_events := [event_row_of 0 sample_event]\<rparr>) =
      (Inr [event_ms sample_event], empty_db\<lparr>db_events := [event_row_of 0 sample_event]\<rparr>)"
    by (simp add: event_list_by_timestamp_def statement_def empty_db_def sql_limit_def newest_first_def
        scan_event_row [OF sample_event_ok])
  from event_list_newest_first [OF this] this show ?thesis by (simp add: eligible_def empty_db_def)
qed

text \<open>A fault rule that is inserted is in the rules that \<open>List\<close> returns, with the same
  match, action and safety, and the rules come in the order of their creation.\<close>

theorem rule_insert_then_list:
  assumes "rule_ok ft r" and "rule_insert r st = (Inr (), st')" and "db_fail st' = []"
  shows "\<exists>rs. rule_list ft st' = (Inr rs, st') \<and> rule_ms r \<in> set rs \<and>
    sorted (map (\<lambda>r. fr_created_at r) rs)"
proof -
  have "rule_row_of r \<in> set (db_rules st')"
    using rule_table.insert_found [OF assms(2)]
    by (auto simp: find_row_def select_one_def find_Some_iff in_set_conv_nth)
  then have "rule_ms r \<in> scan_rule ft ` set (db_rules st')"
    using scan_rule_row [OF assms(1)] by (metis image_eqI)
  moreover have "sorted (map (\<lambda>r. fr_created_at r) (map (scan_rule ft) (sort_key flr_created_at_ms (db_rules st'))))"
  proof -
    have "sorted (map flr_created_at_ms (sort_key flr_created_at_ms (db_rules st')))" by simp
    then show ?thesis
      by (simp add: scan_rule_def of_unix_milli_def sorted_map comp_def)
  qed
  ultimately show ?thesis using assms(3) by (simp add: rule_list_def statement_def)
qed

definition sample_rule :: fault_rule where
  "sample_rule = zero_rule\<lparr>fr_id := ''flt_1'', fr_name := ''slow'', fr_enabled := True,
     fr_kind := ''delay_response'', fr_scope := ''both'', fr_action := zero_action\<lparr>fx_delay_ms := 500\<rparr>\<rparr>"

lemma sample_rule_ok: "rule_ok ft sample_rule"
  by (simp add: rule_ok_def sample_rule_def zero_rule_def zero_match_def zero_action_def
      zero_safety_def match_ok_def action_ok_def safety_ok_def is_int64_def int64_min_def int64_max_def
      omap_ok_def map_depth_def max_nesting_def)

lemma sample_rule_insert:
  "rule_insert sample_rule empty_db = (Inr (), empty_db\<lparr>db_rules := [rule_row_of sample_rule]\<rparr>)"
  by (simp add: rule_insert_def statement_def insert_row_def empty_db_def sample_rule_def
      fault_scopes_def)

lemma rule_insert_then_list_witness:
  "\<exists>rs. rule_list Some (empty_db\<lparr>db_rules := [rule_row_of sample_rule]\<rparr>) =
     (Inr rs, empty_db\<lparr>db_rules := [rule_row_of sample_rule]\<rparr>) \<and> rule_ms sample_rule \<in> set rs"
  using rule_insert_then_list [OF sample_rule_ok sample_rule_insert] by (auto simp: empty_db_def)

text \<open>As long as nothing writes a config snapshot, no scenario is ever stored: the foreign key
  of \<open>scenarios\<close> refuses every insert.\<close>

theorem no_snapshot_no_scenario:
  assumes "list_all (\<lambda>w. \<not> writes_snapshot w) ws"
  shows "db_scens (foldl (\<lambda>st w. snd (do_write w st)) (empty_db\<lparr>db_fail := fails\<rparr>) ws) = []"
proof -
  have "preserves no_scenario (do_write w)" if "w \<in> set ws" for w
    using assms that by (simp add: list_all_iff do_write_no_scenario)
  moreover have "no_scenario (empty_db\<lparr>db_fail := fails\<rparr>)"
    by (simp add: no_scenario_def empty_db_def)
  ultimately have "no_scenario (foldl (\<lambda>st w. snd (do_write w st)) (empty_db\<lparr>db_fail := fails\<rparr>) ws)"
    by (rule preserves_fold)
  then show ?thesis by (simp add: no_scenario_def)
qed

definition sample_scenario :: scenario where
  "sample_scenario = \<lparr>sc_id = ''scn_1'', sc_name = ''demo'', sc_description = [],
     sc_status = ''recording'', sc_started_at = 0, sc_stopped_at = None, sc_event_count = 0,
     sc_replayable_count = 0, sc_root_event_ids = None, sc_tags = None, sc_config_snapshot_id = [],
     sc_redaction_summary = None, sc_created_by = ''api'', sc_error_message = []\<rparr>"

lemma no_snapshot_no_scenario_witness:
  "db_scens (snd (do_write (WScenario sample_scenario) (empty_db\<lparr>db_fail := []\<rparr>))) = []"
  using no_snapshot_no_scenario [of "[WScenario sample_scenario]" "[]"] by simp

end
