(* ===== verification/Fault.thy ===== *)
theory Fault
  imports Storage
begin

section \<open>Fault injection (\<open>internal/fault\<close>)\<close>

text \<open>
  \<open>matcher.go\<close>: which rule applies to a request, and which rules are well formed;
  \<open>engine.go\<close>: the check that reads the rules from the database and counts the hit, and the
  effect of a rule on the response writer, as the list of calls it makes. The clock is an argument
  (\<open>now\<close>), and so is what the writer answers to a hijack. \<open>fx\<close> is the floating-point step of
  \<open>time.ParseDuration\<close> (theory \<open>GoTime\<close>), \<open>ft\<close> the text of a \<open>float64\<close>.
\<close>

type_synonym dur_frac = "nat \<Rightarrow> nat \<Rightarrow> nat \<Rightarrow> nat"

record request =
  q_method :: string
  q_path :: string
  q_service :: string
  q_host :: string
  q_headers :: "string gomap"

subsection \<open>\<open>Match\<close>\<close>

definition hits_exhausted :: "fault_rule \<Rightarrow> bool" where
  "hits_exhausted r = (fs_max_hits (fr_safety r) > 0 \<and> fr_hit_count r \<ge> fs_max_hits (fr_safety r))"

definition expired :: "dur_frac \<Rightarrow> instant \<Rightarrow> fault_rule \<Rightarrow> bool" where
  "expired fx now r =
     (fs_expires_after (fr_safety r) \<noteq> [] \<and>
      (case parse_duration fx (fs_expires_after (fr_safety r)) of
         None \<Rightarrow> False
       | Some d \<Rightarrow> time_sub now (fr_created_at r) > d))"

definition header_matches :: "string gomap \<Rightarrow> string \<times> string \<Rightarrow> bool" where
  "header_matches hs kv =
     (case map_of (entries hs) (fst kv) of
        None \<Rightarrow> False
      | Some actual \<Rightarrow> equal_fold actual (snd kv))"

definition match :: "dur_frac \<Rightarrow> instant \<Rightarrow> fault_rule \<Rightarrow> request \<Rightarrow> bool" where
  "match fx now r q =
     (if \<not> fr_enabled r then False
      else if hits_exhausted r then False
      else if expired fx now r then False
      else let m = fr_match r in
        if fm_service m \<noteq> [] \<and> \<not> equal_fold (fm_service m) (q_service q) then False
        else if fm_method m \<noteq> [] \<and> \<not> equal_fold (fm_method m) (q_method q) then False
        else if fm_path m \<noteq> [] \<and> fm_path m \<noteq> q_path q then False
        else if fm_path_prefix m \<noteq> [] \<and> \<not> has_prefix (q_path q) (fm_path_prefix m) then False
        else if fm_host m \<noteq> [] \<and> \<not> equal_fold (fm_host m) (q_host q) then False
        else list_all (header_matches (q_headers q)) (entries (fm_headers m)))"

fun find_first_match :: "dur_frac \<Rightarrow> instant \<Rightarrow> fault_rule list \<Rightarrow> request \<Rightarrow> fault_rule option" where
  "find_first_match fx now [] q = None"
| "find_first_match fx now (r # rs) q =
     (if match fx now r q then Some r else find_first_match fx now rs q)"

subsection \<open>\<open>ValidateRule\<close>\<close>

definition validate_kind :: "fault_rule \<Rightarrow> string list" where
  "validate_kind r =
     (let a = fr_action r; k = fr_kind r in
      if k = ''delay_response'' then
        (if fx_delay_ms a \<le> 0 then [''delay_response requires action.delayMs > 0''] else [])
      else if k = ''force_http_status'' then
        (if fx_status_code a < 100 \<or> fx_status_code a > 599
         then [''force_http_status requires valid action.statusCode (100-599)''] else [])
      else if k = ''drop_outbound_request'' then []
      else if k = ''mutate_json_response'' then
        (if entries (fx_body_json a) = [] then [''mutate_json_response requires action.bodyJson''] else [])
      else if k = ''simulate_timeout'' then
        (if fx_delay_ms a \<le> 0 then [''simulate_timeout requires action.delayMs > 0''] else [])
      else if k = ''delay_queue_processing'' \<or> k = ''block_email_delivery'' then []
      else [''unknown fault kind: '' @ k])"

definition validate_rule :: "dur_frac \<Rightarrow> fault_rule \<Rightarrow> string list" where
  "validate_rule fx r =
     (if fr_name r = [] then [''name is required''] else []) @
     validate_kind r @
     (if fr_scope r \<notin> set fault_scopes then [''scope must be live, replay, or both''] else []) @
     (if fs_max_hits (fr_safety r) < 0 then [''safety.maxHits must be >= 0''] else []) @
     (if fs_expires_after (fr_safety r) \<noteq> [] \<and> parse_duration fx (fs_expires_after (fr_safety r)) = None
      then [''safety.expiresAfter must be a valid duration (e.g. 30m, 1h)''] else [])"

subsection \<open>\<open>Engine.Check\<close>\<close>

text \<open>An error of the hit counter is logged and the rule applies all the same.\<close>

definition engine_check ::
    "float_text \<Rightarrow> dur_frac \<Rightarrow> instant \<Rightarrow> request \<Rightarrow> (fault_rule \<times> fault_action) option db_op" where
  "engine_check ft fx now q st =
     (case rule_list ft st of
        (Inl e, st1) \<Rightarrow> (Inl e, st1)
      | (Inr rules, st1) \<Rightarrow>
          (case find_first_match fx now rules q of
             None \<Rightarrow> (Inr None, st1)
           | Some r \<Rightarrow>
               (case rule_increment_hit_count now now (fr_id r) st1 of
                  (_, st2) \<Rightarrow> (Inr (Some (r, fr_action r)), st2))))"

subsection \<open>\<open>Apply\<close>\<close>

datatype writer_call =
    SetHeader string string
  | WriteHeader int
  | WriteBody string
  | CloseConnection
  | Sleep duration

text \<open>What the response writer answers: not a \<open>Hijacker\<close>, or the success of \<open>Hijack\<close>.\<close>

type_synonym hijack = "bool option"

definition fault_body :: "fault_rule \<Rightarrow> fault_action \<Rightarrow> string" where
  "fault_body r a = json_print (JObj
     [(''error'', JStr (fx_reason a)), (''fault'', JStr (fr_name r)),
      (''status'', enc_num (fx_status_code a))]) @ [CHR 0x0A]"

definition sleep_ms :: "int \<Rightarrow> writer_call" where
  "sleep_ms ms = Sleep (wrap64 (ms * 1000000))"

definition apply_fault :: "hijack \<Rightarrow> (fault_rule \<times> fault_action) option \<Rightarrow> writer_call list \<times> bool" where
  "apply_fault hj res =
     (case res of
        None \<Rightarrow> ([], False)
      | Some (r, a) \<Rightarrow>
          (let k = fr_kind r; mark = SetHeader ''X-LocalCloud-Fault'' (fr_name r);
               json_type = SetHeader ''Content-Type'' ''application/json'' in
           if k = ''delay_response'' then ([sleep_ms (fx_delay_ms a)], False)
           else if k = ''force_http_status'' then
             ([mark, json_type, WriteHeader (fx_status_code a), WriteBody (fault_body r a)], True)
           else if k = ''drop_outbound_request'' then
             (if hj = Some True then ([CloseConnection], True) else ([mark, WriteHeader 502], True))
           else if k = ''mutate_json_response'' then
             ([mark, json_type, WriteHeader 200,
               WriteBody (json_column enc_map_any (fx_body_json a) @ [CHR 0x0A])], True)
           else if k = ''simulate_timeout'' then
             (if hj = Some True then ([sleep_ms (fx_delay_ms a), CloseConnection], True)
              else ([sleep_ms (fx_delay_ms a), WriteHeader 504], True))
           else ([], False)))"

subsection \<open>The matcher\<close>

lemma find_first_match_Some:
  "find_first_match fx now rs q = Some r \<longleftrightarrow>
     (\<exists>xs ys. rs = xs @ r # ys \<and> match fx now r q \<and> \<not> list_ex (\<lambda>x. match fx now x q) xs)"
proof (induction rs)
  case (Cons a rs)
  show ?case
  proof (cases "match fx now a q")
    case True
    then show ?thesis by (auto simp: Cons_eq_append_conv)
  next
    case False
    show ?thesis
    proof
      assume "find_first_match fx now (a # rs) q = Some r"
      then obtain xs ys where "rs = xs @ r # ys" "match fx now r q" "\<not> list_ex (\<lambda>x. match fx now x q) xs"
        using Cons.IH False by auto
      then show "\<exists>xs ys. a # rs = xs @ r # ys \<and> match fx now r q \<and> \<not> list_ex (\<lambda>x. match fx now x q) xs"
        using False by (intro exI [of _ "a # xs"] exI [of _ ys]) auto
    next
      assume "\<exists>xs ys. a # rs = xs @ r # ys \<and> match fx now r q \<and> \<not> list_ex (\<lambda>x. match fx now x q) xs"
      then obtain xs ys where xs: "a # rs = xs @ r # ys" "match fx now r q"
        "\<not> list_ex (\<lambda>x. match fx now x q) xs" by blast
      then obtain zs where "xs = a # zs" using False by (cases xs) auto
      with xs False Cons.IH show "find_first_match fx now (a # rs) q = Some r" by auto
    qed
  qed
qed simp

lemma find_first_match_None:
  "find_first_match fx now rs q = None \<longleftrightarrow> \<not> list_ex (\<lambda>x. match fx now x q) rs"
  by (induction rs) auto

lemma find_first_match_mem: "find_first_match fx now rs q = Some r \<Longrightarrow> r \<in> set rs \<and> match fx now r q"
  by (auto simp: find_first_match_Some)

lemma match_not_exhausted: "match fx now r q \<Longrightarrow> fr_enabled r \<and> \<not> hits_exhausted r \<and> \<not> expired fx now r"
  by (auto simp: match_def split: if_splits)

subsection \<open>Hits are bounded\<close>

definition row_max_hits :: "rule_row \<Rightarrow> int" where
  "row_max_hits row = fs_max_hits (snd (unmarshal dec_safety (flr_safety_json row) zero_safety))"

definition hits_ok :: "db \<Rightarrow> bool" where
  "hits_ok st = list_all (\<lambda>row. row_max_hits row > 0 \<longrightarrow> flr_hit_count row \<le> row_max_hits row) (db_rules st)"

lemma scan_rule_simps [simp]:
  "fr_id (scan_rule ft row) = flr_id row" "fr_hit_count (scan_rule ft row) = flr_hit_count row"
  "fs_max_hits (fr_safety (scan_rule ft row)) = row_max_hits row"
  by (simp_all add: scan_rule_def row_max_hits_def)

lemma rule_list_Inr: "rule_list ft st = (Inr rs, st') \<Longrightarrow>
    db_rules st' = db_rules st \<and> rs = map (scan_rule ft) (sort_key flr_created_at_ms (db_rules st'))"
  unfolding rule_list_def by (elim statement_done) auto

lemma rule_list_tables: "same_tables st (snd (rule_list ft st))"
  by (simp add: rule_list_def statement_def split: list.split)

lemma same_tables_rules: "same_tables st st' \<Longrightarrow> db_rules st' = db_rules st"
  unfolding same_tables_def by (metis db.select_convs(6) db.surjective db.update_convs(7))

lemma distinct_row:
  "distinct (map key rows) \<Longrightarrow> r \<in> set rows \<Longrightarrow> r' \<in> set rows \<Longrightarrow> key r = key r' \<Longrightarrow> r = r'"
  by (metis distinct_map inj_onD)

lemma hits_ok_increment:
  assumes "distinct (map flr_id (db_rules st))" "hits_ok st" "row \<in> set (db_rules st)"
    and "\<not> (row_max_hits row > 0 \<and> flr_hit_count row \<ge> row_max_hits row)"
  shows "hits_ok (snd (rule_increment_hit_count now now' (flr_id row) st))"
proof -
  have row: "r = row" if "r \<in> set (db_rules st)" "flr_id r = flr_id row" for r
    using distinct_row [OF assms(1) that(1) assms(3) that(2)] .
  have inc: "row_max_hits r > 0 \<longrightarrow> flr_hit_count r + 1 \<le> row_max_hits r"
    if "r \<in> set (db_rules st)" "flr_id r = flr_id row" for r
    using row [OF that] assms(4) by auto
  have max: "row_max_hits (r\<lparr>flr_hit_count := n, flr_last_applied_at_ms := t, flr_updated_at_ms := u\<rparr>) = row_max_hits r"
    for r n t u by (simp add: row_max_hits_def)
  have "hits_ok (snd (update_rules (flr_id row) (\<lambda>r. r\<lparr>flr_hit_count := flr_hit_count r + 1,
        flr_last_applied_at_ms := Some (unix_milli now), flr_updated_at_ms := unix_milli now'\<rparr>)
        (st\<lparr>db_fail := bs\<rparr>)))" for bs
    using assms(2) inc by (auto simp: hits_ok_def update_rules_def list_all_iff max)
  from this [of "db_fail st"] this assms(2) show ?thesis
    by (auto simp: rule_increment_hit_count_def statement_def hits_ok_def split: list.split)
qed

lemma engine_check_hits_ok:
  assumes "distinct (map flr_id (db_rules st))" "hits_ok st"
  shows "hits_ok (snd (engine_check ft fx now q st))"
proof (cases "rule_list ft st")
  case (Pair res st1)
  have st1: "db_rules st1 = db_rules st"
    using rule_list_tables [of st ft] Pair same_tables_rules by simp
  then have ok1: "hits_ok st1" "distinct (map flr_id (db_rules st1))" using assms by (simp_all add: hits_ok_def)
  show ?thesis
  proof (cases res)
    case (Inl e)
    then show ?thesis using Pair ok1 by (simp add: engine_check_def)
  next
    case (Inr rs)
    with Pair have rs: "rs = map (scan_rule ft) (sort_key flr_created_at_ms (db_rules st1))"
      using rule_list_Inr by blast
    show ?thesis
    proof (cases "find_first_match fx now rs q")
      case None
      then show ?thesis using Pair Inr ok1 by (simp add: engine_check_def)
    next
      case (Some r)
      then obtain row where row: "row \<in> set (db_rules st1)" "r = scan_rule ft row"
        using find_first_match_mem rs by fastforce
      have "\<not> hits_exhausted r" using find_first_match_mem [OF Some] match_not_exhausted by blast
      then have "hits_ok (snd (rule_increment_hit_count now now (flr_id row) st1))"
        using ok1 row by (intro hits_ok_increment) (simp_all add: hits_exhausted_def)
      then show ?thesis using Pair Inr Some row by (simp add: engine_check_def case_prod_unfold)
    qed
  qed
qed

subsection \<open>A sequence of checks\<close>

fun check_all :: "float_text \<Rightarrow> dur_frac \<Rightarrow> (instant \<times> request) list \<Rightarrow> db \<Rightarrow>
    (db_error + (fault_rule \<times> fault_action) option) list \<times> db" where
  "check_all ft fx [] st = ([], st)"
| "check_all ft fx ((now, q) # qs) st =
     (case engine_check ft fx now q st of (r, st1) \<Rightarrow>
        (case check_all ft fx qs st1 of (rs, st2) \<Rightarrow> (r # rs, st2)))"

definition applies :: "string \<Rightarrow> db_error + (fault_rule \<times> fault_action) option \<Rightarrow> bool" where
  "applies i res = (case res of Inr (Some (r, a)) \<Rightarrow> fr_id r = i | _ \<Rightarrow> False)"

text \<open>The database runs, and the rule \<open>i\<close> is stored with limit \<open>n\<close> and \<open>h\<close> hits.\<close>

definition rule_at :: "string \<Rightarrow> int \<Rightarrow> int \<Rightarrow> db \<Rightarrow> bool" where
  "rule_at i n h st = (distinct (map flr_id (db_rules st)) \<and> db_fail st = [] \<and>
     (\<exists>row \<in> set (db_rules st). flr_id row = i \<and> row_max_hits row = n \<and> flr_hit_count row = h))"

definition count_hit :: "instant \<Rightarrow> rule_row \<Rightarrow> rule_row" where
  "count_hit now r = r\<lparr>flr_hit_count := flr_hit_count r + 1,
     flr_last_applied_at_ms := Some (unix_milli now), flr_updated_at_ms := unix_milli now\<rparr>"

lemma count_hit_simps [simp]:
  "flr_id (count_hit now r) = flr_id r" "row_max_hits (count_hit now r) = row_max_hits r"
  "flr_hit_count (count_hit now r) = flr_hit_count r + 1"
  by (simp_all add: count_hit_def row_max_hits_def)

lemma engine_check_running:
  assumes "db_fail st = []"
  shows "engine_check ft fx now q st =
    (case find_first_match fx now (map (scan_rule ft) (sort_key flr_created_at_ms (db_rules st))) q of
       None \<Rightarrow> (Inr None, st)
     | Some r \<Rightarrow> (Inr (Some (r, fr_action r)),
         st\<lparr>db_rules := map (\<lambda>x. if flr_id x = fr_id r then count_hit now x else x) (db_rules st)\<rparr>))"
  using assms
  by (simp add: engine_check_def rule_list_def rule_increment_hit_count_def statement_def
      update_rules_def count_hit_def [abs_def] split: option.split)

lemma rule_at_step:
  assumes at: "rule_at i n h st" and n: "0 < n" "h \<le> n"
    and c: "engine_check ft fx now q st = (r, st')"
  shows "if applies i r then h < n \<and> rule_at i n (h + 1) st' else rule_at i n h st'"
proof -
  obtain row where row: "row \<in> set (db_rules st)" "flr_id row = i" "row_max_hits row = n"
      "flr_hit_count row = h"
    and d: "distinct (map flr_id (db_rules st))" and f: "db_fail st = []"
    using at by (auto simp: rule_at_def)
  let ?rs = "map (scan_rule ft) (sort_key flr_created_at_ms (db_rules st))"
  show ?thesis
  proof (cases "find_first_match fx now ?rs q")
    case None
    with c have "r = Inr None" "st' = st" by (simp_all add: engine_check_running [OF f])
    with at show ?thesis by (simp add: applies_def)
  next
    case (Some m)
    let ?f = "\<lambda>x. if flr_id x = fr_id m then count_hit now x else x"
    have st': "r = Inr (Some (m, fr_action m))" "st' = st\<lparr>db_rules := map ?f (db_rules st)\<rparr>"
      using c Some by (auto simp: engine_check_running [OF f])
    have d': "distinct (map flr_id (db_rules st'))" and f': "db_fail st' = []"
      using d f by (simp_all add: st'(2) distinct_map_key del: map_map)
    have mem: "?f row \<in> set (db_rules st')" using row(1) by (simp add: st'(2))
    show ?thesis
    proof (cases "fr_id m = i")
      case True
      obtain row' where row': "row' \<in> set (db_rules st)" "m = scan_rule ft row'"
        using find_first_match_mem [OF Some] by auto
      with True row(2) have "row' = row" using distinct_row [OF d row'(1) row(1)] by simp
      with row' row n have "h < n"
        using match_not_exhausted find_first_match_mem [OF Some] by (fastforce simp: hits_exhausted_def)
      moreover have "rule_at i n (h + 1) st'"
        unfolding rule_at_def using d' f' mem row True by (intro conjI bexI [of _ "?f row"]) auto
      ultimately show ?thesis using True st'(1) by (simp add: applies_def)
    next
      case False
      have "rule_at i n h st'"
        unfolding rule_at_def using d' f' mem row False by (intro conjI bexI [of _ "?f row"]) auto
      then show ?thesis using False st'(1) by (simp add: applies_def)
    qed
  qed
qed

lemma applications_bounded:
  "rule_at i n h st \<Longrightarrow> 0 < n \<Longrightarrow> h \<le> n \<Longrightarrow>
   h + int (length (filter (applies i) (fst (check_all ft fx qs st)))) \<le> n"
proof (induction qs arbitrary: st h)
  case (Cons nq qs)
  obtain now q where nq: "nq = (now, q)" by (cases nq)
  obtain r st1 where c: "engine_check ft fx now q st = (r, st1)" by (cases "engine_check ft fx now q st")
  obtain rs st2 where k: "check_all ft fx qs st1 = (rs, st2)" by (cases "check_all ft fx qs st1")
  from rule_at_step [OF Cons.prems c] Cons.IH [of h st1] Cons.IH [of "h + 1" st1] Cons.prems k
  show ?case by (cases "applies i r") (auto simp: nq c k)
qed simp

subsection \<open>The effect of a rule on the response\<close>

definition writes_response :: "writer_call \<Rightarrow> bool" where
  "writes_response c = (case c of WriteHeader n \<Rightarrow> True | CloseConnection \<Rightarrow> True | _ \<Rightarrow> False)"

definition answered_once :: "writer_call list \<times> bool \<Rightarrow> bool" where
  "answered_once res = (length (filter writes_response (fst res)) = (if snd res then 1 else 0) \<and>
   (snd res \<or> list_all (\<lambda>c. \<exists>d. c = Sleep d) (fst res)))"

lemma answered_once_if: "(b \<Longrightarrow> answered_once x) \<Longrightarrow> (\<not> b \<Longrightarrow> answered_once y) \<Longrightarrow> answered_once (if b then x else y)"
  by simp

lemma apply_answered_once: "answered_once (apply_fault hj res)"
proof (cases res)
  case (Some ra)
  obtain r a where ra: "ra = (r, a)" by (cases ra)
  show ?thesis unfolding Some ra apply_fault_def Let_def option.case prod.case
    by (intro answered_once_if) (simp_all add: answered_once_def writes_response_def sleep_ms_def)
qed (simp add: apply_fault_def answered_once_def)

subsection \<open>Properties\<close>

text \<open>\<open>FindFirstMatch\<close> returns a rule exactly when it matches and no rule before it does.\<close>

theorem find_first_match_first:
  "find_first_match fx now rs q = Some r \<longleftrightarrow>
     (\<exists>xs ys. rs = xs @ r # ys \<and> match fx now r q \<and> find_first_match fx now xs q = None)"
  by (simp add: find_first_match_Some find_first_match_None)

text \<open>C6: \<open>MaxHits\<close> is a limit on the number of applications: with a database that runs, a stored
  rule with limit \<open>n\<close> and no hits is applied by at most \<open>n\<close> of any sequence of checks.\<close>

theorem max_hits_limit:
  assumes "rule_at i n 0 st" and "0 < n"
  shows "int (length (filter (applies i) (fst (check_all ft fx qs st)))) \<le> n"
  using applications_bounded [OF assms(1,2)] assms(2) by simp

lemma max_hits_limit_witness:
  "int (length (filter (applies ''flt_1'') (fst (check_all Some (\<lambda>_ _ _. 0)
     [(0, \<lparr>q_method = ''GET'', q_path = ''/'', q_service = [], q_host = [], q_headers = None\<rparr>)]
     (empty_db\<lparr>db_rules := [rule_row_of (sample_rule\<lparr>fr_safety := zero_safety\<lparr>fs_max_hits := 2\<rparr>\<rparr>)]\<rparr>))))) \<le> 2"
proof (rule max_hits_limit)
  have "safety_ok (zero_safety\<lparr>fs_max_hits := 2\<rparr>)"
    by (simp add: safety_ok_def zero_safety_def is_int64_def int64_min_def int64_max_def)
  from safety_codec.column_roundtrip [OF this]
  show "rule_at ''flt_1'' 2 0 (empty_db\<lparr>db_rules := [rule_row_of (sample_rule\<lparr>fr_safety := zero_safety\<lparr>fs_max_hits := 2\<rparr>\<rparr>)]\<rparr>)"
    by (simp add: rule_at_def empty_db_def row_max_hits_def rule_row_of_def sample_rule_def zero_rule_def)
qed simp

text \<open>A rule that \<open>ValidateRule\<close> accepts can only be refused by the database for an
  identifier or a name in use or an I/O error: its scope passes the schema's check.\<close>

theorem validated_rule_insert:
  assumes "validate_rule fx r = []" and "rule_insert r st = (Inl err, st')"
  shows "err = IoError \<or> (err = UniqueFailed \<and>
    (in_table flr_id (fr_id r) (db_rules st) \<or> in_table flr_name (fr_name r) (db_rules st)))"
proof -
  have "fr_scope r \<in> set fault_scopes" using assms(1) by (auto simp: validate_rule_def split: if_splits)
  with assms(2) show ?thesis
    by (auto simp: rule_insert_def statement_def insert_row_def split: list.splits if_splits)
qed

lemma validated_rule_insert_witness:
  "\<exists>err st'. rule_insert sample_rule (empty_db\<lparr>db_fail := [True]\<rparr>) = (Inl err, st') \<and> err = IoError"
proof -
  have v: "validate_rule (\<lambda>_ _ _. 0) sample_rule = []"
    by (simp add: validate_rule_def validate_kind_def sample_rule_def zero_rule_def zero_action_def
        zero_safety_def fault_scopes_def)
  have i: "rule_insert sample_rule (empty_db\<lparr>db_fail := [True]\<rparr>) = (Inl IoError, empty_db)"
    by (simp add: rule_insert_def statement_def empty_db_def)
  from validated_rule_insert [OF v i] i show ?thesis by blast
qed


end
