(* ===== verification/EventBus.thy ===== *)
theory EventBus
  imports Timeline
begin

section \<open>The event bus (\<open>internal/eventbus/bus.go\<close>)\<close>

text \<open>
  A bus is the map of its subscribers and the last number it gave out. A subscriber is a value of
  type \<open>'h\<close>; what it does is the argument \<open>run\<close> of \<open>publish\<close>: it changes the state of the world
  and says whether it panicked, and a panic is recovered with the changes made so far. \<open>itoa\<close>
  is the bus's own conversion with its 20-byte buffer; writing below index 0 is the \<open>None\<close> of
  the model (a Go panic). The locale \<open>registry\<close> is the contract shared by the tables that give
  out identifiers: the bus here and the SSE clients of the API.
\<close>

record 'h bus =
  bus_subs :: "(string \<times> 'h) list"
  bus_next :: int

definition new_bus :: "'h bus" where
  "new_bus = \<lparr>bus_subs = [], bus_next = 0\<rparr>"

function itoa_loop :: "int \<Rightarrow> nat \<Rightarrow> string \<Rightarrow> string option" where
  "itoa_loop n i buf =
     (if n > 0 then
        (case i of 0 \<Rightarrow> None
         | Suc j \<Rightarrow> itoa_loop (n div 10) j (digit_char (nat (n mod 10)) # buf))
      else Some buf)"
  by pat_completeness auto
termination
  by (relation "measure (\<lambda>(n, i, buf). i)") auto

declare itoa_loop.simps [simp del]

definition itoa :: "int \<Rightarrow> string option" where
  "itoa n = (if n = 0 then Some ''0'' else itoa_loop n 20 [])"

definition subscribe :: "'h \<Rightarrow> 'h bus \<Rightarrow> (string \<times> 'h bus) option" where
  "subscribe fn b =
     (let n = wrap64 (bus_next b + 1) in
      case itoa n of
        None \<Rightarrow> None
      | Some t \<Rightarrow> Some (''sub_'' @ t,
          b\<lparr>bus_next := n, bus_subs := AList.update (''sub_'' @ t) fn (bus_subs b)\<rparr>))"

definition unsubscribe :: "string \<Rightarrow> 'h bus \<Rightarrow> 'h bus" where
  "unsubscribe i b = b\<lparr>bus_subs := AList.delete i (bus_subs b)\<rparr>"

definition publish :: "('h \<Rightarrow> timeline_event \<Rightarrow> 's \<Rightarrow> 's \<times> bool) \<Rightarrow> 'h bus \<Rightarrow> timeline_event \<Rightarrow> 's \<Rightarrow> 's" where
  "publish run b e s = foldl (\<lambda>s fn. fst (run fn e s)) s (map snd (bus_subs b))"

definition subscriber_count :: "'h bus \<Rightarrow> nat" where
  "subscriber_count b = length (bus_subs b)"

subsection \<open>\<open>itoa\<close> is the decimal text\<close>

lemma itoa_loop_dec:
  "0 < n \<Longrightarrow> n < 10 ^ i \<Longrightarrow> itoa_loop (int n) i buf = Some (dec_nat n @ buf)"
proof (induction n arbitrary: i buf rule: less_induct)
  case (less n)
  from less.prems obtain j where i: "i = Suc j" by (cases i) auto
  have d: "nat (int n mod 10) = n mod 10" "int n div 10 = int (n div 10)"
    by (simp_all add: nat_mod_distrib zdiv_int)
  show ?case
  proof (cases "n < 10")
    case True
    then have "itoa_loop 0 j (digit_char n # buf) = Some (digit_char n # buf)"
      by (simp add: itoa_loop.simps)
    with True less.prems i d show ?thesis
      by (subst itoa_loop.simps, subst dec_nat.simps) simp
  next
    case False
    then have "itoa_loop (int (n div 10)) j (digit_char (n mod 10) # buf)
        = Some (dec_nat (n div 10) @ digit_char (n mod 10) # buf)"
      using less.prems i by (intro less.IH) auto
    with False less.prems i d show ?thesis
      by (subst itoa_loop.simps, subst dec_nat.simps) simp
  qed
qed

lemma itoa_dec: "0 \<le> n \<Longrightarrow> n < 10 ^ 20 \<Longrightarrow> itoa n = Some (dec_int n)"
  using itoa_loop_dec [of "nat n" 20 "[]"]
  by (cases "n = 0") (simp_all add: itoa_def dec_int_def dec_nat_zero nat_less_iff)

lemma itoa_negative: "n < 0 \<Longrightarrow> itoa n = Some []"
  by (simp add: itoa_def itoa_loop.simps)

subsection \<open>The contract of a table that gives out identifiers\<close>

locale registry =
  fixes add :: "'h \<Rightarrow> 's \<Rightarrow> (string \<times> 's) option"
    and remove :: "string \<Rightarrow> 's \<Rightarrow> 's"
    and lookup :: "'s \<Rightarrow> string \<Rightarrow> 'h option"
    and inv :: "'s \<Rightarrow> bool"
    and room :: "'s \<Rightarrow> bool"
  assumes add_total: "inv s \<Longrightarrow> room s \<Longrightarrow> add x s \<noteq> None"
    and add_inv: "inv s \<Longrightarrow> room s \<Longrightarrow> add x s = Some (i, s') \<Longrightarrow> inv s'"
    and add_fresh: "inv s \<Longrightarrow> room s \<Longrightarrow> add x s = Some (i, s') \<Longrightarrow> lookup s i = None"
    and add_lookup: "inv s \<Longrightarrow> room s \<Longrightarrow> add x s = Some (i, s') \<Longrightarrow> lookup s' = (lookup s)(i \<mapsto> x)"
    and remove_inv: "inv s \<Longrightarrow> inv (remove i s)"
    and remove_lookup: "inv s \<Longrightarrow> lookup (remove i s) = (lookup s)(i := None)"
begin

lemma add_keeps:
  "inv s \<Longrightarrow> room s \<Longrightarrow> add x s = Some (i, s') \<Longrightarrow> lookup s j = Some y \<Longrightarrow> lookup s' j = Some y \<and> i \<noteq> j"
  using add_fresh add_lookup by fastforce

lemma add_remove:
  "inv s \<Longrightarrow> room s \<Longrightarrow> add x s = Some (i, s') \<Longrightarrow> lookup (remove i s') = lookup s"
  using add_fresh add_lookup add_inv remove_lookup by fastforce

lemma add_add_distinct:
  "inv s \<Longrightarrow> room s \<Longrightarrow> add x s = Some (i, s') \<Longrightarrow> room s' \<Longrightarrow> add y s' = Some (j, s'') \<Longrightarrow>
   i \<noteq> j \<and> lookup s'' i = Some x \<and> lookup s'' j = Some y"
proof -
  assume s: "inv s" "room s" "add x s = Some (i, s')" and s': "room s'" "add y s' = Some (j, s'')"
  have i: "inv s'" "lookup s' i = Some x" using add_inv [OF s] add_lookup [OF s] by simp_all
  with add_keeps [OF i(1) s' i(2)] add_lookup [OF i(1) s'] show ?thesis by auto
qed

end

subsection \<open>The bus keeps the contract\<close>

text \<open>Every identifier in use is \<open>sub_k\<close> with \<open>0 < k \<le> next\<close>.\<close>

definition numbered_ids :: "string \<Rightarrow> int \<Rightarrow> (string \<times> 'h) list \<Rightarrow> bool" where
  "numbered_ids p n m =
     (0 \<le> n \<and> n \<le> int64_max \<and> distinct (map fst m) \<and>
      (\<forall>i \<in> fst ` set m. \<exists>k. 0 < k \<and> k \<le> n \<and> i = p @ dec_int k))"

lemma numbered_fresh:
  assumes "numbered_ids p n m" "n < k"
  shows "p @ dec_int k \<notin> fst ` set m"
proof
  assume "p @ dec_int k \<in> fst ` set m"
  then obtain j where j: "0 < j" "j \<le> n" "p @ dec_int k = p @ dec_int j"
    using assms(1) unfolding numbered_ids_def by blast
  then have "dec_nat (nat k) = dec_nat (nat j)" using assms(2) by (simp add: dec_int_def)
  then have "nat k = nat j" by (rule dec_nat_inj)
  with j assms(2) show False by simp
qed

lemma numbered_add:
  assumes "numbered_ids p n m" "n < int64_max"
  shows "numbered_ids p (n + 1) (AList.update (p @ dec_int (n + 1)) x m)"
proof -
  have old: "\<exists>k. 0 < k \<and> k \<le> n + 1 \<and> i = p @ dec_int k" if "i \<in> fst ` set m" for i
    using assms(1) that unfolding numbered_ids_def by (metis le_add_same_cancel1 order_trans zero_le_one)
  have new: "\<exists>k. 0 < k \<and> k \<le> n + 1 \<and> p @ dec_int (n + 1) = p @ dec_int k"
    using assms(1) by (intro exI [of _ "n + 1"]) (simp add: numbered_ids_def)
  have "fst ` set (AList.update (p @ dec_int (n + 1)) x m) = insert (p @ dec_int (n + 1)) (fst ` set m)"
    by (simp add: dom_update)
  with assms old new show ?thesis unfolding numbered_ids_def by (simp del: append_eq_append_conv)
qed

lemma numbered_delete: "numbered_ids p n m \<Longrightarrow> numbered_ids p n (AList.delete i m)"
proof -
  assume n: "numbered_ids p n m"
  have sub: "fst ` set (AList.delete i m) \<subseteq> fst ` set m"
    by (metis delete_keys filter_is_subset list.set_map removeAll_filter_not_eq)
  have "\<exists>k. 0 < k \<and> k \<le> n \<and> j = p @ dec_int k" if "j \<in> fst ` set (AList.delete i m)" for j
  proof -
    have "j \<in> fst ` set m" using sub that by (rule subsetD)
    with n show ?thesis unfolding numbered_ids_def by blast
  qed
  moreover have "distinct (map fst (AList.delete i m))"
    using n unfolding numbered_ids_def by (intro distinct_delete) blast
  ultimately show ?thesis using n unfolding numbered_ids_def by blast
qed

definition bus_inv :: "'h bus \<Rightarrow> bool" where
  "bus_inv b = numbered_ids ''sub_'' (bus_next b) (bus_subs b)"

definition bus_room :: "'h bus \<Rightarrow> bool" where
  "bus_room b = (bus_next b < int64_max)"

definition bus_lookup :: "'h bus \<Rightarrow> string \<Rightarrow> 'h option" where
  "bus_lookup b = map_of (bus_subs b)"

lemma new_bus_inv: "bus_inv new_bus"
  by (simp add: bus_inv_def new_bus_def numbered_ids_def int64_max_def)

lemma bus_next_wrap: "bus_inv b \<Longrightarrow> bus_room b \<Longrightarrow>
    wrap64 (bus_next b + 1) = bus_next b + 1 \<and> itoa (bus_next b + 1) = Some (dec_int (bus_next b + 1))"
  by (auto simp: bus_inv_def bus_room_def numbered_ids_def int64_max_def int64_min_def
      intro!: wrap64_id itoa_dec)

lemma subscribe_eq: "bus_inv b \<Longrightarrow> bus_room b \<Longrightarrow>
   subscribe fn b = Some (''sub_'' @ dec_int (bus_next b + 1),
     b\<lparr>bus_next := bus_next b + 1,
       bus_subs := AList.update (''sub_'' @ dec_int (bus_next b + 1)) fn (bus_subs b)\<rparr>)"
  by (simp add: subscribe_def Let_def bus_next_wrap)

interpretation bus_registry: registry subscribe unsubscribe bus_lookup bus_inv bus_room
proof unfold_locales
  fix s :: "'a bus" and x :: 'a and i s'
  assume i: "bus_inv s" "bus_room s"
  then show "subscribe x s \<noteq> None" by (simp add: subscribe_eq)
  assume a: "subscribe x s = Some (i, s')"
  show "bus_inv s'"
    using a i numbered_add [of "''sub_''" "bus_next s" "bus_subs s" x]
    by (auto simp: subscribe_eq bus_inv_def bus_room_def)
  show "bus_lookup s i = None"
    using a i numbered_fresh [of "''sub_''" "bus_next s" "bus_subs s" "bus_next s + 1"]
    by (auto simp: subscribe_eq bus_lookup_def bus_inv_def map_of_eq_None_iff)
  show "bus_lookup s' = (bus_lookup s)(i \<mapsto> x)"
    using a i by (auto simp: subscribe_eq bus_lookup_def update_conv)
next
  fix s :: "'a bus" and i
  assume "bus_inv s"
  then show "bus_inv (unsubscribe i s)"
    by (simp add: bus_inv_def unsubscribe_def numbered_delete)
  show "bus_lookup (unsubscribe i s) = (bus_lookup s)(i := None)"
    by (auto simp: bus_lookup_def unsubscribe_def delete_conv)
qed

subsection \<open>Reachable buses\<close>

inductive bus_reach :: "nat \<Rightarrow> 'h bus \<Rightarrow> bool" where
  start: "bus_reach 0 new_bus"
| sub: "bus_reach n b \<Longrightarrow> subscribe fn b = Some (i, b') \<Longrightarrow> bus_reach (Suc n) b'"
| unsub: "bus_reach n b \<Longrightarrow> bus_reach n (unsubscribe i b)"

inductive_cases bus_reach_SucE: "bus_reach (Suc n) b"

lemma bus_reach_inv:
  "bus_reach n b \<Longrightarrow> int n \<le> int64_max \<Longrightarrow> bus_inv b \<and> bus_next b = int n"
proof (induction rule: bus_reach.induct)
  case start
  then show ?case by (simp add: new_bus_inv) (simp add: new_bus_def)
next
  case (sub n b fn i b')
  then have b: "bus_inv b" "bus_room b" "bus_next b = int n" by (simp_all add: bus_room_def)
  with sub.hyps(2) have "bus_next b' = int (Suc n)" by (auto simp: subscribe_eq)
  with bus_registry.add_inv [OF b(1,2) sub.hyps(2)] show ?case by simp
next
  case (unsub n b i)
  then show ?case using bus_registry.remove_inv by (auto simp: unsubscribe_def)
qed

subsection \<open>Properties\<close>

text \<open>C11: After any sequence of fewer than 2^63 - 1 subscriptions and any unsubscriptions,
  \<open>Subscribe\<close> returns an identifier that no subscriber has, registers the handler under it, and
  leaves every other subscription as it was; unsubscribing it restores the table.\<close>

theorem subscribe_fresh_id:
  assumes "bus_reach n b" and "int n < int64_max"
  shows "\<exists>i b'. subscribe fn b = Some (i, b') \<and> bus_lookup b i = None \<and>
     bus_lookup b' = (bus_lookup b)(i \<mapsto> fn) \<and> bus_lookup (unsubscribe i b') = bus_lookup b"
proof -
  have b: "bus_inv b" "bus_room b"
    using bus_reach_inv [OF assms(1)] assms(2) by (simp_all add: bus_room_def)
  then obtain i b' where s: "subscribe fn b = Some (i, b')"
    using bus_registry.add_total [OF b, of fn] by auto
  with bus_registry.add_fresh [OF b s] bus_registry.add_lookup [OF b s] bus_registry.add_remove [OF b s]
  show ?thesis by blast
qed

lemma subscribe_fresh_id_witness:
  "\<exists>i b'. subscribe True new_bus = Some (i, b') \<and> bus_lookup b' = (bus_lookup new_bus)(i \<mapsto> True)"
  using subscribe_fresh_id [OF bus_reach.start, of True] by (auto simp: int64_max_def)

text \<open>\<open>itoa\<close> never runs out of its 20-byte buffer on a positive 64-bit number and gives
  the decimal text that \<open>strconv.ParseInt\<close> reads back.\<close>

theorem itoa_total:
  assumes "0 \<le> n" and "n \<le> int64_max"
  shows "\<exists>s. itoa n = Some s \<and> parse_int s = Some n \<and> length s \<le> 19"
proof -
  have "length (dec_int n) \<le> 19"
    using assms length_dec_nat [of "nat n" 19] by (simp add: dec_int_def int64_max_def nat_less_iff)
  then show ?thesis using assms itoa_dec [of n] parse_int_dec_int [of n]
    by (simp add: int64_max_def int64_min_def)
qed

lemma itoa_total_witness: "\<exists>s. itoa 9223372036854775807 = Some s \<and> parse_int s = Some 9223372036854775807"
  using itoa_total [of 9223372036854775807] by (auto simp: int64_max_def)

text \<open>\<open>Publish\<close> calls every current subscriber exactly once with the event, in the order of
  the snapshot, whichever of them panic.\<close>

theorem publish_delivers:
  "publish (\<lambda>fn e s. (s @ [(fn, e)], panics fn)) b e s = s @ map (\<lambda>fn. (fn, e)) (map snd (bus_subs b))"
proof -
  have "foldl (\<lambda>s fn. fst (s @ [(fn, e)], panics fn)) s hs = s @ map (\<lambda>fn. (fn, e)) hs" for hs s
    by (induction hs arbitrary: s) simp_all
  then show ?thesis by (simp add: publish_def)
qed

end
