(* ===== verification/Agent.thy ===== *)
theory Agent
  imports Storage EventBus
begin

section \<open>The agent (\<open>internal/agent\<close>)\<close>

text \<open>
  \<open>agent.go\<close>: the event sink that the adapters emit to, and the lifecycle as the sequence of calls
  that \<open>Start\<close> and \<open>Stop\<close> make; \<open>recording.go\<close>: starting and stopping a recording. The sink
  works on the database and on the world of the bus's subscribers (\<open>'s\<close>). The identifier and the
  clock are arguments. The locale \<open>event_sink\<close> is what the adapters rely on
  (\<open>adapters.EventSink\<close>); the agent's sink is its interpretation.
\<close>

subsection \<open>\<open>agentSink.Emit\<close>\<close>

datatype emit_error =
    InvalidEvent "event_error list"
  | InsertFailed db_error

definition tag_event :: "string \<Rightarrow> timeline_event \<Rightarrow> timeline_event" where
  "tag_event active e =
     (if active \<noteq> [] \<and> ev_scenario_id e = None then e\<lparr>ev_scenario_id := Some active\<rparr> else e)"

definition emit ::
    "('h \<Rightarrow> timeline_event \<Rightarrow> 's \<Rightarrow> 's \<times> bool) \<Rightarrow> 'h bus \<Rightarrow> string \<Rightarrow> instant \<Rightarrow> timeline_event \<Rightarrow>
     db \<times> 's \<Rightarrow> (emit_error + unit) \<times> (db \<times> 's)" where
  "emit run b active now event st =
     (if event_validate event \<noteq> [] then (Inl (InvalidEvent (event_validate event)), st)
      else let e = tag_event active event in
        case event_insert now e (fst st) of
          (Inl err, d) \<Rightarrow> (Inl (InsertFailed err), (d, snd st))
        | (Inr _, d) \<Rightarrow> (Inr (), (d, publish run b e (snd st))))"

subsection \<open>Recordings\<close>

record recording =
  rec_scenario_id :: string
  rec_name :: string
  rec_started_at :: instant

datatype rec_error =
    AlreadyActive string
  | CheckName db_error
  | NameExists string
  | InsertScenario db_error
  | NoActive
  | ListEvents db_error
  | UpdateScenario db_error

definition active_recording :: "recording option \<Rightarrow> string" where
  "active_recording act = (case act of None \<Rightarrow> [] | Some r \<Rightarrow> rec_scenario_id r)"

definition active_recording_name :: "recording option \<Rightarrow> string" where
  "active_recording_name act = (case act of None \<Rightarrow> [] | Some r \<Rightarrow> rec_name r)"

definition recording_scenario ::
    "string \<Rightarrow> instant \<Rightarrow> string \<Rightarrow> string \<Rightarrow> string goslice \<Rightarrow> string \<Rightarrow> scenario" where
  "recording_scenario i now name descr tags creator =
     \<lparr>sc_id = i, sc_name = name, sc_description = descr, sc_status = ''recording'',
      sc_started_at = now, sc_stopped_at = None, sc_event_count = 0, sc_replayable_count = 0,
      sc_root_event_ids = None, sc_tags = tags, sc_config_snapshot_id = [],
      sc_redaction_summary = None, sc_created_by = creator, sc_error_message = []\<rparr>"

definition start_recording ::
    "float_text \<Rightarrow> string \<Rightarrow> instant \<Rightarrow> string \<Rightarrow> string \<Rightarrow> string goslice \<Rightarrow> string \<Rightarrow>
     recording option \<times> db \<Rightarrow> (rec_error + scenario) \<times> (recording option \<times> db)" where
  "start_recording ft i now name descr tags creator st =
     (case fst st of
        Some r \<Rightarrow> (Inl (AlreadyActive (rec_name r)), st)
      | None \<Rightarrow>
          (case scenario_get_by_name ft name (snd st) of
             (Inl err, d) \<Rightarrow> (Inl (CheckName err), (None, d))
           | (Inr (Some existing), d) \<Rightarrow> (Inl (NameExists name), (None, d))
           | (Inr None, d) \<Rightarrow>
               (let s = recording_scenario i now name descr tags creator in
                case scenario_insert s d of
                  (Inl err, d') \<Rightarrow> (Inl (InsertScenario err), (None, d'))
                | (Inr _, d') \<Rightarrow>
                    (Inr s, (Some \<lparr>rec_scenario_id = i, rec_name = name, rec_started_at = now\<rparr>, d')))))"

definition replayable :: "timeline_event \<Rightarrow> bool" where
  "replayable e = (case ev_request e of None \<Rightarrow> False | Some r \<Rightarrow> rq_replayable r)"

definition stop_recording ::
    "float_text \<Rightarrow> instant \<Rightarrow> recording option \<times> db \<Rightarrow>
     (rec_error + scenario option) \<times> (recording option \<times> db)" where
  "stop_recording ft now st =
     (case fst st of
        None \<Rightarrow> (Inl NoActive, st)
      | Some r \<Rightarrow>
          (let i = rec_scenario_id r in
           case event_list_by_scenario ft i (snd st) of
             (Inl err, d) \<Rightarrow> (Inl (ListEvents err), (fst st, d))
           | (Inr events, d) \<Rightarrow>
               (case scenario_update_status i ''completed'' (Some now) (int (length events))
                       (int (length (filter replayable events))) [] d of
                  (Inl err, d') \<Rightarrow> (Inl (UpdateScenario err), (fst st, d'))
                | (Inr _, d') \<Rightarrow>
                    (case scenario_get_by_id ft i d' of
                       (Inl _, d'') \<Rightarrow> (Inr None, (None, d''))
                     | (Inr s, d'') \<Rightarrow> (Inr s, (None, d''))))))"

subsection \<open>Lifecycle\<close>

datatype agent_status = Starting | Running | Stopping | Stopped | Failed

datatype life_call =
    OpenDatabase
  | StartAdapter string
  | ListenStudio
  | StopAdapter string
  | CancelAdapters
  | ShutdownApi
  | CloseDatabase
  | CloseDone

text \<open>
  What the agent holds: its status, whether it has a database, a cancel function and an API, the
  adapters in registration order, and whether \<open>done\<close> is closed.
\<close>

record agent_life =
  al_status :: agent_status
  al_db :: bool
  al_cancel :: bool
  al_api :: bool
  al_adapters :: "string list"
  al_done :: bool

definition new_agent :: agent_life where
  "new_agent = \<lparr>al_status = Stopped, al_db = False, al_cancel = False, al_api = False,
     al_adapters = [], al_done = False\<rparr>"

definition register_adapter :: "string \<Rightarrow> agent_life \<Rightarrow> agent_life" where
  "register_adapter n a = a\<lparr>al_adapters := al_adapters a @ [n]\<rparr>"

text \<open>
  \<open>Start\<close>: \<open>open_ok\<close> and \<open>listen_ok\<close> are the outcomes of opening the database and of listening; an
  adapter that fails to start is logged and the next one is started.
\<close>

definition agent_start :: "bool \<Rightarrow> bool \<Rightarrow> agent_life \<Rightarrow> bool \<times> life_call list \<times> agent_life" where
  "agent_start open_ok listen_ok a =
     (if \<not> open_ok then (False, [OpenDatabase], a\<lparr>al_status := Failed\<rparr>)
      else let a1 = a\<lparr>al_db := True, al_cancel := True, al_api := True\<rparr>;
               calls = OpenDatabase # map StartAdapter (al_adapters a) @ [ListenStudio] in
        if \<not> listen_ok then (False, calls, a1\<lparr>al_status := Failed\<rparr>)
        else (True, calls, a1\<lparr>al_status := Running\<rparr>))"

text \<open>\<open>Stop\<close> returns no error; closing \<open>done\<close> a second time is a panic, the \<open>None\<close> here.\<close>

definition agent_stop :: "agent_life \<Rightarrow> (life_call list \<times> agent_life) option" where
  "agent_stop a =
     (if al_done a then None
      else Some (map StopAdapter (rev (al_adapters a)) @
          (if al_cancel a then [CancelAdapters] else []) @
          (if al_api a then [ShutdownApi] else []) @
          (if al_db a then [CloseDatabase] else []) @ [CloseDone],
        a\<lparr>al_status := Stopped, al_done := True\<rparr>))"

subsection \<open>The contract of the sink\<close>

text \<open>
  \<open>stored st\<close> are the events kept, by identifier. A client that emits a list of events, going on
  after an error, stores exactly those that succeed.
\<close>

definition emit_all ::
    "('v \<Rightarrow> 's \<Rightarrow> ('e + unit) \<times> 's) \<Rightarrow> 'v list \<Rightarrow> 's \<Rightarrow> bool list \<times> 's" where
  "emit_all em es st = foldl (\<lambda>(oks, s) e. case em e s of (r, s') \<Rightarrow> (oks @ [r = Inr ()], s')) ([], st) es"

locale event_sink =
  fixes em :: "'v \<Rightarrow> 's \<Rightarrow> ('e + unit) \<times> 's"
    and stored :: "'s \<Rightarrow> string \<Rightarrow> bool"
    and key :: "'v \<Rightarrow> string"
    and valid :: "'v \<Rightarrow> bool"
  assumes em_done: "em e s = (Inr (), s') \<Longrightarrow> valid e \<and> \<not> stored s (key e) \<and> stored s' = (stored s)(key e := True)"
    and em_error: "em e s = (Inl err, s') \<Longrightarrow> stored s' = stored s"
begin

lemma em_keeps: "em e s = (r, s') \<Longrightarrow> stored s k \<Longrightarrow> stored s' k"
  using em_done [of e s s'] em_error [of e s _ s'] by (cases r) (auto split: if_splits)

lemma em_only_key: "em e s = (r, s') \<Longrightarrow> stored s' k \<Longrightarrow> stored s k \<or> (r = Inr () \<and> k = key e)"
  using em_done [of e s s'] em_error [of e s _ s'] by (cases r) (auto split: if_splits)

lemma em_invalid: "\<not> valid e \<Longrightarrow> \<exists>err s'. em e s = (Inl err, s')"
  using em_done [of e s] by (cases "em e s"; cases "fst (em e s)") auto

lemma emit_all_snoc: "emit_all em (es @ [e]) st =
   (case emit_all em es st of (oks, s) \<Rightarrow> case em e s of (r, s') \<Rightarrow> (oks @ [r = Inr ()], s'))"
  by (simp add: emit_all_def split_beta)

lemma emit_all_stored:
  "emit_all em es st = (oks, st') \<Longrightarrow>
   length oks = length es \<and>
   (stored st' k \<longleftrightarrow> stored st k \<or> (\<exists>i < length es. oks ! i \<and> key (es ! i) = k))"
proof (induction es arbitrary: oks st' rule: rev_induct)
  case Nil
  then show ?case by (simp add: emit_all_def)
next
  case (snoc e es)
  obtain oks1 s1 where 1: "emit_all em es st = (oks1, s1)" by (cases "emit_all em es st")
  obtain r s2 where 2: "em e s1 = (r, s2)" by (cases "em e s1")
  from snoc.prems 1 2 have eq: "oks = oks1 @ [r = Inr ()]" "st' = s2" by (simp_all add: emit_all_snoc)
  have ih: "length oks1 = length es"
    "stored s1 k \<longleftrightarrow> stored st k \<or> (\<exists>i < length es. oks1 ! i \<and> key (es ! i) = k)"
    using snoc.IH [OF 1] by simp_all
  have "stored s2 k \<longleftrightarrow> stored s1 k \<or> (r = Inr () \<and> key e = k)"
    using em_keeps [OF 2] em_only_key [OF 2] em_done [of e s1 s2] 2 by auto
  with ih show ?case by (auto simp: eq nth_append less_Suc_eq)
qed

text \<open>The counter of a client that counts its successful emissions counts the new events.\<close>

lemma emitted_count:
  assumes "em e s = (Inr (), s')" and "finite {k. stored s k}"
  shows "finite {k. stored s' k} \<and> card {k. stored s' k} = card {k. stored s k} + 1"
proof -
  have "{k. stored s' k} = insert (key e) {k. stored s k}" "key e \<notin> {k. stored s k}"
    using em_done [OF assms(1)] by auto
  with assms(2) show ?thesis by simp
qed

lemma emit_error_stored: "em e s = (Inl err, s') \<Longrightarrow> {k. stored s' k} = {k. stored s k}"
  using em_error by simp

end

definition event_stored :: "db \<times> 's \<Rightarrow> string \<Rightarrow> bool" where
  "event_stored st i = in_table evr_id i (db_events (fst st))"

lemma tag_event_id [simp]: "ev_id (tag_event active e) = ev_id e"
  by (simp add: tag_event_def)

lemma event_insert_in_table:
  "event_insert now e d = (Inr (), d') \<Longrightarrow> \<not> in_table evr_id (ev_id e) (db_events d) \<and>
     db_events d' = db_events d @ [event_row_of now e]"
  unfolding event_insert_def by (elim statement_done) (simp add: insert_row_done)

lemma event_insert_error_tables: "event_insert now e d = (Inl err, d') \<Longrightarrow> same_tables d d'"
  using do_write_error [of "WEvent now e"] by simp

lemma same_tables_events: "same_tables st st' \<Longrightarrow> db_events st' = db_events st"
  unfolding same_tables_def by (metis db.select_convs(4) db.surjective db.update_convs(7))

interpretation agent_sink: event_sink "emit run b active now" event_stored ev_id
    "\<lambda>e. event_validate e = []" for run b active now
proof unfold_locales
  fix e s s'
  assume "emit run b active now e s = (Inr (), s')"
  then obtain d where v: "event_validate e = []"
    and i: "event_insert now (tag_event active e) (fst s) = (Inr (), d)" and s': "fst s' = d"
    by (auto simp: emit_def Let_def split: if_splits prod.splits sum.splits)
  show "event_validate e = [] \<and> \<not> event_stored s (ev_id e) \<and>
      event_stored s' = (event_stored s)(ev_id e := True)"
    using v event_insert_in_table [OF i] by (auto simp: event_stored_def s' fun_eq_iff)
next
  fix e s err s'
  assume "emit run b active now e s = (Inl err, s')"
  then have "db_events (fst s') = db_events (fst s)"
    by (auto simp: emit_def Let_def split: if_splits prod.splits sum.splits
        dest!: event_insert_error_tables same_tables_events)
  then show "event_stored s' = event_stored s" by (simp add: event_stored_def fun_eq_iff)
qed

text \<open>The sink of the adapters: it takes timeline events and knows them by their identifier.\<close>

locale timeline_sink = event_sink em stored ev_id valid
  for em :: "timeline_event \<Rightarrow> 's \<Rightarrow> ('e + unit) \<times> 's" and stored and valid

interpretation adapter_sink: timeline_sink "emit run b active now" event_stored
    "\<lambda>e. event_validate e = []" for run b active now
  by unfold_locales

subsection \<open>Recordings in the database\<close>

lemma scenario_select_not_None: "fst (scenario_select ft P st) \<noteq> Inr None"
  by (auto simp: scenario_select_def statement_def split: list.split option.split)

lemma start_recording_error:
  "\<exists>err. fst (start_recording ft i now name descr tags creator st) = Inl err"
  using scenario_select_not_None [of ft "\<lambda>r. scr_name r = name" "snd st"]
  by (auto simp: start_recording_def scenario_get_by_name_def split: option.split sum.split prod.split)

lemma scan_all_length: "scan_all f rs = Inr xs \<Longrightarrow> length xs = length rs"
  by (auto simp: scan_all_list dest: list_all2_lengthD)

lemma stop_recording_done:
  assumes s: "stop_recording ft now (Some r, d) = (Inr sc, (act, d'))"
    and row: "in_table scr_id (rec_scenario_id r) (db_scens d)"
  shows "act = None" and "\<exists>row \<in> set (db_scens d'). scr_id row = rec_scenario_id r \<and>
      scr_status row = ''completed'' \<and> scr_stopped_at_ms row = Some (unix_milli now) \<and>
      scr_event_count row =
        int (length (filter (\<lambda>e. evr_scenario_id e = Some (rec_scenario_id r)) (db_events d)))"
proof -
  let ?i = "rec_scenario_id r"
  obtain evs d1 where l: "event_list_by_scenario ft ?i d = (Inr evs, d1)"
    using s by (auto simp: stop_recording_def Let_def split: prod.splits sum.splits)
  then obtain d2 where u: "scenario_update_status ?i ''completed'' (Some now) (int (length evs))
      (int (length (filter replayable evs))) [] d1 = (Inr (), d2)"
    using s by (auto simp: stop_recording_def Let_def split: prod.splits sum.splits)
  with l s have g: "act = None" "d' = snd (scenario_get_by_id ft ?i d2)"
    by (auto simp: stop_recording_def Let_def split: prod.splits sum.splits)
  then show "act = None" by simp
  let ?u = "\<lambda>x. x\<lparr>scr_status := ''completed'', scr_stopped_at_ms := Some (unix_milli now),
        scr_event_count := int (length evs), scr_replayable_count := int (length (filter replayable evs)),
        scr_error_message := []\<rparr>"
  have d1: "db_scens d1 = db_scens d" and
    len: "length evs = length (filter (\<lambda>e. evr_scenario_id e = Some ?i) (db_events d))"
    using l unfolding event_list_by_scenario_def
    by (elim statement_done; auto dest!: scan_all_length)+
  have "db_scens d' = db_scens d2"
    by (auto simp: g(2) scenario_get_by_id_def scenario_select_def statement_def split: list.split)
  moreover have "db_scens d2 = map (\<lambda>x. if scr_id x = ?i then ?u x else x) (db_scens d1)"
    using u unfolding scenario_update_status_def by (elim statement_done) (auto split: if_splits)
  moreover obtain row where "row \<in> set (db_scens d)" "scr_id row = ?i"
    using row by (auto simp: in_table_def)
  ultimately have "?u row \<in> set (db_scens d')" using d1 by force
  moreover have "scr_id (?u row) = ?i" using \<open>scr_id row = ?i\<close> by simp
  ultimately show "\<exists>row \<in> set (db_scens d'). scr_id row = ?i \<and>
      scr_status row = ''completed'' \<and> scr_stopped_at_ms row = Some (unix_milli now) \<and>
      scr_event_count row = int (length (filter (\<lambda>e. evr_scenario_id e = Some ?i) (db_events d)))"
    by (intro bexI [of _ "?u row"] conjI) (simp_all add: len)
qed

subsection \<open>Properties\<close>

text \<open>C3: The sink publishes an event exactly when it has stored it: an event that is valid and
  inserted is appended to the table with the active scenario's identifier and then given to every
  subscriber; an invalid event or a failed insert leaves the events and the subscribers untouched.\<close>

theorem emit_stores_then_publishes:
  assumes "emit run b active now e (d, s) = (r, (d', s'))"
  shows "(r = Inr () \<and> event_validate e = [] \<and>
      db_events d' = db_events d @ [event_row_of now (tag_event active e)] \<and>
      s' = publish run b (tag_event active e) s) \<or>
    ((\<exists>err. r = Inl err) \<and> db_events d' = db_events d \<and> s' = s)"
  using assms
  by (auto simp: emit_def Let_def split: if_splits prod.splits sum.splits
      dest: event_insert_in_table event_insert_error_tables same_tables_events)

definition deliver :: "bool \<Rightarrow> timeline_event \<Rightarrow> string list \<Rightarrow> string list \<times> bool" where
  "deliver panics e s = (s @ [ev_id e], panics)"

lemma emit_stores_then_publishes_witness:
  "\<exists>d' s'. emit deliver \<lparr>bus_subs = [(''sub_1'', True)], bus_next = 1\<rparr> [] 0 sample_event (empty_db, []) =
     (Inr (), (d', s')) \<and> length (db_events d') = 1 \<and> s' = [''evt_1'']"
proof -
  let ?b = "\<lparr>bus_subs = [(''sub_1'', True)], bus_next = 1\<rparr>"
  have t: "tag_event [] sample_event = sample_event" by (simp add: tag_event_def)
  have "event_validate sample_event = []"
    by (simp add: event_validate_ok sample_event_def is_zero_time_def zero_time_def is_valid_status_def
        event_statuses_def)
  then have e: "emit deliver ?b [] 0 sample_event (empty_db, []) =
      (Inr (), (empty_db\<lparr>db_events := [event_row_of 0 sample_event]\<rparr>, publish deliver ?b sample_event []))"
    by (simp add: emit_def t sample_event_insert)
  from emit_stores_then_publishes [OF e] e show ?thesis
    by (simp add: publish_def deliver_def) (simp add: sample_event_def)
qed

text \<open>\<open>Agent.StartRecording\<close> never starts a recording: looking up an unused name is already an
  error (\<open>sql.ErrNoRows\<close>), and a used name is refused.\<close>

theorem start_recording_never_succeeds:
  "fst (start_recording ft i now name descr tags creator st) \<noteq> Inr s"
  using start_recording_error [of ft i now name descr tags creator st] by auto

text \<open>C12: Stopping a recording that is in the database completes it: its row has the status
  \<open>completed\<close>, the time, and as event count the number of events stored under it; nothing is
  active afterwards.\<close>

theorem stop_recording_completes:
  assumes "stop_recording ft now (Some r, d) = (Inr sc, (act, d'))"
    and "in_table scr_id (rec_scenario_id r) (db_scens d)"
  shows "act = None \<and> (\<exists>row \<in> set (db_scens d'). scr_id row = rec_scenario_id r \<and>
      scr_status row = ''completed'' \<and> scr_stopped_at_ms row = Some (unix_milli now) \<and>
      scr_event_count row =
        int (length (filter (\<lambda>e. evr_scenario_id e = Some (rec_scenario_id r)) (db_events d))))"
  using stop_recording_done [OF assms] by blast

lemma stop_recording_completes_witness:
  "\<exists>sc d'. stop_recording Some 5000000 (Some \<lparr>rec_scenario_id = ''scn_1'', rec_name = ''demo'', rec_started_at = 0\<rparr>,
      empty_db\<lparr>db_scens := [scenario_row_of sample_scenario]\<rparr>) = (Inr sc, (None, d')) \<and>
     (\<exists>row \<in> set (db_scens d'). scr_status row = ''completed'')"
proof -
  let ?r = "\<lparr>rec_scenario_id = ''scn_1'', rec_name = ''demo'', rec_started_at = 0\<rparr>"
  let ?d = "empty_db\<lparr>db_scens := [scenario_row_of sample_scenario]\<rparr>"
  obtain sc d' where s: "stop_recording Some 5000000 (Some ?r, ?d) = (Inr sc, (None, d'))"
    by (simp add: stop_recording_def Let_def event_list_by_scenario_def scenario_update_status_def
        scenario_get_by_id_def scenario_select_def statement_def empty_db_def scenario_row_of_def
        sample_scenario_def select_one_def scenario_statuses_def)
  have "in_table scr_id (rec_scenario_id ?r) (db_scens ?d)"
    by (simp add: scenario_row_of_def sample_scenario_def empty_db_def)
  from stop_recording_completes [OF s this] s show ?thesis by blast
qed

text \<open>Stopping a started agent undoes the start: the adapters are stopped in the reverse of the
  order they were started in, then their context is cancelled, the API shut down and, last, the
  database closed; a second \<open>Stop\<close> panics.\<close>

theorem stop_undoes_start:
  assumes "agent_start True listen_ok a = (ok, calls, a1)" and "\<not> al_done a"
  shows "\<exists>a2. agent_stop a1 = Some (map StopAdapter (rev [n. StartAdapter n \<leftarrow> calls]) @
      [CancelAdapters, ShutdownApi, CloseDatabase, CloseDone], a2) \<and>
    al_status a2 = Stopped \<and> agent_stop a2 = None"
proof -
  have "[n. StartAdapter n \<leftarrow> OpenDatabase # map StartAdapter ns @ [ListenStudio]] = ns" for ns
    by (induction ns) simp_all
  with assms show ?thesis
    by (auto simp: agent_start_def agent_stop_def Let_def split: if_splits)
qed

lemma stop_undoes_start_witness:
  "\<exists>a1 a2. agent_stop a1 = Some ([StopAdapter ''redis'', StopAdapter ''http'',
      CancelAdapters, ShutdownApi, CloseDatabase, CloseDone], a2) \<and> agent_stop a2 = None"
proof -
  let ?a = "register_adapter ''redis'' (register_adapter ''http'' new_agent)"
  have s: "agent_start True True ?a = (True, [OpenDatabase, StartAdapter ''http'', StartAdapter ''redis'', ListenStudio],
      ?a\<lparr>al_db := True, al_cancel := True, al_api := True, al_status := Running\<rparr>)"
    by (simp add: agent_start_def register_adapter_def new_agent_def)
  have "\<not> al_done ?a" by (simp add: register_adapter_def new_agent_def)
  from stop_undoes_start [OF s this] show ?thesis by auto
qed

end
