(* ===== verification/Redaction.thy ===== *)
theory Redaction
  imports Timeline
begin

section \<open>Redaction (\<open>internal/redaction/redaction.go\<close>)\<close>

text \<open>
  A policy and its three operations: headers in place, the top-level fields of a JSON body, the
  length of a preview; and the secret scan that export uses. The in-place change of a Go map is the
  new association list. Reading and writing a body goes through \<open>dec_map_any\<close> and
  \<open>enc_map_any\<close>, so the theorems speak about the text that is stored.
\<close>

definition redacted_marker :: string where
  "redacted_marker = ''[REDACTED]''"

record policy =
  pol_headers :: "string list"
  pol_json_paths :: "string list"
  pol_body_max_bytes :: int

definition default_policy :: policy where
  "default_policy =
     \<lparr>pol_headers = [''authorization'', ''proxy-authorization'', ''cookie'', ''set-cookie'',
        ''x-api-key'', ''x-auth-token'', ''stripe-signature''],
      pol_json_paths = [''$.password'', ''$.token'', ''$.access_token'', ''$.refresh_token''],
      pol_body_max_bytes = 8192\<rparr>"

definition header_denied :: "policy \<Rightarrow> string \<Rightarrow> bool" where
  "header_denied p k = (to_lower k \<in> set (map to_lower (pol_headers p)))"

definition redact_header :: "policy \<Rightarrow> string \<times> string \<Rightarrow> string \<times> string" where
  "redact_header p kv =
     (if header_denied p (fst kv) \<and> snd kv \<noteq> redacted_marker then (fst kv, redacted_marker) else kv)"

definition redact_headers :: "policy \<Rightarrow> string gomap \<Rightarrow> string gomap \<times> nat" where
  "redact_headers p h =
     (case h of
        None \<Rightarrow> (None, 0)
      | Some m \<Rightarrow> (Some (map (redact_header p) m),
          length (filter (\<lambda>kv. header_denied p (fst kv) \<and> snd kv \<noteq> redacted_marker) m)))"

definition redact_path :: "(string \<times> json) list \<times> nat \<Rightarrow> string \<Rightarrow> (string \<times> json) list \<times> nat" where
  "redact_path acc path =
     (let field = trim_prefix path ''$.'' in
      if field = path then acc
      else if length (split_n2 field ''.'') = 1 then
        (if has_key (fst acc) field
         then (AList.update field (JStr redacted_marker) (fst acc), snd acc + 1) else acc)
      else acc)"

definition redact_json_body :: "float_text \<Rightarrow> policy \<Rightarrow> string \<Rightarrow> string \<times> nat" where
  "redact_json_body ft p body =
     (if body = [] then (body, 0)
      else case unmarshal (dec_map_any ft) body None of
        (False, _) \<Rightarrow> (body, 0)
      | (True, m) \<Rightarrow>
          (case foldl redact_path (entries m, 0) (pol_json_paths p) of
             (obj, count) \<Rightarrow>
               (if count = 0 then (body, 0) else (json_column enc_map_any (Some obj), count))))"

definition truncate_preview :: "policy \<Rightarrow> string \<Rightarrow> string" where
  "truncate_preview p body =
     (if pol_body_max_bytes p \<le> 0 \<or> int (length body) \<le> pol_body_max_bytes p then body
      else take (nat (pol_body_max_bytes p)) body)"

definition secret_patterns :: "(string \<times> string) list" where
  "secret_patterns =
     [(''bearer '', ''possible bearer token''),
      (''basic '', ''possible basic auth credential''),
      (''password'', ''possible password value''),
      (''secret'', ''possible secret value''),
      (''api_key'', ''possible API key''),
      (''apikey'', ''possible API key''),
      (''private_key'', ''possible private key'')]"

definition scan_for_secrets :: "string \<Rightarrow> string list" where
  "scan_for_secrets s =
     map snd (filter (\<lambda>p. str_contains (to_lower s) (fst p)) secret_patterns)"

subsection \<open>Headers\<close>

lemma redact_header_fst [simp]: "fst (redact_header p kv) = fst kv"
  by (simp add: redact_header_def)

lemma redact_header_idem [simp]: "redact_header p (redact_header p kv) = redact_header p kv"
  by (simp add: redact_header_def)

lemma redact_headers_keys: "map fst (map (redact_header p) m) = map fst m"
  by simp

lemma map_of_redact:
  "map_of (map (redact_header p) m) k =
   (if header_denied p k \<and> has_key m k then Some redacted_marker else map_of m k)"
  by (induction m) (auto simp: redact_header_def has_key_def)

text \<open>The denial of a header does not depend on the case of its name.\<close>

lemma header_denied_fold: "equal_fold k k' \<Longrightarrow> header_denied p k = header_denied p k'"
  by (simp add: header_denied_def equal_fold_def)

subsection \<open>Bodies\<close>

text \<open>The fields a policy covers: paths \<open>$.f\<close> with no further dot.\<close>

definition policy_field :: "policy \<Rightarrow> string \<Rightarrow> bool" where
  "policy_field p f \<longleftrightarrow> (\<exists>path \<in> set (pol_json_paths p). path = ''$.'' @ f \<and> str_index f ''.'' = None)"

lemma split_n2_one: "length (split_n2 s sep) = Suc 0 \<longleftrightarrow> str_index s sep = None"
  by (simp add: split_n2_def split: option.split)

lemma trim_prefix_same: "trim_prefix s p = s \<longleftrightarrow> \<not> has_prefix s p \<or> p = []"
  by (cases p) (auto simp: trim_prefix_def has_prefix_iff)

lemma redact_path_keys: "distinct (map fst (fst acc)) \<Longrightarrow> distinct (map fst (fst (redact_path acc path)))"
  by (simp add: redact_path_def Let_def)

lemma redact_path_count: "snd acc \<le> snd (redact_path acc path)"
  by (simp add: redact_path_def Let_def)

definition path_field :: "string \<Rightarrow> string \<Rightarrow> bool" where
  "path_field path f \<longleftrightarrow> path = ''$.'' @ f \<and> str_index f ''.'' = None"

lemma redact_path_map_of:
  "map_of (fst (redact_path acc path)) k =
   (if path_field path k \<and> has_key (fst acc) k then Some (JStr redacted_marker) else map_of (fst acc) k)"
proof (cases "has_prefix path ''$.''")
  case True
  then obtain f where f: "path = ''$.'' @ f" by (auto simp: has_prefix_iff)
  then have "trim_prefix path ''$.'' = f" "f \<noteq> path"
    using trim_prefix_append [of "''$.''" f] by simp_all
  then show ?thesis using f
    by (auto simp: redact_path_def Let_def path_field_def update_conv has_key_def split_n2_one)
next
  case False
  then have "trim_prefix path ''$.'' = path" by (simp add: trim_prefix_def)
  moreover have "\<not> path_field path k" using False by (auto simp: path_field_def has_prefix_def)
  ultimately show ?thesis by (simp add: redact_path_def)
qed

lemma redact_path_has_key: "has_key (fst (redact_path acc path)) k = has_key (fst acc) k"
  unfolding has_key_def redact_path_map_of by (auto simp: has_key_def)

lemma redact_paths_map_of:
  "map_of (fst (foldl redact_path acc paths)) k =
   (if (\<exists>path \<in> set paths. path_field path k) \<and> has_key (fst acc) k
    then Some (JStr redacted_marker) else map_of (fst acc) k)"
  by (induction paths arbitrary: acc) (auto simp: redact_path_map_of redact_path_has_key)

lemma redact_paths_keys:
  "distinct (map fst (fst acc)) \<Longrightarrow> distinct (map fst (fst (foldl redact_path acc paths)))"
  by (induction paths arbitrary: acc) (simp_all add: redact_path_keys)

lemma redact_paths_count: "snd acc \<le> snd (foldl redact_path acc paths)"
proof (induction paths arbitrary: acc)
  case (Cons path paths)
  from redact_path_count [of acc path] Cons.IH [of "redact_path acc path"] show ?case by simp
qed simp

lemma redact_paths_none:
  "snd (foldl redact_path acc paths) = snd acc \<Longrightarrow>
   \<forall>path \<in> set paths. \<forall>k. path_field path k \<longrightarrow> \<not> has_key (fst acc) k"
proof (induction paths arbitrary: acc)
  case (Cons path paths)
  have "snd (redact_path acc path) = snd acc"
    using Cons.prems redact_path_count [of acc path] redact_paths_count [of "redact_path acc path" paths]
    by simp
  moreover have "\<not> has_key (fst acc) k" if "path_field path k" "snd (redact_path acc path) = snd acc" for k
    using that trim_prefix_append [of "''$.''" k]
    by (auto simp: path_field_def redact_path_def Let_def split_n2_one split: if_splits)
  ultimately show ?case
    using Cons.IH [of "redact_path acc path"] Cons.prems by (auto simp: redact_path_has_key)
qed simp

lemma redact_path_mem:
  "(k, v) \<in> set (fst (redact_path acc path)) \<Longrightarrow>
   (k, v) \<in> set (fst acc) \<or> v = JStr redacted_marker \<and> has_key (fst acc) k"
  by (auto simp: redact_path_def Let_def has_key_iff split: if_splits dest!: AList_update_mem)

lemma redact_paths_mem:
  "(k, v) \<in> set (fst (foldl redact_path acc paths)) \<Longrightarrow>
   (k, v) \<in> set (fst acc) \<or> v = JStr redacted_marker \<and> has_key (fst acc) k"
proof (induction paths arbitrary: acc)
  case (Cons path paths)
  then show ?case
    using Cons.IH [of "redact_path acc path"] redact_path_mem [of k v acc path]
    by (auto simp: redact_path_has_key)
qed simp

lemma valid_marker: "valid_utf8 redacted_marker"
  by (simp add: redacted_marker_def valid_utf8_literal)

lemma redact_paths_entries:
  assumes "any_entries ft l"
  shows "any_entries ft (fst (foldl redact_path (l, n) paths))"
proof -
  let ?r = "fst (foldl redact_path (l, n) paths)"
  have "valid_utf8 k \<and> any_ok ft v \<and> json_depth v < max_nesting" if "(k, v) \<in> set ?r" for k v
    using redact_paths_mem [OF that] assms
    by (auto simp: any_entries_def json_depth_obj has_key_iff valid_marker max_nesting_def
        simp del: json_depth.simps(2))
  moreover have "distinct (map fst ?r)"
    using assms by (intro redact_paths_keys) (simp add: any_entries_def)
  ultimately show ?thesis
    by (auto simp: any_entries_def json_depth_obj max_nesting_def simp del: json_depth.simps(2))
qed

text \<open>The stored text of a redacted body, read back.\<close>

lemma redact_json_body_reads:
  assumes ft: "float_text_ok ft" and u: "unmarshal (dec_map_any ft) body None = (True, Some m)"
    and r: "redact_json_body ft p body = (out, count)" and c: "count \<noteq> 0"
  shows "unmarshal (dec_map_any ft) out None =
    (True, Some (sort_key fst (fst (foldl redact_path (m, 0) (pol_json_paths p)))))"
proof -
  let ?o = "fst (foldl redact_path (m, 0) (pol_json_paths p))"
  have "out = json_column enc_map_any (Some ?o)"
    using u r c by (auto simp: redact_json_body_def split: if_splits prod.splits)
  moreover have "any_entries ft ?o"
    by (rule redact_paths_entries [OF unmarshal_map_any_ok [OF ft u]])
  ultimately show ?thesis using map_any_reads_back by blast
qed

lemma unmarshal_empty [simp]: "unmarshal d [] x = (False, x)"
  by (simp add: unmarshal_def json_unmarshal_def skip_ws_def)

lemma redact_json_body_lookup:
  assumes ft: "float_text_ok ft" and u: "unmarshal (dec_map_any ft) body None = (True, Some m)"
    and r: "redact_json_body ft p body = (out, count)"
  shows "\<exists>m'. unmarshal (dec_map_any ft) out None = (True, Some m') \<and>
    (\<forall>k. map_of m' k = (if policy_field p k \<and> has_key m k then Some (JStr redacted_marker) else map_of m k))"
proof (cases "count = 0")
  case True
  with u r have "out = body" and z: "snd (foldl redact_path (m, 0) (pol_json_paths p)) = 0"
    by (auto simp: redact_json_body_def split: if_splits prod.splits)
  moreover have "\<not> (policy_field p k \<and> has_key m k)" for k
    using redact_paths_none [of "(m, 0)" "pol_json_paths p"] z
    by (auto simp: policy_field_def path_field_def)
  ultimately show ?thesis using u by auto
next
  case False
  let ?o = "fst (foldl redact_path (m, 0) (pol_json_paths p))"
  have "any_entries ft ?o"
    by (rule redact_paths_entries [OF unmarshal_map_any_ok [OF ft u]])
  then have "map_of (sort_key fst ?o) k = map_of ?o k" for k
    by (intro map_of_sort) (simp add: any_entries_def)
  then show ?thesis using redact_json_body_reads [OF ft u r False]
    by (auto simp: redact_paths_map_of policy_field_def path_field_def)
qed

subsection \<open>Redacting twice\<close>

lemma AList_update_same: "map_of m k = Some v \<Longrightarrow> AList.update k v m = m"
  by (induction m) auto

lemma redact_path_fixed:
  assumes "\<forall>k. path_field path k \<and> has_key m k \<longrightarrow> map_of m k = Some (JStr redacted_marker)"
  shows "fst (redact_path (m, n) path) = m"
proof (cases "trim_prefix path ''$.'' = path")
  case False
  then have "path = ''$.'' @ trim_prefix path ''$.''"
    by (auto simp: trim_prefix_def has_prefix_iff split: if_splits)
  with assms show ?thesis
    by (auto simp: redact_path_def Let_def split_n2_one path_field_def intro!: AList_update_same)
qed (simp add: redact_path_def)

lemma redact_path_snd_cong:
  "has_key m = has_key m' \<Longrightarrow> snd (redact_path (m, n) path) = snd (redact_path (m', n) path)"
  by (simp add: redact_path_def Let_def)

lemma redact_paths_fixed:
  assumes "\<forall>path \<in> set paths. \<forall>k. path_field path k \<and> has_key m k \<longrightarrow> map_of m k = Some (JStr redacted_marker)"
  shows "fst (foldl redact_path (m, n) paths) = m"
  using assms
proof (induction paths arbitrary: n)
  case (Cons path paths)
  have "redact_path (m, n) path = (m, snd (redact_path (m, n) path))"
    using redact_path_fixed [of path m n] Cons.prems by (metis list.set_intros(1) prod.collapse)
  then show ?case using Cons.IH Cons.prems by (metis foldl_Cons list.set_intros(2))
qed simp

lemma redact_paths_snd_cong:
  "has_key m = has_key m' \<Longrightarrow> snd (foldl redact_path (m, n) paths) = snd (foldl redact_path (m', n) paths)"
proof (induction paths arbitrary: m m' n)
  case (Cons path paths)
  have "has_key (fst (redact_path (m, n) path)) = has_key (fst (redact_path (m', n) path))"
    using Cons.prems by (auto simp: redact_path_has_key fun_eq_iff)
  with Cons.IH redact_path_snd_cong [OF Cons.prems, of n path] show ?case
    by (metis foldl_Cons prod.collapse)
qed simp

lemma has_key_sort: "has_key (sort_key f m) = has_key m"
  by (auto simp: has_key_iff fun_eq_iff)

lemma redact_paths_empty: "foldl redact_path ([], n) paths = ([], n)"
proof (induction paths)
  case (Cons path paths)
  have "redact_path ([], n) path = ([], n)" by (simp add: redact_path_def Let_def has_key_def)
  with Cons show ?case by simp
qed simp

lemma redact_json_body_changed:
  assumes r: "redact_json_body ft p body = (out, n)" and n: "n \<noteq> 0"
  obtains m where "unmarshal (dec_map_any ft) body None = (True, Some m)"
    and "out = json_column enc_map_any (Some (fst (foldl redact_path (m, 0) (pol_json_paths p))))"
    and "n = snd (foldl redact_path (m, 0) (pol_json_paths p))"
proof -
  from r n obtain mo where u: "unmarshal (dec_map_any ft) body None = (True, mo)"
    by (auto simp: redact_json_body_def split: if_splits prod.splits bool.splits)
  have "mo \<noteq> None"
  proof
    assume "mo = None"
    with u r n show False
      by (simp add: redact_json_body_def redact_paths_empty split: if_splits)
  qed
  then obtain m where m: "mo = Some m" by blast
  with u r n have "out = json_column enc_map_any (Some (fst (foldl redact_path (m, 0) (pol_json_paths p))))"
    "n = snd (foldl redact_path (m, 0) (pol_json_paths p))"
    by (auto simp: redact_json_body_def split: if_splits prod.splits)
  with u m that show thesis by blast
qed

lemma json_print_nonempty: "json_print (JObj ms) \<noteq> []"
  by simp

lemma redact_json_body_twice:
  assumes ft: "float_text_ok ft" and r: "redact_json_body ft p body = (out, n)"
  shows "redact_json_body ft p out = (out, n)"
proof (cases "n = 0")
  case True
  then have "out = body" using r by (auto simp: redact_json_body_def split: if_splits prod.splits bool.splits)
  with r show ?thesis by simp
next
  case False
  then obtain m where u: "unmarshal (dec_map_any ft) body None = (True, Some m)"
    and o: "out = json_column enc_map_any (Some (fst (foldl redact_path (m, 0) (pol_json_paths p))))"
    and n: "n = snd (foldl redact_path (m, 0) (pol_json_paths p))"
    using redact_json_body_changed [OF r] by metis
  let ?o = "fst (foldl redact_path (m, 0) (pol_json_paths p))"
  let ?s = "sort_key fst ?o"
  have e: "any_entries ft ?o"
    by (rule redact_paths_entries [OF unmarshal_map_any_ok [OF ft u]])
  have reads: "unmarshal (dec_map_any ft) out None = (True, Some ?s)"
    by (rule redact_json_body_reads [OF ft u r False])
  have keys: "has_key ?s = has_key m"
    using redact_paths_map_of [of "(m, 0)" "pol_json_paths p"]
    by (auto simp: has_key_sort fun_eq_iff has_key_def)
  have "distinct (map fst ?o)" using e by (simp add: any_entries_def)
  then have "fst (foldl redact_path (?s, 0) (pol_json_paths p)) = ?s"
    by (intro redact_paths_fixed) (auto simp: map_of_sort redact_paths_map_of keys)
  moreover have "snd (foldl redact_path (?s, 0) (pol_json_paths p)) = n"
    using redact_paths_snd_cong [OF keys] n by simp
  ultimately have "foldl redact_path (?s, 0) (pol_json_paths p) = (?s, n)"
    by (metis prod.collapse)
  moreover have "json_column enc_map_any (Some ?s) = out"
    using enc_map_any_sort [OF e] o by (simp add: json_column_def)
  moreover have "out \<noteq> []" using o by (simp add: json_column_def enc_map_any_def enc_gomap_def)
  ultimately show ?thesis using reads False by (simp add: redact_json_body_def)
qed

subsection \<open>Bodies that are not objects\<close>

lemma redact_json_body_not_object:
  assumes "\<And>ms. json_unmarshal body \<noteq> Some (JObj ms)"
  shows "redact_json_body ft p body = (body, 0)"
  using assms
  by (auto simp: redact_json_body_def unmarshal_def dec_map_any_def dec_gomap_def redact_paths_empty
      split: option.splits json.splits)

subsection \<open>Replacing the fields of an object\<close>

text \<open>The adapters replace the fields they are given one after the other.\<close>

definition mark_field :: "(string \<times> json) list \<Rightarrow> string \<Rightarrow> (string \<times> json) list" where
  "mark_field m f = (if has_key m f then AList.update f (JStr redacted_marker) m else m)"

lemma mark_fields_map_of:
  "map_of (foldl mark_field m fs) k =
     (if k \<in> set fs \<and> has_key m k then Some (JStr redacted_marker) else map_of m k)"
proof (induction fs arbitrary: m)
  case (Cons f fs)
  have "has_key (mark_field m f) k = has_key m k"
    by (auto simp: mark_field_def has_key_def update_conv)
  moreover have "map_of (mark_field m f) k = (if k = f \<and> has_key m k then Some (JStr redacted_marker) else map_of m k)"
    by (auto simp: mark_field_def has_key_def update_conv)
  ultimately show ?case by (auto simp: Cons.IH)
qed simp

lemma mark_field_entries: "any_entries ft m \<Longrightarrow> any_entries ft (mark_field m f)"
  unfolding any_entries_def json_depth_obj mark_field_def
  by (auto simp: valid_marker max_nesting_def has_key_iff dest!: AList_update_mem)

lemma mark_fields_entries: "any_entries ft m \<Longrightarrow> any_entries ft (foldl mark_field m fs)"
  by (induction fs arbitrary: m) (simp_all add: mark_field_entries)

lemma mark_fields_reads:
  assumes "float_text_ok ft" and "unmarshal (dec_map_any ft) s None = (True, Some m)"
  shows "\<exists>m'. unmarshal (dec_map_any ft) (json_column enc_map_any (Some (foldl mark_field m fs))) None = (True, Some m') \<and>
    (\<forall>k. map_of m' k = (if k \<in> set fs \<and> has_key m k then Some (JStr redacted_marker) else map_of m k))"
proof -
  let ?o = "foldl mark_field m fs"
  have e: "any_entries ft ?o" by (rule mark_fields_entries [OF unmarshal_map_any_ok [OF assms]])
  then have "map_of (sort_key fst ?o) k = map_of ?o k" for k
    by (intro map_of_sort) (simp add: any_entries_def)
  with map_any_reads_back [OF e] show ?thesis by (auto simp: mark_fields_map_of)
qed

subsection \<open>Properties\<close>

text \<open>C2: Redacting a body that is a JSON object gives a JSON object in which exactly the policy's
  top-level fields that were present read \<open>[REDACTED]\<close> and every other field reads as before.\<close>

theorem redact_json_body_fields:
  assumes "float_text_ok ft" and "unmarshal (dec_map_any ft) body None = (True, Some m)"
    and "redact_json_body ft p body = (out, n)"
  shows "\<exists>m'. unmarshal (dec_map_any ft) out None = (True, Some m') \<and>
    (\<forall>k. map_of m' k = (if policy_field p k \<and> has_key m k then Some (JStr redacted_marker) else map_of m k))"
  using assms by (rule redact_json_body_lookup)

definition token_body :: string where
  "token_body = ''{'' @ json_quote ''a'' @ '':1,'' @ json_quote ''token'' @ '':2}''"

lemma float_text_ok_Some: "float_text_ok Some"
  by (simp add: float_text_ok_def)

lemma token_body_reads:
  "unmarshal (dec_map_any Some) token_body None = (True, Some [(''a'', JNum ''1''), (''token'', JNum ''2'')])"
  by code_simp

lemma token_body_redacts:
  "redact_json_body Some default_policy token_body =
     (''{'' @ json_quote ''a'' @ '':1,'' @ json_quote ''token'' @ '':'' @ json_quote ''[REDACTED]'' @ ''}'', 1)"
  by code_simp

lemma policy_field_token: "policy_field default_policy ''token''"
  by (simp add: policy_field_def default_policy_def has_prefix_def)

lemma redact_json_body_fields_witness:
  "\<exists>m'. unmarshal (dec_map_any Some)
       (''{'' @ json_quote ''a'' @ '':1,'' @ json_quote ''token'' @ '':'' @ json_quote ''[REDACTED]'' @ ''}'') None
     = (True, Some m') \<and> map_of m' ''token'' = Some (JStr redacted_marker)"
  using redact_json_body_fields [OF float_text_ok_Some token_body_reads token_body_redacts] policy_field_token
  by (auto simp: has_key_def)

text \<open>C18: Redaction is idempotent on text: redacting a redacted body changes nothing and reports
  the same number of fields.\<close>

theorem redact_json_body_idempotent:
  assumes "float_text_ok ft" and "redact_json_body ft p body = (out, n)"
  shows "redact_json_body ft p out = (out, n)"
  using assms by (rule redact_json_body_twice)

lemma redact_json_body_idempotent_witness:
  "redact_json_body Some default_policy
     (''{'' @ json_quote ''a'' @ '':1,'' @ json_quote ''token'' @ '':'' @ json_quote ''[REDACTED]'' @ ''}'')
   = (''{'' @ json_quote ''a'' @ '':1,'' @ json_quote ''token'' @ '':'' @ json_quote ''[REDACTED]'' @ ''}'', 1)"
  by (rule redact_json_body_idempotent [OF float_text_ok_Some token_body_redacts])

text \<open>Header redaction keeps the header names, replaces exactly the values of the denied
  headers (names compared without case), reports the number of values it changed, and finds nothing
  left to do when it runs again.\<close>

theorem redact_headers_complete:
  assumes "redact_headers p (Some m) = (h, n)"
  shows "\<exists>m'. h = Some m' \<and> map fst m' = map fst m \<and>
    (\<forall>k. map_of m' k = (if header_denied p k \<and> has_key m k then Some redacted_marker else map_of m k)) \<and>
    n = length (filter (\<lambda>(x, y). x \<noteq> y) (zip m m')) \<and> redact_headers p h = (h, 0)"
proof -
  have h: "h = Some (map (redact_header p) m)"
    and n: "n = length (filter (\<lambda>kv. header_denied p (fst kv) \<and> snd kv \<noteq> redacted_marker) m)"
    using assms by (auto simp: redact_headers_def)
  have "filter (\<lambda>(x, y). x \<noteq> y) (zip m (map (redact_header p) m)) =
      map (\<lambda>kv. (kv, redact_header p kv)) (filter (\<lambda>kv. header_denied p (fst kv) \<and> snd kv \<noteq> redacted_marker) m)"
    by (induction m) (auto simp: redact_header_def)
  moreover have "redact_headers p h = (h, 0)"
    by (auto simp: h redact_headers_def comp_def redact_header_def filter_empty_conv)
  ultimately show ?thesis by (simp add: h n map_of_redact)
qed

lemma redact_headers_complete_witness:
  "\<exists>m'. Some [(''Cookie'', ''[REDACTED]'')] = Some m' \<and>
     redact_headers default_policy (Some [(''Cookie'', ''[REDACTED]'')]) = (Some [(''Cookie'', ''[REDACTED]'')], 0)"
proof -
  have "redact_headers default_policy (Some [(''Cookie'', ''s=1'')]) = (Some [(''Cookie'', ''[REDACTED]'')], 1)"
    by code_simp
  from redact_headers_complete [OF this] show ?thesis by blast
qed

text \<open>The secret scan reports a warning exactly when one of its patterns occurs in the text,
  up to case.\<close>

theorem scan_for_secrets_iff:
  "w \<in> set (scan_for_secrets s) \<longleftrightarrow>
     (\<exists>pat a b. (pat, w) \<in> set secret_patterns \<and> to_lower s = a @ pat @ b)"
  unfolding scan_for_secrets_def set_map set_filter image_iff str_contains_iff
  by (simp add: Bex_def)

end
