(* ===== verification/ScenarioExport.thy ===== *)
theory ScenarioExport
  imports Agent Redaction
begin

section \<open>Scenario export (\<open>internal/scenario/export.go\<close>)\<close>

text \<open>
  \<open>export_scenario\<close> is \<open>Export\<close>: the checks, the events of the scenario and the redaction report that
  \<open>scan_redaction\<close> makes of them; \<open>export_json\<close> is the indented JSON of \<open>ExportJSON\<close>.
\<close>

record redaction_report =
  rep_headers_redacted :: nat
  rep_bodies_redacted :: nat
  rep_warnings :: "string list"
  rep_safe :: bool

record export_format =
  xf_format :: string
  xf_version :: string
  xf_exported_at :: instant
  xf_scenario :: scenario
  xf_events :: "timeline_event list"
  xf_redaction_report :: redaction_report

datatype export_error =
    ExportGetScenario db_error
  | ExportNotFound string
  | ExportWhileRecording
  | ExportListEvents db_error

subsection \<open>\<open>scanRedaction\<close>\<close>

definition count_marked :: "string gomap \<Rightarrow> nat" where
  "count_marked hs = length (filter (\<lambda>kv. snd kv = ''[REDACTED]'') (entries hs))"

definition add_warnings :: "string \<Rightarrow> string \<Rightarrow> string list \<Rightarrow> redaction_report \<Rightarrow> redaction_report" where
  "add_warnings i what ws rep =
     (if ws = [] then rep
      else rep\<lparr>rep_warnings := rep_warnings rep @ map (\<lambda>w. ''event '' @ i @ what @ w) ws,
               rep_safe := False\<rparr>)"

definition scan_request_data :: "string \<Rightarrow> request_data option \<Rightarrow> redaction_report \<Rightarrow> redaction_report" where
  "scan_request_data i req rep =
     (case req of
        None \<Rightarrow> rep
      | Some r \<Rightarrow>
          (let rep1 = rep\<lparr>rep_bodies_redacted := rep_bodies_redacted rep + (if rq_body_redacted r then 1 else 0),
                          rep_headers_redacted := rep_headers_redacted rep + count_marked (rq_headers r)\<rparr>
           in if rq_body_preview r \<noteq> []
              then add_warnings i '' request body: '' (scan_for_secrets (rq_body_preview r)) rep1
              else rep1))"

definition scan_response_data :: "response_data option \<Rightarrow> redaction_report \<Rightarrow> redaction_report" where
  "scan_response_data resp rep =
     (case resp of
        None \<Rightarrow> rep
      | Some r \<Rightarrow>
          rep\<lparr>rep_bodies_redacted := rep_bodies_redacted rep + (if rs_body_redacted r then 1 else 0),
              rep_headers_redacted := rep_headers_redacted rep + count_marked (rs_headers r)\<rparr>)"

definition scan_raw_payload :: "string \<Rightarrow> raw_payload option \<Rightarrow> redaction_report \<Rightarrow> redaction_report" where
  "scan_raw_payload i raw rep =
     (case raw of
        None \<Rightarrow> rep
      | Some p \<Rightarrow>
          (if \<not> raw_redacted p \<and> raw_preview p \<noteq> []
           then add_warnings i '' raw payload: '' (scan_for_secrets (raw_preview p)) rep
           else rep))"

definition scan_one :: "redaction_report \<Rightarrow> timeline_event \<Rightarrow> redaction_report" where
  "scan_one rep e =
     scan_raw_payload (ev_id e) (ev_raw_payload e)
       (scan_response_data (ev_response e)
         (scan_request_data (ev_id e) (ev_request e) rep))"

definition scan_redaction :: "timeline_event list \<Rightarrow> redaction_report" where
  "scan_redaction evs =
     foldl scan_one \<lparr>rep_headers_redacted = 0, rep_bodies_redacted = 0, rep_warnings = [], rep_safe = True\<rparr> evs"

subsection \<open>\<open>Export\<close> and \<open>ExportJSON\<close>\<close>

definition export_scenario ::
    "float_text \<Rightarrow> instant \<Rightarrow> string \<Rightarrow> string \<Rightarrow> db \<Rightarrow> (export_error + export_format) \<times> db" where
  "export_scenario ft now version sid st =
     (case scenario_get_by_id ft sid st of
        (Inl err, d) \<Rightarrow> (Inl (ExportGetScenario err), d)
      | (Inr None, d) \<Rightarrow> (Inl (ExportNotFound sid), d)
      | (Inr (Some s), d) \<Rightarrow>
          (if sc_status s = ''recording'' then (Inl ExportWhileRecording, d)
           else case event_list_by_scenario ft sid d of
             (Inl err, d') \<Rightarrow> (Inl (ExportListEvents err), d')
           | (Inr evs, d') \<Rightarrow>
               (Inr \<lparr>xf_format = ''localcloud.scenario.v1'', xf_version = version, xf_exported_at = now,
                  xf_scenario = s, xf_events = evs, xf_redaction_report = scan_redaction evs\<rparr>, d')))"

definition enc_report :: "redaction_report \<Rightarrow> json" where
  "enc_report r = JObj
     [(''headersRedacted'', enc_num (int (rep_headers_redacted r))),
      (''bodiesRedacted'', enc_num (int (rep_bodies_redacted r))),
      (''warnings'', if rep_warnings r = [] then JNull else JArr (map JStr (rep_warnings r))),
      (''safe'', JBool (rep_safe r))]"

definition enc_export :: "export_format \<Rightarrow> json" where
  "enc_export x = JObj
     [(''format'', JStr (xf_format x)), (''version'', JStr (xf_version x)),
      (''exportedAt'', enc_time (xf_exported_at x)), (''scenario'', enc_scenario (xf_scenario x)),
      (''events'', if xf_events x = [] then JNull else JArr (map enc_event (xf_events x))),
      (''redactionReport'', enc_report (xf_redaction_report x))]"

definition newline_indent :: "nat \<Rightarrow> string" where
  "newline_indent n = CHR 0x0A # replicate (2 * n) (CHR '' '')"

fun json_indent :: "nat \<Rightarrow> json \<Rightarrow> string" where
  "json_indent n (JArr vs) =
     (if vs = [] then ''[]''
      else ''['' @ newline_indent (Suc n) @
        join ('','' @ newline_indent (Suc n)) (map (json_indent (Suc n)) vs) @ newline_indent n @ '']'')"
| "json_indent n (JObj ms) =
     (if ms = [] then ''{}''
      else ''{'' @ newline_indent (Suc n) @
        join ('','' @ newline_indent (Suc n))
          (map (\<lambda>(k, v). json_quote k @ '': '' @ json_indent (Suc n) v) ms) @ newline_indent n @ ''}'')"
| "json_indent n v = json_print v"

definition export_json ::
    "float_text \<Rightarrow> instant \<Rightarrow> string \<Rightarrow> string \<Rightarrow> db \<Rightarrow> (export_error + string) \<times> db" where
  "export_json ft now version sid st =
     (case export_scenario ft now version sid st of
        (Inl err, d) \<Rightarrow> (Inl err, d)
      | (Inr x, d) \<Rightarrow> (Inr (json_indent 0 (enc_export x)), d))"

subsection \<open>What the report says\<close>

text \<open>An event leaks when a text that the scan looks at contains a secret pattern.\<close>

definition leaks :: "timeline_event \<Rightarrow> bool" where
  "leaks e =
     ((case ev_request e of None \<Rightarrow> False | Some r \<Rightarrow> scan_for_secrets (rq_body_preview r) \<noteq> []) \<or>
      (case ev_raw_payload e of None \<Rightarrow> False
       | Some p \<Rightarrow> \<not> raw_redacted p \<and> scan_for_secrets (raw_preview p) \<noteq> []))"

lemma scan_for_secrets_Nil [simp]: "scan_for_secrets [] = []"
  by (simp add: scan_for_secrets_def secret_patterns_def to_lower_def str_contains_def has_prefix_def)

lemma scan_one_safe: "rep_safe (scan_one rep e) = (rep_safe rep \<and> \<not> leaks e)"
  by (auto simp: scan_one_def scan_raw_payload_def scan_response_data_def scan_request_data_def
      add_warnings_def leaks_def Let_def split: option.split)

lemma scan_one_warnings:
  "rep_safe rep = (rep_warnings rep = []) \<Longrightarrow> rep_safe (scan_one rep e) = (rep_warnings (scan_one rep e) = [])"
  by (auto simp: scan_one_def scan_raw_payload_def scan_response_data_def scan_request_data_def
      add_warnings_def Let_def split: option.split)

lemma scan_fold_safe: "rep_safe (foldl scan_one rep evs) = (rep_safe rep \<and> \<not> list_ex leaks evs)"
  by (induction evs arbitrary: rep) (auto simp: scan_one_safe)

lemma scan_fold_warnings:
  "rep_safe rep = (rep_warnings rep = []) \<Longrightarrow>
   rep_safe (foldl scan_one rep evs) = (rep_warnings (foldl scan_one rep evs) = [])"
  by (induction evs arbitrary: rep) (auto simp: scan_one_warnings)

subsection \<open>Properties\<close>

text \<open>C19: The export is reported safe exactly when no event has a secret pattern in its request
  body or in a payload that is not marked redacted, and exactly when there is no warning.\<close>

theorem export_safe_iff:
  "rep_safe (scan_redaction evs) = (\<not> list_ex leaks evs) \<and>
   rep_safe (scan_redaction evs) = (rep_warnings (scan_redaction evs) = [])"
proof (rule conjI)
  show "rep_safe (scan_redaction evs) = (\<not> list_ex leaks evs)"
    by (simp add: scan_redaction_def scan_fold_safe)
  show "rep_safe (scan_redaction evs) = (rep_warnings (scan_redaction evs) = [])"
    unfolding scan_redaction_def by (rule scan_fold_warnings) simp
qed

text \<open>Response bodies are not scanned: whatever text the responses hold, the report is as safe
  as without them.\<close>

theorem export_ignores_response_bodies:
  "rep_safe (scan_redaction (map (\<lambda>e. e\<lparr>ev_response := f e\<rparr>) evs)) = rep_safe (scan_redaction evs)"
  by (simp add: scan_redaction_def scan_fold_safe list_ex_iff leaks_def)


definition completed_db :: db where
  "completed_db = empty_db\<lparr>db_scens := [scenario_row_of (sample_scenario\<lparr>sc_status := ''completed''\<rparr>)]\<rparr>"


end
