(* ===== verification/GoHttp.thy ===== *)
theory GoHttp
  imports Prelude
begin

section \<open>HTTP headers of the standard library\<close>

text \<open>
  A header is a map from canonical names to lists of values, written in the order in which Go's
  map happens to be iterated. \<open>canonical_key\<close> is \<open>textproto.CanonicalMIMEHeaderKey\<close>, \<open>header_set\<close> and
  \<open>header_get\<close> are \<open>Header.Set\<close> and \<open>Header.Get\<close>.
\<close>

type_synonym http_header = "(string \<times> string list) list"

text \<open>\<open>textproto.CanonicalMIMEHeaderKey\<close>, \<open>Header.Set\<close>, \<open>Header.Get\<close>: a key with a byte that no
  header field has is left as it is, any other is capitalised after each hyphen.\<close>

definition header_byte :: "char \<Rightarrow> bool" where
  "header_byte c = (is_upper c \<or> is_lower c \<or> is_digit c \<or> c \<in> set ''!#$%&*+-.^_|~'' \<or>
     c = CHR 0x27 \<or> c = CHR 0x60)"

fun canonical_from :: "bool \<Rightarrow> string \<Rightarrow> string" where
  "canonical_from up [] = []"
| "canonical_from up (c # s) =
     (if up then upper_char c else lower_char c) # canonical_from (c = CHR ''-'') s"

definition canonical_key :: "string \<Rightarrow> string" where
  "canonical_key k = (if list_all header_byte k then canonical_from True k else k)"

definition header_set :: "string \<Rightarrow> string \<Rightarrow> http_header \<Rightarrow> http_header" where
  "header_set k v h = AList.update (canonical_key k) [v] h"

definition header_get :: "http_header \<Rightarrow> string \<Rightarrow> string" where
  "header_get h k = (case map_of h (canonical_key k) of Some (v # vs) \<Rightarrow> v | _ \<Rightarrow> [])"

lemma to_lower_canonical_from: "to_lower (canonical_from up k) = to_lower k"
  by (induction up k rule: canonical_from.induct) (simp_all add: to_lower_def)

lemma to_lower_canonical [simp]: "to_lower (canonical_key k) = to_lower k"
  by (simp add: canonical_key_def to_lower_canonical_from)

lemma canonical_from_idem: "canonical_from up (canonical_from up k) = canonical_from up k"
  by (induction up k rule: canonical_from.induct) simp_all

end
