(* ===== verification/Replay.thy ===== *)
theory Replay
  imports Storage Redaction GoHttp
begin

section \<open>Replaying a scenario (\<open>internal/replay/replay.go\<close>)\<close>

text \<open>
  \<open>Plan\<close>, \<open>Execute\<close>, \<open>executeEntry\<close> and their helpers. The network is a parameter: a record
  \<open>net\<close> with what \<open>http.NewRequest\<close> answers, what one \<open>client.Do\<close> does to the world, and
  whether the context is cancelled in a world. Clock readings and the ID of the run are
  parameters; log lines are not modelled.
\<close>

subsection \<open>The plan\<close>

record plan_entry =
  pe_event_id :: string
  pe_method :: string
  pe_path :: string
  pe_headers :: "string gomap"
  pe_body :: string
  pe_original_status :: int
  pe_safe :: bool
  pe_original_event :: "timeline_event option"

definition is_safe_method :: "string \<Rightarrow> bool" where
  "is_safe_method m = (to_upper m \<in> {''GET'', ''HEAD'', ''OPTIONS''})"

definition copy_headers :: "string gomap \<Rightarrow> string gomap" where
  "copy_headers h = (case h of None \<Rightarrow> None | Some m \<Rightarrow> Some (fold (\<lambda>(k, v). AList.update k v) m []))"

fun plan_events :: "timeline_event list \<Rightarrow> plan_entry list" where
  "plan_events [] = []"
| "plan_events (e # es) =
     (if ev_source e \<noteq> source_http_proxy then plan_events es
      else case ev_request e of
        None \<Rightarrow> plan_events es
      | Some r \<Rightarrow>
          (if \<not> rq_replayable r then plan_events es
           else \<lparr>pe_event_id = ev_id e, pe_method = rq_method r, pe_path = rq_path r,
                  pe_headers = copy_headers (rq_headers r), pe_body = rq_body_preview r,
                  pe_original_status = (case ev_response e of None \<Rightarrow> 0 | Some p \<Rightarrow> rs_status_code p),
                  pe_safe = is_safe_method (rq_method r), pe_original_event = Some e\<rparr>
                # plan_events es))"

datatype replay_error =
    ScenarioNotFound string
  | ReplayActiveRecording
  | ReplayListEvents db_error
  | NothingReplayable
  | UnsafeNotConfirmed
  | ReplayInsertRun db_error

definition replay_plan :: "float_text \<Rightarrow> string \<Rightarrow> db \<Rightarrow> (replay_error + plan_entry list) \<times> db" where
  "replay_plan ft sid st =
     (case event_list_by_scenario ft sid st of
        (Inl err, d) \<Rightarrow> (Inl (ReplayListEvents err), d)
      | (Inr events, d) \<Rightarrow> (Inr (plan_events events), d))"

subsection \<open>The network\<close>

record http_request =
  hr_method :: string
  hr_url :: string
  hr_headers :: "(string \<times> string list) list"
  hr_body :: string

record http_response =
  hp_status :: int
  hp_headers :: "(string \<times> string list) list"

record 'w net =
  net_new_request :: "string \<Rightarrow> string \<Rightarrow> string option"
  net_do :: "http_request \<Rightarrow> 'w \<Rightarrow> (string + http_response) \<times> int \<times> 'w"
  net_cancelled :: "'w \<Rightarrow> bool"

subsection \<open>\<open>executeEntry\<close>\<close>

record replay_diff =
  df_event_id :: string
  df_method :: string
  df_path :: string
  df_original_status :: int
  df_replay_status :: int
  df_status_match :: bool
  df_body_diffs :: "string list"
  df_duration_ms :: int
  df_error :: string

definition skip_header :: "string \<Rightarrow> bool" where
  "skip_header k = (to_lower k \<in> {''host'', ''connection'', ''content-length''})"

definition add_header :: "string \<times> string \<Rightarrow> (string \<times> string list) list \<Rightarrow> (string \<times> string list) list" where
  "add_header kv h =
     (if skip_header (fst kv) then h
      else if snd kv \<noteq> redacted_marker then header_set (fst kv) (snd kv) h else h)"

definition request_headers :: "string gomap \<Rightarrow> (string \<times> string list) list" where
  "request_headers hs = fold add_header (entries hs) []"

definition entry_url :: "string \<Rightarrow> plan_entry \<Rightarrow> string" where
  "entry_url base e = trim_right base ''/'' @ pe_path e"

definition entry_request :: "string \<Rightarrow> plan_entry \<Rightarrow> http_request" where
  "entry_request base e =
     \<lparr>hr_method = (if pe_method e = [] then ''GET'' else pe_method e), hr_url = entry_url base e,
      hr_headers = request_headers (pe_headers e), hr_body = pe_body e\<rparr>"

definition media_type :: "string \<Rightarrow> string" where
  "media_type ct = hd (split_char ct (CHR '';''))"

definition original_content_type :: "plan_entry \<Rightarrow> string" where
  "original_content_type e =
     (case pe_original_event e of
        None \<Rightarrow> []
      | Some ev \<Rightarrow>
          (case ev_response ev of
             None \<Rightarrow> []
           | Some r \<Rightarrow> (case map_of (entries (rs_headers r)) ''content-type'' of None \<Rightarrow> [] | Some v \<Rightarrow> v)))"

definition content_type_diffs :: "string \<Rightarrow> string \<Rightarrow> string list" where
  "content_type_diffs orig rep =
     (if orig \<noteq> [] \<and> rep \<noteq> [] \<and> media_type orig \<noteq> media_type rep
      then [''content-type: expected '' @ media_type orig @ '', got '' @ media_type rep] else [])"

definition status_diffs :: "int \<Rightarrow> int \<Rightarrow> string list" where
  "status_diffs orig rep =
     (if orig = rep then [] else [''status: expected '' @ dec_int orig @ '', got '' @ dec_int rep])"

definition execute_entry :: "'w net \<Rightarrow> string \<Rightarrow> plan_entry \<Rightarrow> 'w \<Rightarrow> replay_diff \<times> 'w" where
  "execute_entry n base e w =
     (let d = \<lparr>df_event_id = pe_event_id e, df_method = pe_method e, df_path = pe_path e,
               df_original_status = pe_original_status e, df_replay_status = 0,
               df_status_match = False, df_body_diffs = [], df_duration_ms = 0, df_error = []\<rparr> in
      case net_new_request n (pe_method e) (entry_url base e) of
        Some err \<Rightarrow> (d\<lparr>df_error := ''build request: '' @ err\<rparr>, w)
      | None \<Rightarrow>
          (case net_do n (entry_request base e) w of
             (Inl err, ms, w') \<Rightarrow>
               (d\<lparr>df_duration_ms := ms, df_error := ''request failed: '' @ err\<rparr>, w')
           | (Inr resp, ms, w') \<Rightarrow>
               (d\<lparr>df_duration_ms := ms, df_replay_status := hp_status resp,
                  df_status_match := (pe_original_status e = hp_status resp),
                  df_body_diffs := status_diffs (pe_original_status e) (hp_status resp) @
                    content_type_diffs (original_content_type e)
                      (header_get (hp_headers resp) ''Content-Type'')\<rparr>, w')))"

subsection \<open>\<open>Execute\<close>\<close>

record replay_options =
  op_base_url :: string
  op_skip_unsafe :: bool
  op_confirm_unsafe :: bool

record replay_result =
  re_run_id :: string
  re_scenario_id :: string
  re_total :: int
  re_passed :: int
  re_failed :: int
  re_skipped :: int
  re_diffs :: "replay_diff list"

definition diff_passed :: "replay_diff \<Rightarrow> bool" where
  "diff_passed d = (df_error d = [] \<and> df_status_match d)"

definition count_diff :: "replay_diff \<Rightarrow> replay_result \<Rightarrow> replay_result" where
  "count_diff d r =
     (let r' = r\<lparr>re_diffs := re_diffs r @ [d]\<rparr> in
      if diff_passed d then r'\<lparr>re_passed := re_passed r' + 1\<rparr>
      else r'\<lparr>re_failed := re_failed r' + 1\<rparr>)"

fun run_entries ::
    "'w net \<Rightarrow> replay_options \<Rightarrow> plan_entry list \<Rightarrow> replay_result \<Rightarrow> 'w \<Rightarrow> replay_result \<times> 'w" where
  "run_entries n opts [] r w = (r, w)"
| "run_entries n opts (e # es) r w =
     (if net_cancelled n w then (r, w)
      else if \<not> pe_safe e \<and> op_skip_unsafe opts
      then run_entries n opts es (r\<lparr>re_skipped := re_skipped r + 1\<rparr>) w
      else let (d, w') = execute_entry n (op_base_url opts) e w
           in run_entries n opts es (count_diff d r) w')"

definition new_run :: "string \<Rightarrow> string \<Rightarrow> instant \<Rightarrow> string \<Rightarrow> int \<Rightarrow> replay_run" where
  "new_run rid sid now base k =
     \<lparr>rr_id = rid, rr_scenario_id = sid, rr_started_at = now, rr_finished_at = None,
      rr_status = ''running'', rr_target_base_url = base, rr_request_count = k,
      rr_passed_count = 0, rr_failed_count = 0, rr_diff_summary = None,
      rr_created_by = ''cli'', rr_error_message = []\<rparr>"

definition new_result :: "string \<Rightarrow> string \<Rightarrow> int \<Rightarrow> replay_result" where
  "new_result rid sid k =
     \<lparr>re_run_id = rid, re_scenario_id = sid, re_total = k, re_passed = 0, re_failed = 0,
      re_skipped = 0, re_diffs = []\<rparr>"

definition run_status :: "replay_result \<Rightarrow> string" where
  "run_status r = (if re_failed r > 0 then ''failed'' else ''passed'')"

definition diff_summary :: "replay_result \<Rightarrow> json gomap" where
  "diff_summary r = Some
     [(''total'', enc_num (re_total r)), (''passed'', enc_num (re_passed r)),
      (''failed'', enc_num (re_failed r)), (''skipped'', enc_num (re_skipped r))]"

text \<open>The part of \<open>Execute\<close> after its checks: the run row, the requests, the final update, whose
  error is only logged.\<close>

definition execute_plan ::
    "'w net \<Rightarrow> string \<Rightarrow> instant \<Rightarrow> instant \<Rightarrow> string \<Rightarrow> replay_options \<Rightarrow> plan_entry list \<Rightarrow>
     'w \<times> db \<Rightarrow> (replay_error + replay_result) \<times> 'w \<times> db" where
  "execute_plan n rid now fin sid opts plan st =
     (case run_insert (new_run rid sid now (op_base_url opts) (int (length plan))) (snd st) of
        (Inl err, d) \<Rightarrow> (Inl (ReplayInsertRun err), fst st, d)
      | (Inr _, d) \<Rightarrow>
          (let (r, w) = run_entries n opts plan (new_result rid sid (int (length plan))) (fst st);
               (_, d') = run_update_status rid (run_status r) (Some fin) (re_passed r) (re_failed r)
                           (diff_summary r) [] d
           in (Inr r, w, d')))"

definition execute_replay ::
    "float_text \<Rightarrow> 'w net \<Rightarrow> string \<Rightarrow> instant \<Rightarrow> instant \<Rightarrow> string \<Rightarrow> replay_options \<Rightarrow>
     'w \<times> db \<Rightarrow> (replay_error + replay_result) \<times> 'w \<times> db" where
  "execute_replay ft n rid now fin sid opts st =
     (case scenario_get_by_id ft sid (snd st) of
        (Inl _, d) \<Rightarrow> (Inl (ScenarioNotFound sid), fst st, d)
      | (Inr None, d) \<Rightarrow> (Inl (ScenarioNotFound sid), fst st, d)
      | (Inr (Some s), d) \<Rightarrow>
          (if sc_status s = ''recording'' then (Inl ReplayActiveRecording, fst st, d)
           else case replay_plan ft sid d of
             (Inl err, d') \<Rightarrow> (Inl err, fst st, d')
           | (Inr plan, d') \<Rightarrow>
               (if plan = [] then (Inl NothingReplayable, fst st, d')
                else if list_ex (\<lambda>e. \<not> pe_safe e) plan \<and> \<not> op_confirm_unsafe opts \<and>
                        \<not> op_skip_unsafe opts
                then (Inl UnsafeNotConfirmed, fst st, d')
                else execute_plan n rid now fin sid opts plan (fst st, d'))))"

subsection \<open>JSON form of a result\<close>

text \<open>No code sets \<open>headerDiffs\<close>, so the field is always omitted.\<close>

definition enc_diff :: "replay_diff \<Rightarrow> json" where
  "enc_diff d = JObj
     ([(''eventId'', JStr (df_event_id d)), (''method'', JStr (df_method d)), (''path'', JStr (df_path d)),
       (''originalStatus'', enc_num (df_original_status d)), (''replayStatus'', enc_num (df_replay_status d)),
       (''statusMatch'', JBool (df_status_match d))] @
      omit_slice JStr ''bodyDiffs'' (if df_body_diffs d = [] then None else Some (df_body_diffs d)) @
      [(''durationMs'', enc_num (df_duration_ms d))] @
      omit_str ''error'' (df_error d))"

definition enc_result :: "replay_result \<Rightarrow> json" where
  "enc_result r = JObj
     [(''runId'', JStr (re_run_id r)), (''scenarioId'', JStr (re_scenario_id r)),
      (''total'', enc_num (re_total r)), (''passed'', enc_num (re_passed r)),
      (''failed'', enc_num (re_failed r)), (''skipped'', enc_num (re_skipped r)),
      (''diffs'', if re_diffs r = [] then JNull else JArr (map enc_diff (re_diffs r)))]"

subsection \<open>The plan holds the replayable requests of the proxy\<close>

definition in_plan :: "timeline_event \<Rightarrow> bool" where
  "in_plan e = (ev_source e = source_http_proxy \<and>
     (case ev_request e of None \<Rightarrow> False | Some r \<Rightarrow> rq_replayable r))"

lemma plan_events_ids: "map pe_event_id (plan_events es) = map ev_id (filter in_plan es)"
  by (induction es rule: plan_events.induct) (auto simp: in_plan_def split: option.split)

lemma plan_events_safe: "e \<in> set (plan_events es) \<Longrightarrow> pe_safe e = is_safe_method (pe_method e)"
  by (induction es rule: plan_events.induct) (auto split: if_splits option.splits)

lemma plan_events_safe_list: "list_all (\<lambda>e. pe_safe e = is_safe_method (pe_method e)) (plan_events es)"
  by (simp add: list_all_iff plan_events_safe)

subsection \<open>What the requests hold\<close>

definition header_sent :: "string \<times> string list \<Rightarrow> bool" where
  "header_sent h = (snd h \<noteq> [redacted_marker] \<and> to_lower (fst h) \<notin> {''host'', ''connection'', ''content-length''})"

lemma add_header_sent: "list_all header_sent h \<Longrightarrow> list_all header_sent (add_header kv h)"
  by (auto simp: add_header_def header_set_def skip_header_def header_sent_def intro!: update_list_all)

lemma request_headers_fold: "list_all header_sent h \<Longrightarrow> list_all header_sent (fold add_header hs h)"
  by (induction hs arbitrary: h) (simp_all add: add_header_sent)

lemma request_headers_sent: "list_all header_sent (request_headers hs)"
  by (simp add: request_headers_def request_headers_fold)

subsection \<open>Invariants of the network kept by safe requests\<close>

text \<open>A property of the world that every request with a safe method keeps is kept by a whole
  replay that skips, or refuses, the unsafe requests.\<close>

lemma is_safe_method_nonempty: "is_safe_method m \<Longrightarrow> m \<noteq> []"
  by (auto simp: is_safe_method_def to_upper_def)

locale safe_net =
  fixes n :: "'w net" and good :: "'w \<Rightarrow> bool"
  assumes do_good: "good w \<Longrightarrow> is_safe_method (hr_method rq) \<Longrightarrow> list_all header_sent (hr_headers rq) \<Longrightarrow>
    good (snd (snd (net_do n rq w)))"
begin

lemma entry_good: "good w \<Longrightarrow> is_safe_method (pe_method e) \<Longrightarrow> good (snd (execute_entry n base e w))"
  using do_good [of w "entry_request base e"] is_safe_method_nonempty [of "pe_method e"]
  by (auto simp: execute_entry_def Let_def entry_request_def request_headers_sent
      split: option.split prod.split sum.split)

lemma run_entries_good:
  "good w \<Longrightarrow> list_all (\<lambda>e. pe_safe e = is_safe_method (pe_method e)) es \<Longrightarrow>
   op_skip_unsafe opts \<or> list_all pe_safe es \<Longrightarrow> good (snd (run_entries n opts es r w))"
proof (induction es arbitrary: r w)
  case (Cons e es)
  then have "good (snd (execute_entry n (op_base_url opts) e w))" if "pe_safe e"
    using that by (simp add: entry_good)
  then show ?case using Cons by (auto simp: case_prod_unfold Let_def)
qed simp

end

subsection \<open>A network that logs its requests\<close>

text \<open>The network with a log of the requests that leave: \<open>net_do\<close> appends the request, whatever
  the server does with it. A log of safe requests without redacted headers is what the safe
  requests keep.\<close>

definition logged :: "'w net \<Rightarrow> ('w \<times> http_request list) net" where
  "logged n = \<lparr>net_new_request = net_new_request n,
     net_do = (\<lambda>rq (w, l). case net_do n rq w of (resp, ms, w') \<Rightarrow> (resp, ms, (w', l @ [rq]))),
     net_cancelled = (\<lambda>(w, l). net_cancelled n w)\<rparr>"

definition safe_request :: "http_request \<Rightarrow> bool" where
  "safe_request rq = (is_safe_method (hr_method rq) \<and> list_all header_sent (hr_headers rq))"

definition safe_log :: "'w \<times> http_request list \<Rightarrow> bool" where
  "safe_log w = list_all safe_request (snd w)"

interpretation logged_net: safe_net "logged n" safe_log
  by unfold_locales (auto simp: logged_def safe_log_def safe_request_def split: prod.split)

lemma execute_cases:
  assumes "execute_replay ft n rid now fin sid opts st = (Inr r, st')"
  obtains evs d where "execute_plan n rid now fin sid opts (plan_events evs) (fst st, d) = (Inr r, st')"
    and "op_confirm_unsafe opts \<or> op_skip_unsafe opts \<or> list_all pe_safe (plan_events evs)"
    and "plan_events evs \<noteq> []"
  using assms
  by (auto simp: execute_replay_def replay_plan_def list_ex_iff list_all_iff
      split: prod.splits sum.splits option.splits if_splits)

lemma execute_error_world:
  "execute_replay ft n rid now fin sid opts st = (Inl err, st') \<Longrightarrow> fst st' = fst st"
  by (auto simp: execute_replay_def replay_plan_def execute_plan_def case_prod_unfold Let_def
      split: prod.splits sum.splits option.splits if_splits)

lemma execute_plan_world:
  "execute_plan n rid now fin sid opts plan (w, d) = (Inr r, st') \<Longrightarrow>
   (r, fst st') = run_entries n opts plan (new_result rid sid (int (length plan))) w"
  by (auto simp: execute_plan_def case_prod_unfold Let_def prod_eq_iff split: prod.splits sum.splits)

subsection \<open>Accounting\<close>

definition result_ok :: "replay_result \<Rightarrow> bool" where
  "result_ok r =
     (re_passed r = int (length (filter diff_passed (re_diffs r))) \<and>
      re_failed r = int (length (filter (\<lambda>d. \<not> diff_passed d) (re_diffs r))))"

lemma count_diff_ok: "result_ok r \<Longrightarrow> result_ok (count_diff d r)"
  by (simp add: result_ok_def count_diff_def Let_def)

lemma count_diff_fields [simp]:
  "re_skipped (count_diff d r) = re_skipped r" "re_total (count_diff d r) = re_total r"
  "re_diffs (count_diff d r) = re_diffs r @ [d]" "re_run_id (count_diff d r) = re_run_id r"
  "re_scenario_id (count_diff d r) = re_scenario_id r"
  by (simp_all add: count_diff_def Let_def)

fun_cases run_entries_ConsE: "run_entries n opts (e # es) r w = p"

lemma skip_ok: "result_ok r \<Longrightarrow> result_ok (r\<lparr>re_skipped := k\<rparr>)"
  by (simp add: result_ok_def)

lemma run_entries_ok:
  "run_entries n opts es r w = (r', w') \<Longrightarrow> result_ok r \<Longrightarrow> result_ok r'"
proof (induction es arbitrary: r w)
  case (Cons e es)
  from Cons.prems(1) show ?case
    by (rule run_entries_ConsE)
       (auto simp: case_prod_unfold Let_def count_diff_ok skip_ok Cons.prems split: if_splits
         dest: Cons.IH [OF sym])
qed simp

lemma run_entries_total:
  "run_entries n opts es r w = (r', w') \<Longrightarrow>
   re_total r' = re_total r \<and> re_run_id r' = re_run_id r \<and> re_scenario_id r' = re_scenario_id r \<and>
   re_skipped r \<le> re_skipped r' \<and>
   int (length (re_diffs r')) + re_skipped r' \<le> int (length (re_diffs r)) + re_skipped r + int (length es)"
proof (induction es arbitrary: r w)
  case (Cons e es)
  from Cons.prems show ?case
    by (rule run_entries_ConsE)
       (auto simp: case_prod_unfold Let_def split: if_splits dest!: Cons.IH [OF sym])
qed simp

lemma run_entries_complete:
  "run_entries n opts es r w = (r', w') \<Longrightarrow> (\<And>w. \<not> net_cancelled n w) \<Longrightarrow>
   int (length (re_diffs r')) + re_skipped r' = int (length (re_diffs r)) + re_skipped r + int (length es)"
proof (induction es arbitrary: r w)
  case (Cons e es)
  from Cons.prems(1) show ?case
    by (rule run_entries_ConsE)
       (auto simp: case_prod_unfold Let_def Cons.prems split: if_splits
         dest!: Cons.IH [OF sym Cons.prems(2)])
qed simp

lemma passed_failed: "result_ok r \<Longrightarrow> re_passed r + re_failed r = int (length (re_diffs r))"
  unfolding result_ok_def using sum_length_filter_compl [of diff_passed "re_diffs r"] by linarith

subsection \<open>The stored run\<close>

lemma statement_reliable: "db_fail st = [] \<Longrightarrow> statement act st = act st"
  by (simp add: statement_def)

lemma run_status_valid: "run_status r \<in> set replay_statuses"
  by (simp add: run_status_def replay_statuses_def)

lemma run_update_found:
  assumes "run_update_status i status fin p k diff msg st = (Inr (), st')" and "row \<in> set (db_runs st)"
    and "rnr_id row = i"
  shows "row\<lparr>rnr_status := status, rnr_finished_at_ms := map_option unix_milli fin,
    rnr_passed_count := p, rnr_failed_count := k,
    rnr_diff_summary_json := json_column enc_map_any diff, rnr_error_message := msg\<rparr> \<in> set (db_runs st')"
  using assms unfolding run_update_status_def
  by (elim statement_done) (force split: if_splits)

lemma execute_plan_recorded:
  assumes "execute_plan n rid now fin sid opts plan (w, d) = (Inr r, w', d')" and "db_fail d = []"
  shows "\<exists>row \<in> set (db_runs d'). rnr_id row = rid \<and> rnr_scenario_id row = sid \<and>
    rnr_status row = run_status r \<and> rnr_passed_count row = re_passed r \<and>
    rnr_failed_count row = re_failed r \<and> rnr_finished_at_ms row = Some (unix_milli fin)"
proof -
  let ?run = "new_run rid sid now (op_base_url opts) (int (length plan))"
  obtain d1 where ins: "run_insert ?run d = (Inr (), d1)"
    using assms(1) by (auto simp: execute_plan_def split: prod.splits sum.splits)
  with assms(2) have d1: "db_fail d1 = []" "run_row_of ?run \<in> set (db_runs d1)"
    by (auto simp: run_insert_def statement_reliable insert_row_done)
  have "run_update_status rid (run_status r) (Some fin) (re_passed r) (re_failed r) (diff_summary r) [] d1
      = (Inr (), d')"
    using assms(1) ins d1 run_status_valid [of r] execute_plan_world [OF assms(1), symmetric]
    by (simp add: execute_plan_def run_update_status_def statement_reliable)
  from run_update_found [OF this d1(2)] show ?thesis
    by (force simp: run_row_of_def new_run_def)
qed

subsection \<open>A sample scenario\<close>

definition sample_get :: timeline_event where
  "sample_get = sample_event\<lparr>ev_scenario_id := Some ''scn_1''\<rparr>"

definition sample_post :: timeline_event where
  "sample_post = sample_event\<lparr>ev_id := ''evt_2'', ev_scenario_id := Some ''scn_1'',
     ev_request := Some (zero_request\<lparr>rq_method := ''POST'', rq_path := ''/orders'', rq_replayable := True\<rparr>),
     ev_response := Some (zero_response\<lparr>rs_status_code := 201\<rparr>)\<rparr>"

definition sample_db :: db where
  "sample_db = empty_db\<lparr>db_scens := [scenario_row_of (sample_scenario\<lparr>sc_status := ''completed''\<rparr>)],
     db_events := [event_row_of 0 sample_get, event_row_of 0 sample_post]\<rparr>"

definition sample_opts :: replay_options where
  "sample_opts = \<lparr>op_base_url = ''http://localhost:8080/'', op_skip_unsafe = True, op_confirm_unsafe = False\<rparr>"

definition sample_net :: "unit net" where
  "sample_net = \<lparr>net_new_request = (\<lambda>m u. None),
     net_do = (\<lambda>rq w. (Inr \<lparr>hp_status = 200, hp_headers = [(''Content-Type'', [''text/html''])]\<rparr>, 3, w)),
     net_cancelled = (\<lambda>w. False)\<rparr>"

lemma sample_post_ok: "event_ok ft sample_post"
  by (simp add: event_ok_def sample_post_def sample_event_def request_ok_def response_ok_def
      zero_request_def zero_response_def omap_ok_def metadata_ok_def map_depth_def max_nesting_def
      is_int64_def int64_min_def int64_max_def valid_utf8_literal)

lemma sample_get_ok: "event_ok ft sample_get"
  using sample_event_ok [of ft] by (simp add: event_ok_def sample_get_def)

definition sample_plan :: "plan_entry list" where
  "sample_plan = plan_events [event_ms sample_get, event_ms sample_post]"

lemma sample_plan_length: "length sample_plan = 2" "sample_plan \<noteq> []"
  by (simp_all add: sample_plan_def sample_get_def sample_post_def sample_event_def event_ms_def
      source_http_proxy_def)

lemma sample_events:
  "event_list_by_scenario Some ''scn_1'' sample_db = (Inr [event_ms sample_get, event_ms sample_post], sample_db)"
proof -
  have "ev_scenario_id sample_get = Some ''scn_1''" "ev_scenario_id sample_post = Some ''scn_1''"
    "ev_timestamp sample_get = ev_timestamp sample_post"
    by (simp_all add: sample_get_def sample_post_def)
  moreover have "evr_timestamp_ms (event_row_of 0 e) = unix_milli (ev_timestamp e)" for e
    by (simp add: event_row_of_def)
  ultimately show ?thesis
    by (simp add: event_list_by_scenario_def statement_def sample_db_def empty_db_def scan_event_row
        sample_get_ok sample_post_ok)
qed

lemma sample_scenario_found:
  "\<exists>s. scenario_get_by_id Some ''scn_1'' sample_db = (Inr (Some s), sample_db) \<and> sc_status s = ''completed''"
  by (simp add: scenario_get_by_id_def scenario_select_def statement_def sample_db_def empty_db_def
      select_one_def scan_scenario_def scenario_row_of_def sample_scenario_def)

lemma sample_execute:
  assumes "op_skip_unsafe opts"
  shows "execute_replay Some n ''rpl_1'' 0 1 ''scn_1'' opts (w, sample_db) =
     execute_plan n ''rpl_1'' 0 1 ''scn_1'' opts sample_plan (w, sample_db)"
  using sample_plan_length(2) sample_scenario_found assms
  by (auto simp: execute_replay_def replay_plan_def sample_events sample_plan_def simp del: plan_events.simps)

lemma sample_insert:
  "run_insert (new_run ''rpl_1'' ''scn_1'' 0 base k) sample_db =
     (Inr (), sample_db\<lparr>db_runs := [run_row_of (new_run ''rpl_1'' ''scn_1'' 0 base k)]\<rparr>)"
  by (simp add: run_insert_def statement_def sample_db_def empty_db_def insert_row_def new_run_def
      replay_statuses_def scenario_row_of_def sample_scenario_def)

lemma sample_done:
  assumes "op_skip_unsafe opts"
  shows "\<exists>d. execute_replay Some n ''rpl_1'' 0 1 ''scn_1'' opts (w, sample_db) =
    (Inr (fst (run_entries n opts sample_plan (new_result ''rpl_1'' ''scn_1'' 2) w)),
     snd (run_entries n opts sample_plan (new_result ''rpl_1'' ''scn_1'' 2) w), d)"
  using sample_plan_length(1)
  by (simp add: sample_execute assms execute_plan_def sample_insert case_prod_unfold Let_def)

lemmas sample_defs = sample_net_def sample_opts_def sample_plan_def new_result_def sample_get_def
  sample_post_def sample_event_def event_ms_def source_http_proxy_def is_safe_method_def
  to_upper_def upper_char_def is_lower_def copy_headers_def zero_request_def zero_response_def
  execute_entry_def count_diff_def diff_passed_def

lemma sample_run:
  "re_passed (fst (run_entries sample_net sample_opts sample_plan (new_result rid sid 2) w)) = 1"
  "re_failed (fst (run_entries sample_net sample_opts sample_plan (new_result rid sid 2) w)) = 0"
  "re_skipped (fst (run_entries sample_net sample_opts sample_plan (new_result rid sid 2) w)) = 1"
  by (simp_all add: sample_defs)

lemma sample_log:
  "length (snd (snd (run_entries (logged sample_net) sample_opts sample_plan (new_result rid sid 2) ((), [])))) = 1"
  by (simp add: sample_defs logged_def)

subsection \<open>Properties\<close>

text \<open>A plan has one entry, in order, for every captured proxy request that is marked
  replayable and for no other event; the entry carries the event it came from and is safe exactly
  when its method is GET, HEAD or OPTIONS.\<close>

theorem plan_exact:
  "list_all2 (\<lambda>p e. pe_event_id p = ev_id e \<and> pe_original_event p = Some e \<and>
      pe_safe p = is_safe_method (pe_method p))
    (plan_events es) (filter in_plan es)"
  by (induction es rule: plan_events.induct) (auto simp: in_plan_def split: option.split)

text \<open>No request of a replay carries a redacted header value, nor a host, connection or
  content-length header in any capitalisation.\<close>

theorem replay_headers_clean:
  "list_all header_sent (hr_headers (entry_request base e))"
  by (simp add: entry_request_def request_headers_sent)

text \<open>C7: A replay that skips unsafe requests, or was not told to confirm them, sends GET, HEAD and
  OPTIONS requests only: every request in the log of the network has a safe method.\<close>

theorem replay_sends_only_safe:
  assumes "execute_replay ft (logged n) rid now fin sid opts ((w, []), st) = (res, (w', log), st')"
    and "op_skip_unsafe opts \<or> \<not> op_confirm_unsafe opts"
  shows "list_all (\<lambda>rq. is_safe_method (hr_method rq)) log"
proof -
  have "safe_log (w', log)"
  proof (cases res)
    case (Inl err)
    with execute_error_world assms(1) show ?thesis by (fastforce simp: safe_log_def)
  next
    case (Inr r)
    obtain evs d where e: "execute_plan (logged n) rid now fin sid opts (plan_events evs) ((w, []), d) =
        (Inr r, (w', log), st')"
      and "op_confirm_unsafe opts \<or> op_skip_unsafe opts \<or> list_all pe_safe (plan_events evs)"
      by (rule execute_cases [OF assms(1) [unfolded Inr]]) auto
    with assms(2) have "op_skip_unsafe opts \<or> list_all pe_safe (plan_events evs)" by blast
    then have "safe_log (snd (run_entries (logged n) opts (plan_events evs)
        (new_result rid sid (int (length (plan_events evs)))) (w, [])))"
      by (intro logged_net.run_entries_good) (simp_all add: safe_log_def plan_events_safe_list)
    then show ?thesis using execute_plan_world [OF e] by (metis fst_conv snd_conv)
  qed
  then show ?thesis by (auto simp: safe_log_def safe_request_def list_all_iff)
qed

lemma replay_sends_only_safe_witness:
  "\<exists>res w log st'. execute_replay Some (logged sample_net) ''rpl_1'' 0 1 ''scn_1'' sample_opts (((), []), sample_db) =
      (res, (w, log), st') \<and> length log = 1 \<and> list_all (\<lambda>rq. is_safe_method (hr_method rq)) log"
proof -
  have o: "op_skip_unsafe sample_opts" by (simp add: sample_opts_def)
  obtain res log d where e: "execute_replay Some (logged sample_net) ''rpl_1'' 0 1 ''scn_1'' sample_opts (((), []), sample_db)
      = (res, ((), log), d)" and "length log = 1"
    using sample_done [OF o, of "logged sample_net" "((), [])"] sample_log [of "''rpl_1''" "''scn_1''"]
    by (cases "snd (run_entries (logged sample_net) sample_opts sample_plan
        (new_result ''rpl_1'' ''scn_1'' 2) ((), []))") auto
  with replay_sends_only_safe [OF e] o show ?thesis by blast
qed

text \<open>C8: The numbers of a replay add up: \<open>passed\<close> counts the diffs without an error and with the
  same status, \<open>failed\<close> the others, and with the skipped requests they make at most the total, and
  exactly the total when the context is never cancelled.\<close>

theorem replay_accounting:
  assumes "execute_replay ft n rid now fin sid opts (w, st) = (Inr r, w', st')"
  shows "re_passed r = int (length (filter diff_passed (re_diffs r))) \<and>
    re_failed r = int (length (filter (\<lambda>d. \<not> diff_passed d) (re_diffs r))) \<and>
    re_passed r + re_failed r + re_skipped r \<le> re_total r \<and> 0 \<le> re_skipped r \<and>
    ((\<forall>w. \<not> net_cancelled n w) \<longrightarrow> re_passed r + re_failed r + re_skipped r = re_total r)"
proof -
  obtain evs d where "execute_plan n rid now fin sid opts (plan_events evs) (w, d) = (Inr r, w', st')"
    by (rule execute_cases [OF assms]) auto
  from execute_plan_world [OF this]
  have run: "run_entries n opts (plan_events evs) (new_result rid sid (int (length (plan_events evs)))) w = (r, w')"
    by simp
  have ok: "result_ok r" by (rule run_entries_ok [OF run]) (simp add: result_ok_def new_result_def)
  with passed_failed run_entries_total [OF run] run_entries_complete [OF run] show ?thesis
    by (auto simp: result_ok_def new_result_def)
qed

lemma replay_accounting_witness:
  "\<exists>r w' d. execute_replay Some sample_net ''rpl_1'' 0 1 ''scn_1'' sample_opts ((), sample_db) = (Inr r, w', d) \<and>
     re_passed r = 1 \<and> re_skipped r = 1 \<and> re_total r = 2"
proof -
  have o: "op_skip_unsafe sample_opts" by (simp add: sample_opts_def)
  obtain r w' d where e: "execute_replay Some sample_net ''rpl_1'' 0 1 ''scn_1'' sample_opts ((), sample_db) = (Inr r, w', d)"
    and r: "r = fst (run_entries sample_net sample_opts sample_plan (new_result ''rpl_1'' ''scn_1'' 2) ())"
    using sample_done [OF o, of sample_net "()"] by auto
  have "\<not> net_cancelled sample_net w" for w by (simp add: sample_net_def)
  with replay_accounting [OF e] have "re_passed r + re_failed r + re_skipped r = re_total r" by blast
  with e r sample_run show ?thesis by auto
qed

text \<open>C17: When the database answers, the run row of a finished replay says what the result says:
  its counts, its end, and \<open>passed\<close> exactly when no request failed.\<close>

theorem replay_run_recorded:
  assumes "execute_replay ft n rid now fin sid opts (w, st) = (Inr r, w', st')" and "db_fail st = []"
  shows "\<exists>row \<in> set (db_runs st'). rnr_id row = rid \<and> rnr_scenario_id row = sid \<and>
    rnr_status row = (if re_failed r > 0 then ''failed'' else ''passed'') \<and>
    rnr_passed_count row = re_passed r \<and> rnr_failed_count row = re_failed r \<and>
    rnr_finished_at_ms row = Some (unix_milli fin)"
proof -
  obtain evs d where e: "execute_plan n rid now fin sid opts (plan_events evs) (w, d) = (Inr r, w', st')"
      and "db_fail d = []"
    using assms by (auto simp: execute_replay_def replay_plan_def scenario_get_by_id_def
        scenario_select_def event_list_by_scenario_def statement_reliable
        split: prod.splits sum.splits option.splits if_splits)
  with execute_plan_recorded [OF e] show ?thesis by (simp add: run_status_def)
qed

lemma replay_run_recorded_witness:
  "\<exists>r w' d. execute_replay Some sample_net ''rpl_1'' 0 1 ''scn_1'' sample_opts ((), sample_db) = (Inr r, w', d) \<and>
     (\<exists>row \<in> set (db_runs d). rnr_id row = ''rpl_1'' \<and> rnr_status row = ''passed'' \<and> rnr_passed_count row = 1)"
proof -
  have o: "op_skip_unsafe sample_opts" by (simp add: sample_opts_def)
  obtain r w' d where e: "execute_replay Some sample_net ''rpl_1'' 0 1 ''scn_1'' sample_opts ((), sample_db) = (Inr r, w', d)"
    and r: "r = fst (run_entries sample_net sample_opts sample_plan (new_result ''rpl_1'' ''scn_1'' 2) ())"
    using sample_done [OF o, of sample_net "()"] by auto
  have "db_fail sample_db = []" by (simp add: sample_db_def empty_db_def)
  from replay_run_recorded [OF e this] e r sample_run show ?thesis by fastforce
qed

text \<open>A replay whose context is cancelled before its first request sends nothing, and is
  reported, and stored, as passed.\<close>

theorem cancelled_replay_passes:
  assumes "execute_replay ft n rid now fin sid opts (w, st) = (Inr r, w', st')" and "net_cancelled n w"
  shows "w' = w \<and> re_diffs r = [] \<and> re_passed r = 0 \<and> re_total r > 0 \<and> run_status r = ''passed''"
proof -
  obtain evs d where "execute_plan n rid now fin sid opts (plan_events evs) (w, d) = (Inr r, w', st')"
      and ne: "plan_events evs \<noteq> []"
    by (rule execute_cases [OF assms(1)]) auto
  from execute_plan_world [OF this(1)] assms(2) ne show ?thesis
    by (cases "plan_events evs") (auto simp: new_result_def run_status_def)
qed

lemma cancelled_replay_passes_witness:
  "\<exists>r d. execute_replay Some (sample_net\<lparr>net_cancelled := (\<lambda>w. True)\<rparr>) ''rpl_1'' 0 1 ''scn_1'' sample_opts
      ((), sample_db) = (Inr r, (), d) \<and> re_passed r = 0 \<and> run_status r = ''passed''"
proof -
  let ?n = "sample_net\<lparr>net_cancelled := (\<lambda>w. True)\<rparr>"
  have o: "op_skip_unsafe sample_opts" by (simp add: sample_opts_def)
  obtain r d where e: "execute_replay Some ?n ''rpl_1'' 0 1 ''scn_1'' sample_opts ((), sample_db) = (Inr r, (), d)"
    using sample_done [OF o, of ?n "()"] by auto
  from cancelled_replay_passes [OF e] e show ?thesis by auto
qed

text \<open>The content type of a replayed response is never compared: the headers the proxy
  captured have canonical names, and the code looks up \<open>content-type\<close>. All that a diff of
  such an event reports is the status.\<close>

theorem content_type_not_compared:
  assumes "pe_original_event e = Some ev" and "ev_response ev = Some rs"
    and "list_all (\<lambda>h. canonical_key (fst h) = fst h) (entries (rs_headers rs))"
  shows "set (df_body_diffs (fst (execute_entry n base e w))) \<subseteq>
    set (status_diffs (pe_original_status e) (df_replay_status (fst (execute_entry n base e w))))"
proof -
  have "canonical_key ''content-type'' \<noteq> ''content-type''" by code_simp
  with assms(3) have "map_of (entries (rs_headers rs)) ''content-type'' = None"
    by (auto simp: map_of_eq_None_iff list_all_iff)
  with assms have "original_content_type e = []" by (simp add: original_content_type_def)
  then show ?thesis
    by (simp add: execute_entry_def Let_def content_type_diffs_def split: option.split prod.split sum.split)
qed

definition sample_html :: plan_entry where
  "sample_html = \<lparr>pe_event_id = ''evt_1'', pe_method = ''GET'', pe_path = ''/'', pe_headers = None, pe_body = [],
     pe_original_status = 200, pe_safe = True,
     pe_original_event = Some (sample_event\<lparr>ev_response :=
       Some (zero_response\<lparr>rs_status_code := 200, rs_headers := Some [(''Content-Type'', ''application/json'')]\<rparr>)\<rparr>)\<rparr>"

lemma content_type_not_compared_witness:
  "df_body_diffs (fst (execute_entry sample_net ''http://localhost:8080'' sample_html ())) = []"
proof -
  let ?rs = "zero_response\<lparr>rs_status_code := 200, rs_headers := Some [(''Content-Type'', ''application/json'')]\<rparr>"
  have "pe_original_event sample_html = Some (sample_event\<lparr>ev_response := Some ?rs\<rparr>)"
    "ev_response (sample_event\<lparr>ev_response := Some ?rs\<rparr>) = Some ?rs"
    by (simp_all add: sample_html_def)
  moreover have "canonical_key ''Content-Type'' = ''Content-Type''" by code_simp
  then have "list_all (\<lambda>h. canonical_key (fst h) = fst h) (entries (rs_headers ?rs))" by simp
  ultimately show ?thesis
    using content_type_not_compared [of sample_html _ ?rs sample_net "''http://localhost:8080''" "()"]
    by (simp add: status_diffs_def sample_html_def execute_entry_def sample_net_def)
qed

end
