(* ===== verification/Sse.thy ===== *)
theory Sse
  imports EventBus Timeline
begin

section \<open>The event stream of the Studio API (\<open>internal/api/server.go\<close>)\<close>

text \<open>
  The table of clients with their channels of 64 slots, the broadcast that never blocks, and the
  handler of a stream, which writes what it takes from its channel. A step is one of: a client
  connects, a client leaves, an event is broadcast, a client's handler takes one message. The table
  of clients is another \<open>registry\<close>.
\<close>

record sse_client =
  cl_queue :: "string list"
  cl_written :: "string list"

record sse =
  sse_clients :: "(string \<times> sse_client) list"
  sse_next_id :: int

definition new_sse :: sse where
  "new_sse = \<lparr>sse_clients = [], sse_next_id = 0\<rparr>"

definition channel_size :: nat where
  "channel_size = 64"

definition new_client :: sse_client where
  "new_client = \<lparr>cl_queue = [], cl_written = []\<rparr>"

definition add_sse_client :: "sse_client \<Rightarrow> sse \<Rightarrow> (string \<times> sse) option" where
  "add_sse_client ch s =
     (let n = wrap64 (sse_next_id s + 1); i = ''sse_'' @ dec_int n in
      Some (i, s\<lparr>sse_next_id := n, sse_clients := AList.update i ch (sse_clients s)\<rparr>))"

definition remove_sse_client :: "string \<Rightarrow> sse \<Rightarrow> sse" where
  "remove_sse_client i s = s\<lparr>sse_clients := AList.delete i (sse_clients s)\<rparr>"

text \<open>A full channel drops the message.\<close>

definition offer :: "string \<Rightarrow> sse_client \<Rightarrow> sse_client" where
  "offer data c = (if length (cl_queue c) < channel_size then c\<lparr>cl_queue := cl_queue c @ [data]\<rparr> else c)"

definition broadcast_sse :: "string \<Rightarrow> sse \<Rightarrow> sse" where
  "broadcast_sse data s = s\<lparr>sse_clients := map (\<lambda>(i, c). (i, offer data c)) (sse_clients s)\<rparr>"

text \<open>The subscription to the bus.\<close>

definition sse_handler :: "timeline_event \<Rightarrow> sse \<Rightarrow> sse" where
  "sse_handler e s = broadcast_sse (json_print (enc_event e)) s"

definition sse_frame :: "string \<Rightarrow> string" where
  "sse_frame data = ''event: timeline.event'' @ [CHR 0x0A] @ ''data: '' @ data @ [CHR 0x0A, CHR 0x0A]"

definition write_next :: "sse_client \<Rightarrow> sse_client" where
  "write_next c =
     (case cl_queue c of
        [] \<Rightarrow> c
      | d # ds \<Rightarrow> \<lparr>cl_queue = ds, cl_written = cl_written c @ [sse_frame d]\<rparr>)"

definition stream_step :: "string \<Rightarrow> sse \<Rightarrow> sse" where
  "stream_step i s =
     (case map_of (sse_clients s) i of
        None \<Rightarrow> s
      | Some c \<Rightarrow> s\<lparr>sse_clients := AList.update i (write_next c) (sse_clients s)\<rparr>)"

text \<open>The reachable tables, with the messages that were broadcast.\<close>

inductive sse_reach :: "string list \<Rightarrow> nat \<Rightarrow> sse \<Rightarrow> bool" where
  sse_start: "sse_reach [] 0 new_sse"
| sse_connect: "sse_reach h n s \<Longrightarrow> add_sse_client new_client s = Some (i, s') \<Longrightarrow> sse_reach h (Suc n) s'"
| sse_leave: "sse_reach h n s \<Longrightarrow> sse_reach h n (remove_sse_client i s)"
| sse_publish: "sse_reach h n s \<Longrightarrow> sse_reach (h @ [d]) n (broadcast_sse d s)"
| sse_write: "sse_reach h n s \<Longrightarrow> sse_reach h n (stream_step i s)"

subsection \<open>The table of clients is a registry\<close>

definition sse_inv :: "sse \<Rightarrow> bool" where
  "sse_inv s = numbered_ids ''sse_'' (sse_next_id s) (sse_clients s)"

definition sse_room :: "sse \<Rightarrow> bool" where
  "sse_room s = (sse_next_id s < int64_max)"

definition sse_lookup :: "sse \<Rightarrow> string \<Rightarrow> sse_client option" where
  "sse_lookup s = map_of (sse_clients s)"

lemma add_sse_eq: "sse_inv s \<Longrightarrow> sse_room s \<Longrightarrow>
   add_sse_client c s = Some (''sse_'' @ dec_int (sse_next_id s + 1),
     s\<lparr>sse_next_id := sse_next_id s + 1,
       sse_clients := AList.update (''sse_'' @ dec_int (sse_next_id s + 1)) c (sse_clients s)\<rparr>)"
  by (simp add: add_sse_client_def Let_def sse_inv_def sse_room_def numbered_ids_def wrap64_id
      int64_min_def)

lemma numbered_keys: "map fst m' = map fst m \<Longrightarrow> numbered_ids p n m' = numbered_ids p n m"
  unfolding numbered_ids_def by (metis list.set_map)

lemma new_sse_inv: "sse_inv new_sse"
  by (simp add: sse_inv_def new_sse_def numbered_ids_def int64_max_def)

interpretation sse_registry: registry add_sse_client remove_sse_client sse_lookup sse_inv sse_room
proof unfold_locales
  fix s x i s'
  assume i: "sse_inv s" "sse_room s"
  then show "add_sse_client x s \<noteq> None" by (simp add: add_sse_eq)
  assume a: "add_sse_client x s = Some (i, s')"
  show "sse_inv s'"
    using a i numbered_add [of "''sse_''" "sse_next_id s" "sse_clients s" x]
    by (auto simp: add_sse_eq sse_inv_def sse_room_def)
  show "sse_lookup s i = None"
    using a i numbered_fresh [of "''sse_''" "sse_next_id s" "sse_clients s" "sse_next_id s + 1"]
    by (auto simp: add_sse_eq sse_lookup_def sse_inv_def map_of_eq_None_iff)
  show "sse_lookup s' = (sse_lookup s)(i \<mapsto> x)"
    using a i by (auto simp: add_sse_eq sse_lookup_def update_conv)
next
  fix s i
  assume "sse_inv s"
  then show "sse_inv (remove_sse_client i s)"
    by (simp add: sse_inv_def remove_sse_client_def numbered_delete)
  show "sse_lookup (remove_sse_client i s) = (sse_lookup s)(i := None)"
    by (auto simp: sse_lookup_def remove_sse_client_def delete_conv)
qed

subsection \<open>What a step does to a client\<close>

lemma broadcast_lookup: "sse_lookup (broadcast_sse d s) i = map_option (offer d) (sse_lookup s i)"
  by (simp add: sse_lookup_def broadcast_sse_def map_of_map)

lemma broadcast_keys: "map fst (sse_clients (broadcast_sse d s)) = map fst (sse_clients s)"
  by (simp add: broadcast_sse_def comp_def case_prod_unfold)

lemma stream_lookup:
  "sse_lookup (stream_step i s) j = (if i = j then map_option write_next (sse_lookup s j) else sse_lookup s j)"
  by (auto simp: sse_lookup_def stream_step_def update_conv split: option.split)

lemma update_known_keys: "map_of m i = Some c \<Longrightarrow> map fst (AList.update i x m) = map fst m"
  by (induction m) auto

lemma stream_keys: "map fst (sse_clients (stream_step i s)) = map fst (sse_clients s)"
  by (auto simp: stream_step_def update_known_keys split: option.split)

lemma sse_step_inv:
  "sse_inv (broadcast_sse d s) = sse_inv s" "sse_inv (stream_step i s) = sse_inv s"
proof -
  have "sse_next_id (broadcast_sse d s) = sse_next_id s" "sse_next_id (stream_step i s) = sse_next_id s"
    by (simp_all add: broadcast_sse_def stream_step_def split: option.split)
  then show "sse_inv (broadcast_sse d s) = sse_inv s" "sse_inv (stream_step i s) = sse_inv s"
    unfolding sse_inv_def using numbered_keys [OF broadcast_keys] numbered_keys [OF stream_keys] by metis+
qed

lemma sse_reach_inv: "sse_reach h n s \<Longrightarrow> int n \<le> int64_max \<Longrightarrow> sse_inv s \<and> sse_next_id s = int n"
proof (induction rule: sse_reach.induct)
  case sse_start
  then show ?case using new_sse_inv by (simp add: new_sse_def)
next
  case (sse_connect h n s i s')
  then have s: "sse_inv s" "sse_room s" "sse_next_id s = int n" by (simp_all add: sse_room_def)
  with sse_connect.hyps(2) have "sse_next_id s' = int (Suc n)" by (auto simp: add_sse_eq)
  with sse_registry.add_inv [OF s(1,2) sse_connect.hyps(2)] show ?case by simp
next
  case (sse_leave h n s i)
  then show ?case using sse_registry.remove_inv by (auto simp: remove_sse_client_def)
next
  case (sse_publish h n s d)
  then show ?case by (simp add: sse_step_inv) (simp add: broadcast_sse_def)
next
  case (sse_write h n s i)
  then show ?case by (simp add: sse_step_inv) (simp add: stream_step_def split: option.split)
qed

text \<open>What a client has been sent and has in its channel are, in order, among the messages broadcast.\<close>

definition client_ok :: "string list \<Rightarrow> sse_client \<Rightarrow> bool" where
  "client_ok h c =
     (length (cl_queue c) \<le> channel_size \<and>
      subseq (cl_written c @ map sse_frame (cl_queue c)) (map sse_frame h))"

lemma client_ok_new: "client_ok h new_client"
  by (simp add: client_ok_def new_client_def)

lemma client_ok_offer:
  assumes "client_ok h c"
  shows "client_ok (h @ [d]) (offer d c)"
proof -
  let ?out = "cl_written c @ map sse_frame (cl_queue c)"
  have "subseq ?out (map sse_frame h)" using assms by (simp add: client_ok_def)
  then have "subseq ?out (map sse_frame h @ [sse_frame d])"
    "subseq (?out @ [sse_frame d]) (map sse_frame h @ [sse_frame d])"
    by (rule subseq_rev_drop_many, simp only: subseq_append)
  with assms show ?thesis by (auto simp: client_ok_def offer_def channel_size_def)
qed

lemma client_ok_write: "client_ok h c \<Longrightarrow> client_ok h (write_next c)"
  by (auto simp: client_ok_def write_next_def split: list.split)

lemma sse_reach_clients:
  "sse_reach h n s \<Longrightarrow> int n \<le> int64_max \<Longrightarrow> sse_lookup s i = Some c \<Longrightarrow> client_ok h c"
proof (induction arbitrary: c rule: sse_reach.induct)
  case sse_start
  then show ?case by (simp add: sse_lookup_def new_sse_def)
next
  case (sse_connect h n s j s')
  then have s: "sse_inv s" "sse_room s" using sse_reach_inv by (auto simp: sse_room_def)
  from sse_registry.add_lookup [OF s sse_connect.hyps(2)] sse_connect show ?case
    by (auto simp: client_ok_new split: if_splits)
next
  case (sse_leave h n s j)
  then have "sse_inv s" using sse_reach_inv by blast
  with sse_leave show ?case by (auto simp: sse_registry.remove_lookup split: if_splits)
next
  case (sse_publish h n s d)
  then show ?case by (auto simp: broadcast_lookup client_ok_offer)
next
  case (sse_write h n s j)
  then show ?case by (auto simp: stream_lookup client_ok_write split: if_splits)
qed

subsection \<open>Properties\<close>

text \<open>C28: A stream never reorders or repeats: after any sequence of connections, departures,
  broadcasts and writes, what a client was sent followed by what waits in its channel is a
  subsequence of the messages broadcast, and the channel never exceeds its 64 slots.\<close>

theorem sse_stream_in_order:
  assumes "sse_reach h n s" and "int n \<le> int64_max" and "sse_lookup s i = Some c"
  shows "length (cl_queue c) \<le> 64 \<and> subseq (cl_written c @ map sse_frame (cl_queue c)) (map sse_frame h)"
  using sse_reach_clients [OF assms] by (simp add: client_ok_def channel_size_def)

lemma sse_stream_in_order_witness:
  "\<exists>i s c. add_sse_client new_client new_sse = Some (i, s) \<and> sse_lookup (broadcast_sse ''x'' s) i = Some c \<and>
     cl_queue c = [''x''] \<and> length (cl_queue c) \<le> 64"
proof -
  have r: "sse_inv new_sse" "sse_room new_sse"
    by (simp_all add: new_sse_inv) (simp add: sse_room_def new_sse_def int64_max_def)
  obtain i s where a: "add_sse_client new_client new_sse = Some (i, s)"
    using sse_registry.add_total [OF r, of new_client] by auto
  with sse_registry.add_lookup [OF r a]
  have l: "sse_lookup (broadcast_sse ''x'' s) i = Some (offer ''x'' new_client)"
    by (simp add: broadcast_lookup)
  have "sse_reach ([] @ [''x'']) (Suc 0) (broadcast_sse ''x'' s)"
    by (rule sse_publish [OF sse_connect [OF sse_start a]])
  from sse_stream_in_order [OF this _ l] a l show ?thesis
    by (auto simp: int64_max_def offer_def new_client_def channel_size_def)
qed

end
