(* ===== verification/StorageClient.thy ===== *)
theory StorageClient
  imports Storage
begin

section \<open>What the clients of the database keep\<close>

text \<open>
  A client of the repositories runs queries and some of the writes. A property of the database that
  those writes keep, and that does not look at the failures to come, is kept by the client: the
  locale \<open>db_client\<close> has this for every repository operation, once for all properties, and the
  handlers of the API and the commands add theirs to it. It is interpreted on the promises of the
  schema (every write is allowed), on the absence of scenarios (every write but a config snapshot),
  and on the tables of a given database (no write at all).
\<close>

locale db_client =
  fixes P :: "db \<Rightarrow> bool" and allowed :: "db_write \<Rightarrow> bool"
  assumes fail: "ignores_fail P"
    and keeps: "allowed w \<Longrightarrow> preserves P (do_write w)"
begin

lemma keepsD: "preserves P act \<Longrightarrow> act st = (r, st') \<Longrightarrow> P st \<Longrightarrow> P st'"
  using preservesD [of P act st] by simp

lemma query_keeps: "preserves P (statement (\<lambda>st. (f st, st)))"
  by (rule preserves_statement [OF fail preserves_query])

lemma reads:
  "preserves P (event_list_by_timestamp ft limit cursor)" "preserves P (event_list_by_scenario ft sid)"
  "preserves P (event_list_by_replay_run ft rid)" "preserves P (event_get_by_id ft i)"
  "preserves P (event_count since)" "preserves P (scenario_select ft Q)" "preserves P (scenario_list ft)"
  "preserves P (run_get_by_id ft i)" "preserves P (run_list_by_scenario ft sid)"
  "preserves P (rule_list ft)" "preserves P (snapshot_get_by_hash h)" "preserves P (service_list ft)"
  unfolding event_list_by_timestamp_def event_list_by_scenario_def event_list_by_replay_run_def
    event_get_by_id_def event_count_def scenario_select_def scenario_list_def run_get_by_id_def
    run_list_by_scenario_def rule_list_def snapshot_get_by_hash_def service_list_def
  by (rule query_keeps)+

lemma scenario_reads:
  "preserves P (scenario_get_by_id ft i)" "preserves P (scenario_get_by_name ft name)"
  "preserves P (scenario_get_active_recording ft)"
proof -
  show "preserves P (scenario_get_by_id ft i)" "preserves P (scenario_get_by_name ft name)"
    by (simp_all add: scenario_get_by_id_def scenario_get_by_name_def reads)
  show "preserves P (scenario_get_active_recording ft)"
    using preservesD [OF reads(6)]
    by (intro preservesI) (auto simp: scenario_get_active_recording_def split: prod.split sum.split
        db_error.split, (metis snd_conv)+)
qed

lemma writes:
  "allowed (WEvent now e) \<Longrightarrow> preserves P (event_insert now e)"
  "allowed (WScenario s) \<Longrightarrow> preserves P (scenario_insert s)"
  "allowed (WScenarioStatus i status stopped n k msg) \<Longrightarrow>
     preserves P (scenario_update_status i status stopped n k msg)"
  "allowed (WRun run) \<Longrightarrow> preserves P (run_insert run)"
  "allowed (WRunStatus i status fin p q diff msg) \<Longrightarrow>
     preserves P (run_update_status i status fin p q diff msg)"
  "allowed (WRule rule) \<Longrightarrow> preserves P (rule_insert rule)"
  "allowed (WRuleEnabled now i b) \<Longrightarrow> preserves P (rule_set_enabled now i b)"
  "allowed (WRuleDelete i) \<Longrightarrow> preserves P (rule_delete i)"
  using keeps [of "WEvent now e"] keeps [of "WScenario s"] keeps [of "WRun run"] keeps [of "WRule rule"]
    keeps [of "WScenarioStatus i status stopped n k msg"]
    keeps [of "WRunStatus i status fin p q diff msg"]
    keeps [of "WRuleEnabled now i b"] keeps [of "WRuleDelete i"]
  by simp_all

lemmas reads_keep = reads [THEN keepsD] scenario_reads [THEN keepsD]
lemmas writes_keep = writes [THEN keepsD]

end

interpretation schema_client: db_client db_ok "\<lambda>w. True"
  by unfold_locales (rule ignores_fail_db_ok, rule do_write_ok)

interpretation no_scenario_client: db_client no_scenario "\<lambda>w. \<not> writes_snapshot w"
  by unfold_locales (rule ignores_fail_no_scenario, rule do_write_no_scenario)

interpretation reading_client: db_client "same_tables st0" "\<lambda>w. False" for st0
  by unfold_locales (simp_all add: ignores_fail_def same_tables_def)

end
