(* ===== verification/Api.thy ===== *)
theory Api
  imports StorageClient Agent Fault ScenarioExport Replay Sse Config
begin

section \<open>The Studio API (\<open>internal/api\<close>)\<close>

text \<open>
  The routes, the CORS middleware and every handler of \<open>server.go\<close> and \<open>handlers.go\<close>, over the
  database and the world of the network (for a replay). A response is a status, its headers and a
  body. What the environment gives is in the record \<open>api_env\<close>: the clock, a generated identifier,
  the text of an error, and the parameters of the theories below. The request arrives with its path
  split at the slashes and its query decoded, as \<open>net/http\<close> hands it over.
\<close>

subsection \<open>Responses\<close>

datatype api_body =
    JsonBody json
  | RawBody string
  | NoBody

record answer =
  an_status :: int
  an_headers :: "(string \<times> string) list"
  an_body :: api_body

definition write_json :: "int \<Rightarrow> json \<Rightarrow> answer" where
  "write_json status v =
     \<lparr>an_status = status, an_headers = [(''Content-Type'', ''application/json'')], an_body = JsonBody v\<rparr>"

definition write_error :: "int \<Rightarrow> string \<Rightarrow> string \<Rightarrow> answer" where
  "write_error status err_code message = write_json status
     (JObj [(''error'', JObj [(''code'', JStr err_code), (''message'', JStr message)])])"

text \<open>The bytes of the body: \<open>Encoder.Encode\<close> ends a document with a newline.\<close>

definition body_text :: "api_body \<Rightarrow> string" where
  "body_text b =
     (case b of JsonBody v \<Rightarrow> json_print v @ [CHR 0x0A] | RawBody s \<Rightarrow> s | NoBody \<Rightarrow> [])"

text \<open>A slice without elements is \<open>nil\<close> in every repository.\<close>

definition json_items :: "('a \<Rightarrow> json) \<Rightarrow> 'a list \<Rightarrow> json" where
  "json_items enc xs = (if xs = [] then JNull else JArr (map enc xs))"

subsection \<open>Requests and environment\<close>

record api_request =
  aq_method :: string
  aq_segments :: "string list"
  aq_query :: "(string \<times> string) list"
  aq_origin :: string
  aq_body :: string

datatype api_error =
    DbError db_error
  | ReplayError replay_error
  | ExportError export_error

record 'w api_env =
  ae_ft :: float_text
  ae_fx :: dur_frac
  ae_msg :: "api_error \<Rightarrow> string"
  ae_net :: "'w net"
  ae_id :: string
  ae_now :: instant
  ae_later :: instant
  ae_version :: string
  ae_run_id :: string
  ae_start_at :: instant

definition storage_failed :: "'w api_env \<Rightarrow> db_error \<Rightarrow> answer" where
  "storage_failed env err = write_error 500 ''storage_query_failed'' (ae_msg env (DbError err))"

definition storage_error :: "'w api_env \<Rightarrow> db_error \<Rightarrow> answer" where
  "storage_error env err = write_error 500 ''storage_error'' (ae_msg env (DbError err))"

definition query_get :: "(string \<times> string) list \<Rightarrow> string \<Rightarrow> string" where
  "query_get q k = (case map_of q k of None \<Rightarrow> [] | Some v \<Rightarrow> v)"

definition int_query :: "(string \<times> string) list \<Rightarrow> string \<Rightarrow> int \<Rightarrow> int" where
  "int_query q k d =
     (if query_get q k = [] then d
      else case parse_int (query_get q k) of
        None \<Rightarrow> d
      | Some n \<Rightarrow> (if n < 1 then d else n))"

definition int64_query :: "(string \<times> string) list \<Rightarrow> string \<Rightarrow> int \<Rightarrow> int" where
  "int64_query q k d =
     (if query_get q k = [] then d
      else case parse_int (query_get q k) of None \<Rightarrow> d | Some n \<Rightarrow> n)"

text \<open>A result whose error is thrown away: the zero value.\<close>

definition or_nil :: "'e + 'a list \<Rightarrow> 'a list" where
  "or_nil r = (case r of Inl _ \<Rightarrow> [] | Inr xs \<Rightarrow> xs)"

definition or_none :: "'e + 'a option \<Rightarrow> 'a option" where
  "or_none r = (case r of Inl _ \<Rightarrow> None | Inr x \<Rightarrow> x)"

subsection \<open>Reading handlers\<close>

definition handle_health :: "'w api_env \<Rightarrow> answer" where
  "handle_health env = write_json 200 (JObj
     [(''database'', JStr ''ok''), (''liveStream'', JStr ''ok''), (''runId'', JStr (ae_run_id env)),
      (''startedAt'', JStr (rfc3339 (ae_start_at env))), (''status'', JStr ''ok''),
      (''version'', JStr (ae_version env))])"

definition next_cursor :: "int \<Rightarrow> timeline_event list \<Rightarrow> string" where
  "next_cursor limit events =
     (if int (length events) = limit
      then dec_int (unix_milli (ev_timestamp (last events))) @ '':'' @ ev_id (last events)
      else [])"

definition handle_list_events :: "'w api_env \<Rightarrow> (string \<times> string) list \<Rightarrow> db \<Rightarrow> answer \<times> db" where
  "handle_list_events env q st =
     (let limit = int_query q ''limit'' 100; cursor = int64_query q ''cursor'' 0 in
      case event_list_by_timestamp (ae_ft env) limit cursor st of
        (Inl err, d) \<Rightarrow> (storage_failed env err, d)
      | (Inr events, d) \<Rightarrow>
          (write_json 200 (JObj [(''items'', json_items enc_event events),
             (''nextCursor'', JStr (next_cursor limit events))]), d))"

definition handle_get_event :: "'w api_env \<Rightarrow> string \<Rightarrow> db \<Rightarrow> answer \<times> db" where
  "handle_get_event env i st =
     (case event_get_by_id (ae_ft env) i st of
        (Inl err, d) \<Rightarrow> (storage_failed env err, d)
      | (Inr None, d) \<Rightarrow> (write_error 404 ''event_not_found'' ''event not found'', d)
      | (Inr (Some e), d) \<Rightarrow> (write_json 200 (enc_event e), d))"

definition handle_list_services :: "'w api_env \<Rightarrow> db \<Rightarrow> answer \<times> db" where
  "handle_list_services env st =
     (case service_list (ae_ft env) st of
        (Inl err, d) \<Rightarrow> (storage_failed env err, d)
      | (Inr xs, d) \<Rightarrow> (write_json 200 (JObj [(''services'', json_items enc_service_health xs)]), d))"

definition handle_list_scenarios :: "'w api_env \<Rightarrow> db \<Rightarrow> answer \<times> db" where
  "handle_list_scenarios env st =
     (case scenario_list (ae_ft env) st of
        (Inl err, d) \<Rightarrow> (storage_failed env err, d)
      | (Inr xs, d) \<Rightarrow> (write_json 200 (JObj [(''items'', json_items enc_scenario xs)]), d))"

definition handle_get_scenario :: "'w api_env \<Rightarrow> string \<Rightarrow> db \<Rightarrow> answer \<times> db" where
  "handle_get_scenario env i st =
     (case scenario_get_by_id (ae_ft env) i st of
        (Inl err, d) \<Rightarrow> (storage_failed env err, d)
      | (Inr None, d) \<Rightarrow> (write_error 404 ''scenario_not_found'' ''scenario not found'', d)
      | (Inr (Some s), d) \<Rightarrow>
          (case event_list_by_scenario (ae_ft env) i d of (events, d1) \<Rightarrow>
             (case run_list_by_scenario (ae_ft env) i d1 of (runs, d2) \<Rightarrow>
                (write_json 200 (JObj [(''events'', json_items enc_event (or_nil events)),
                   (''replayRuns'', json_items enc_replay_run (or_nil runs)),
                   (''scenario'', enc_scenario s)]), d2))))"

definition handle_list_fault_rules :: "'w api_env \<Rightarrow> db \<Rightarrow> answer \<times> db" where
  "handle_list_fault_rules env st =
     (case rule_list (ae_ft env) st of
        (Inl err, d) \<Rightarrow> (storage_failed env err, d)
      | (Inr xs, d) \<Rightarrow> (write_json 200 (JObj [(''items'', json_items enc_rule xs)]), d))"

definition handle_get_replay_run :: "'w api_env \<Rightarrow> string \<Rightarrow> db \<Rightarrow> answer \<times> db" where
  "handle_get_replay_run env i st =
     (case run_get_by_id (ae_ft env) i st of
        (Inl err, d) \<Rightarrow> (storage_failed env err, d)
      | (Inr None, d) \<Rightarrow> (write_error 404 ''replay_run_not_found'' ''replay run not found'', d)
      | (Inr (Some run), d) \<Rightarrow>
          (case event_list_by_scenario (ae_ft env) (rr_scenario_id run) d of (orig, d1) \<Rightarrow>
             (case event_list_by_replay_run (ae_ft env) i d1 of (rep, d2) \<Rightarrow>
                (write_json 200 (JObj [(''originalEvents'', json_items enc_event (or_nil orig)),
                   (''replayEvents'', json_items enc_event (or_nil rep)),
                   (''run'', enc_replay_run run)]), d2))))"

text \<open>The head of a stream; what follows is theory \<open>Sse\<close>.\<close>

definition stream_head :: answer where
  "stream_head = \<lparr>an_status = 200,
     an_headers = [(''Content-Type'', ''text/event-stream''), (''Cache-Control'', ''no-cache''),
       (''Connection'', ''keep-alive'')], an_body = NoBody\<rparr>"

subsection \<open>Recordings\<close>

record start_body =
  sb_name :: string
  sb_description :: string
  sb_tags :: "string goslice"

definition zero_start_body :: start_body where
  "zero_start_body = \<lparr>sb_name = [], sb_description = [], sb_tags = None\<rparr>"

definition dec_start_body :: "start_body dec" where
  "dec_start_body = dec_struct
     [(''name'', at_field dec_string sb_name sb_name_update),
      (''description'', at_field dec_string sb_description sb_description_update),
      (''tags'', at_field dec_strings sb_tags sb_tags_update)]"

definition api_scenario :: "string \<Rightarrow> instant \<Rightarrow> start_body \<Rightarrow> scenario" where
  "api_scenario i now b =
     \<lparr>sc_id = i, sc_name = sb_name b, sc_description = sb_description b, sc_status = ''recording'',
      sc_started_at = now, sc_stopped_at = None, sc_event_count = 0, sc_replayable_count = 0,
      sc_root_event_ids = None, sc_tags = sb_tags b, sc_config_snapshot_id = [],
      sc_redaction_summary = None, sc_created_by = ''api'', sc_error_message = []\<rparr>"

definition invalid_body :: answer where
  "invalid_body = write_error 400 ''invalid_body'' ''invalid JSON body''"

text \<open>The errors of the two look-ups are thrown away.\<close>

definition start_named :: "'w api_env \<Rightarrow> start_body \<Rightarrow> db \<Rightarrow> answer \<times> db" where
  "start_named env b st =
     (case scenario_get_active_recording (ae_ft env) st of (active, d) \<Rightarrow>
        (case or_none active of
           Some a \<Rightarrow> (write_error 409 ''recording_active'' (''a recording is already active: '' @ sc_name a), d)
         | None \<Rightarrow>
             (case scenario_get_by_name (ae_ft env) (sb_name b) d of (existing, d1) \<Rightarrow>
                (case or_none existing of
                   Some _ \<Rightarrow> (write_error 409 ''name_exists'' ''scenario name already exists'', d1)
                 | None \<Rightarrow>
                     (case scenario_insert (api_scenario (ae_id env) (ae_now env) b) d1 of
                        (Inl err, d2) \<Rightarrow> (storage_error env err, d2)
                      | (Inr _, d2) \<Rightarrow>
                          (write_json 201 (enc_scenario (api_scenario (ae_id env) (ae_now env) b)), d2))))))"

definition handle_start_recording :: "'w api_env \<Rightarrow> string \<Rightarrow> db \<Rightarrow> answer \<times> db" where
  "handle_start_recording env body st =
     (case decode_body dec_start_body body zero_start_body of (ok, b) \<Rightarrow>
        (if \<not> ok then (invalid_body, st)
         else if sb_name b = [] then (write_error 400 ''validation_error'' ''name is required'', st)
         else start_named env b st))"

definition count_replayable :: "timeline_event list \<Rightarrow> int" where
  "count_replayable events = int (length (filter
     (\<lambda>e. case ev_request e of None \<Rightarrow> False | Some r \<Rightarrow> rq_replayable r) events))"

definition handle_stop_recording :: "'w api_env \<Rightarrow> db \<Rightarrow> answer \<times> db" where
  "handle_stop_recording env st =
     (case scenario_get_active_recording (ae_ft env) st of (active, d) \<Rightarrow>
        (case or_none active of
           None \<Rightarrow> (write_error 404 ''no_recording'' ''no active recording'', d)
         | Some a \<Rightarrow>
             (case event_list_by_scenario (ae_ft env) (sc_id a) d of (listed, d1) \<Rightarrow>
                (let events = or_nil listed in
                 case scenario_update_status (sc_id a) ''completed'' (Some (ae_now env))
                        (int (length events)) (count_replayable events) [] d1 of
                   (Inl err, d2) \<Rightarrow> (storage_error env err, d2)
                 | (Inr _, d2) \<Rightarrow>
                     (case scenario_get_by_id (ae_ft env) (sc_id a) d2 of (sc, d3) \<Rightarrow>
                        (write_json 200 (enc_ptr enc_scenario (or_none sc)), d3))))))"

subsection \<open>Replay and export\<close>

record replay_body =
  rb_base_url :: string
  rb_skip_unsafe :: bool
  rb_confirm_unsafe :: bool

definition dec_replay_body :: "replay_body dec" where
  "dec_replay_body = dec_struct
     [(''baseUrl'', at_field dec_string rb_base_url rb_base_url_update),
      (''skipUnsafe'', at_field dec_bool rb_skip_unsafe rb_skip_unsafe_update),
      (''confirmUnsafe'', at_field dec_bool rb_confirm_unsafe rb_confirm_unsafe_update)]"

definition zero_replay_body :: replay_body where
  "zero_replay_body = \<lparr>rb_base_url = [], rb_skip_unsafe = False, rb_confirm_unsafe = False\<rparr>"

definition replay_opts :: "replay_body \<Rightarrow> replay_options" where
  "replay_opts b = \<lparr>op_base_url = rb_base_url b, op_skip_unsafe = rb_skip_unsafe b,
     op_confirm_unsafe = rb_confirm_unsafe b\<rparr>"

definition handle_start_replay :: "'w api_env \<Rightarrow> string \<Rightarrow> string \<Rightarrow> 'w \<times> db \<Rightarrow> answer \<times> 'w \<times> db" where
  "handle_start_replay env sid body st =
     (case decode_body dec_replay_body body zero_replay_body of (ok, b) \<Rightarrow>
        (if \<not> ok then (invalid_body, st)
         else if rb_base_url b = [] then (write_error 400 ''validation_error'' ''baseUrl is required'', st)
         else case execute_replay (ae_ft env) (ae_net env) (ae_id env) (ae_now env) (ae_later env) sid
                     (replay_opts b) st of
           (Inl err, st') \<Rightarrow> (write_error 400 ''replay_error'' (ae_msg env (ReplayError err)), st')
         | (Inr r, st') \<Rightarrow> (write_json 200 (enc_result r), st')))"

definition handle_export_scenario :: "'w api_env \<Rightarrow> string \<Rightarrow> db \<Rightarrow> answer \<times> db" where
  "handle_export_scenario env sid st =
     (case export_json (ae_ft env) (ae_now env) (ae_version env) sid st of
        (Inl err, d) \<Rightarrow> (write_error 400 ''export_error'' (ae_msg env (ExportError err)), d)
      | (Inr body, d) \<Rightarrow>
          (\<lparr>an_status = 200, an_headers = [(''Content-Type'', ''application/json''),
              (''Content-Disposition'', ''attachment; filename='' @ [CHR 0x22] @ ''scenario-'' @ sid @ ''.json'' @ [CHR 0x22])],
            an_body = RawBody body\<rparr>, d))"

subsection \<open>Fault rules\<close>

definition handle_create_fault_rule :: "'w api_env \<Rightarrow> string \<Rightarrow> db \<Rightarrow> answer \<times> db" where
  "handle_create_fault_rule env body st =
     (case decode_body (dec_rule (ae_ft env)) body zero_rule of (ok, r) \<Rightarrow>
        (if \<not> ok then (invalid_body, st)
         else case validate_rule (ae_fx env) r of
           err # _ \<Rightarrow> (write_error 400 ''validation_error'' err, st)
         | [] \<Rightarrow>
             (let r' = r\<lparr>fr_id := ae_id env, fr_created_at := ae_now env, fr_updated_at := ae_now env\<rparr> in
              case rule_insert r' st of
                (Inl err, d) \<Rightarrow> (storage_error env err, d)
              | (Inr _, d) \<Rightarrow> (write_json 201 (enc_rule r'), d))))"

definition handle_update_fault_rule :: "'w api_env \<Rightarrow> string \<Rightarrow> string \<Rightarrow> db \<Rightarrow> answer \<times> db" where
  "handle_update_fault_rule env i body st =
     (case decode_body (dec_struct [(''enabled'', dec_ptr dec_bool False)]) body None of (ok, enabled) \<Rightarrow>
        (if \<not> ok then (invalid_body, st)
         else let updated = write_json 200 (JObj [(''id'', JStr i), (''updated'', JBool True)]) in
           case enabled of
             None \<Rightarrow> (updated, st)
           | Some b \<Rightarrow>
               (case rule_set_enabled (ae_now env) i b st of
                  (Inl err, d) \<Rightarrow> (storage_error env err, d)
                | (Inr _, d) \<Rightarrow> (updated, d))))"

definition handle_delete_fault_rule :: "'w api_env \<Rightarrow> string \<Rightarrow> db \<Rightarrow> answer \<times> db" where
  "handle_delete_fault_rule env i st =
     (case rule_delete i st of
        (Inl err, d) \<Rightarrow> (storage_error env err, d)
      | (Inr _, d) \<Rightarrow> (write_json 200 (JObj [(''deleted'', JBool True), (''id'', JStr i)]), d))"

subsection \<open>Routes\<close>

datatype endpoint =
    Health
  | ListEvents
  | EventStream
  | GetEvent string
  | ListServices
  | ListScenarios
  | GetScenario string
  | StartRecording
  | StopRecording
  | StartReplay string
  | ExportScenario string
  | ListFaultRules
  | CreateFaultRule
  | UpdateFaultRule string
  | DeleteFaultRule string
  | GetReplayRun string

text \<open>A pattern is a list of segments, \<open>None\<close> being the wildcard. Of two patterns that match, the one
  without the wildcard is listed, and tried, first.\<close>

definition api_routes :: "(string \<times> string option list \<times> (string \<Rightarrow> endpoint)) list" where
  "api_routes =
     [(''GET'', [Some ''api'', Some ''health''], \<lambda>_. Health),
      (''GET'', [Some ''api'', Some ''events''], \<lambda>_. ListEvents),
      (''GET'', [Some ''api'', Some ''events'', Some ''stream''], \<lambda>_. EventStream),
      (''GET'', [Some ''api'', Some ''events'', None], GetEvent),
      (''GET'', [Some ''api'', Some ''services''], \<lambda>_. ListServices),
      (''GET'', [Some ''api'', Some ''scenarios''], \<lambda>_. ListScenarios),
      (''GET'', [Some ''api'', Some ''scenarios'', None], GetScenario),
      (''POST'', [Some ''api'', Some ''scenarios'', Some ''start''], \<lambda>_. StartRecording),
      (''POST'', [Some ''api'', Some ''scenarios'', Some ''stop''], \<lambda>_. StopRecording),
      (''POST'', [Some ''api'', Some ''scenarios'', None, Some ''replay''], StartReplay),
      (''POST'', [Some ''api'', Some ''scenarios'', None, Some ''export''], ExportScenario),
      (''GET'', [Some ''api'', Some ''fault-rules''], \<lambda>_. ListFaultRules),
      (''POST'', [Some ''api'', Some ''fault-rules''], \<lambda>_. CreateFaultRule),
      (''PATCH'', [Some ''api'', Some ''fault-rules'', None], UpdateFaultRule),
      (''DELETE'', [Some ''api'', Some ''fault-rules'', None], DeleteFaultRule),
      (''GET'', [Some ''api'', Some ''replay-runs'', None], GetReplayRun)]"

text \<open>The value of the wildcard when the path matches (empty when there is none in the pattern).\<close>

fun match_path :: "string option list \<Rightarrow> string list \<Rightarrow> string option" where
  "match_path [] [] = Some []"
| "match_path (Some lit # ps) (x # xs) = (if lit = x then match_path ps xs else None)"
| "match_path (None # ps) (x # xs) =
     (if x = [] then None else map_option (\<lambda>_. x) (match_path ps xs))"
| "match_path _ _ = None"

text \<open>A pattern for \<open>GET\<close> also takes \<open>HEAD\<close>.\<close>

definition method_matches :: "string \<Rightarrow> string \<Rightarrow> bool" where
  "method_matches pat m = (pat = m \<or> (pat = ''GET'' \<and> m = ''HEAD''))"

fun find_route :: "(string \<times> string option list \<times> (string \<Rightarrow> endpoint)) list \<Rightarrow> string \<Rightarrow> string list \<Rightarrow>
    endpoint option" where
  "find_route [] m segs = None"
| "find_route ((pm, ps, f) # rs) m segs =
     (case match_path ps segs of
        Some x \<Rightarrow> (if method_matches pm m then Some (f x) else find_route rs m segs)
      | None \<Rightarrow> find_route rs m segs)"

definition route_exists :: "string list \<Rightarrow> bool" where
  "route_exists segs = list_ex (\<lambda>(pm, ps, f). match_path ps segs \<noteq> None) api_routes"

definition plain_error :: "int \<Rightarrow> string \<Rightarrow> answer" where
  "plain_error status msg =
     \<lparr>an_status = status, an_headers = [(''Content-Type'', ''text/plain; charset=utf-8''),
        (''X-Content-Type-Options'', ''nosniff'')], an_body = RawBody (msg @ [CHR 0x0A])\<rparr>"

definition no_route :: "string list \<Rightarrow> answer" where
  "no_route segs =
     (if route_exists segs then plain_error 405 ''Method Not Allowed'' else plain_error 404 ''404 page not found'')"

definition on_db :: "(db \<Rightarrow> answer \<times> db) \<Rightarrow> 'w \<times> db \<Rightarrow> answer \<times> 'w \<times> db" where
  "on_db f st = (case f (snd st) of (a, d) \<Rightarrow> (a, fst st, d))"

fun run_endpoint :: "'w api_env \<Rightarrow> api_request \<Rightarrow> endpoint \<Rightarrow> 'w \<times> db \<Rightarrow> answer \<times> 'w \<times> db" where
  "run_endpoint env r Health st = (handle_health env, st)"
| "run_endpoint env r ListEvents st = on_db (handle_list_events env (aq_query r)) st"
| "run_endpoint env r EventStream st = (stream_head, st)"
| "run_endpoint env r (GetEvent i) st = on_db (handle_get_event env i) st"
| "run_endpoint env r ListServices st = on_db (handle_list_services env) st"
| "run_endpoint env r ListScenarios st = on_db (handle_list_scenarios env) st"
| "run_endpoint env r (GetScenario i) st = on_db (handle_get_scenario env i) st"
| "run_endpoint env r StartRecording st = on_db (handle_start_recording env (aq_body r)) st"
| "run_endpoint env r StopRecording st = on_db (handle_stop_recording env) st"
| "run_endpoint env r (StartReplay i) st = handle_start_replay env i (aq_body r) st"
| "run_endpoint env r (ExportScenario i) st = on_db (handle_export_scenario env i) st"
| "run_endpoint env r ListFaultRules st = on_db (handle_list_fault_rules env) st"
| "run_endpoint env r CreateFaultRule st = on_db (handle_create_fault_rule env (aq_body r)) st"
| "run_endpoint env r (UpdateFaultRule i) st = on_db (handle_update_fault_rule env i (aq_body r)) st"
| "run_endpoint env r (DeleteFaultRule i) st = on_db (handle_delete_fault_rule env i) st"
| "run_endpoint env r (GetReplayRun i) st = on_db (handle_get_replay_run env i) st"

definition serve_routes :: "'w api_env \<Rightarrow> api_request \<Rightarrow> 'w \<times> db \<Rightarrow> answer \<times> 'w \<times> db" where
  "serve_routes env r st =
     (case find_route api_routes (aq_method r) (aq_segments r) of
        None \<Rightarrow> (no_route (aq_segments r), st)
      | Some e \<Rightarrow> run_endpoint env r e st)"

subsection \<open>CORS\<close>

definition is_local_origin :: "string \<Rightarrow> bool" where
  "is_local_origin origin = list_ex (str_contains origin) local_names"

definition cors_headers :: "string \<Rightarrow> (string \<times> string) list" where
  "cors_headers origin =
     (if origin \<noteq> [] \<and> is_local_origin origin
      then [(''Access-Control-Allow-Origin'', origin),
        (''Access-Control-Allow-Methods'', ''GET, POST, PATCH, DELETE, OPTIONS''),
        (''Access-Control-Allow-Headers'', ''Content-Type'')]
      else [])"

definition serve_api :: "'w api_env \<Rightarrow> api_request \<Rightarrow> 'w \<times> db \<Rightarrow> answer \<times> 'w \<times> db" where
  "serve_api env r st =
     (let cors = cors_headers (aq_origin r) in
      if aq_method r = ''OPTIONS''
      then (\<lparr>an_status = 204, an_headers = cors, an_body = NoBody\<rparr>, st)
      else case serve_routes env r st of
        (a, st') \<Rightarrow> (a\<lparr>an_headers := cors @ an_headers a\<rparr>, st'))"

subsection \<open>The writes of an endpoint\<close>

fun endpoint_reads :: "endpoint \<Rightarrow> bool" where
  "endpoint_reads StartRecording = False"
| "endpoint_reads StopRecording = False"
| "endpoint_reads (StartReplay i) = False"
| "endpoint_reads CreateFaultRule = False"
| "endpoint_reads (UpdateFaultRule i) = False"
| "endpoint_reads (DeleteFaultRule i) = False"
| "endpoint_reads e = True"

lemma find_route_in: "find_route rs m segs = Some e \<Longrightarrow> \<exists>pm ps f x. (pm, ps, f) \<in> set rs \<and> method_matches pm m \<and> e = f x"
  by (induction rs m segs rule: find_route.induct) (auto split: option.splits if_splits)

lemma routes_read:
  "list_all (\<lambda>(pm, ps, f). pm \<noteq> ''HEAD'' \<and> (pm = ''GET'' \<longrightarrow> (\<forall>x. endpoint_reads (f x)))) api_routes"
  by (simp add: api_routes_def)

lemma get_route_reads:
  assumes "find_route api_routes m segs = Some e" and "m = ''GET'' \<or> m = ''HEAD''"
  shows "endpoint_reads e"
proof -
  obtain pm ps f x where r: "(pm, ps, f) \<in> set api_routes" "method_matches pm m" "e = f x"
    using find_route_in [OF assms(1)] by blast
  moreover have "pm \<noteq> ''HEAD'' \<and> (pm = ''GET'' \<longrightarrow> (\<forall>x. endpoint_reads (f x)))"
    using routes_read r(1) by (auto simp: list_all_iff)
  ultimately show ?thesis using assms(2) by (auto simp: method_matches_def)
qed

lemma on_db_snd [simp]: "snd (snd (on_db f st)) = snd (f (snd st))"
  by (simp add: on_db_def split: prod.split)

context db_client
begin

lemma list_events_keeps: "P st \<Longrightarrow> P (snd (handle_list_events env q st))"
  by (auto simp: handle_list_events_def Let_def split: prod.split sum.split intro: reads_keep)

lemma get_event_keeps: "P st \<Longrightarrow> P (snd (handle_get_event env i st))"
  by (auto simp: handle_get_event_def split: prod.split sum.split option.split intro: reads_keep)

lemma lists_keep:
  "P st \<Longrightarrow> P (snd (handle_list_services env st))" "P st \<Longrightarrow> P (snd (handle_list_scenarios env st))"
  "P st \<Longrightarrow> P (snd (handle_list_fault_rules env st))"
  by (auto simp: handle_list_services_def handle_list_scenarios_def handle_list_fault_rules_def
      split: prod.split sum.split intro: reads_keep)

lemma get_scenario_keeps: "P st \<Longrightarrow> P (snd (handle_get_scenario env i st))"
  by (auto simp: handle_get_scenario_def split: prod.split sum.split option.split)
     (metis reads_keep)+

lemma get_replay_run_keeps: "P st \<Longrightarrow> P (snd (handle_get_replay_run env i st))"
  by (auto simp: handle_get_replay_run_def split: prod.split sum.split option.split)
     (metis reads_keep)+

lemma export_keeps: "export_scenario ft now v i st = (x, d) \<Longrightarrow> P st \<Longrightarrow> P d"
  by (auto simp: export_scenario_def split: prod.splits sum.splits option.splits if_splits)
     (metis reads_keep)+

lemma handle_export_keeps: "P st \<Longrightarrow> P (snd (handle_export_scenario env i st))"
  by (auto simp: handle_export_scenario_def export_json_def split: prod.splits sum.splits dest: export_keeps)

lemmas reading_keeps = list_events_keeps get_event_keeps lists_keep get_scenario_keeps
  get_replay_run_keeps handle_export_keeps

lemma reading_endpoint_keeps:
  "endpoint_reads e \<Longrightarrow> P (snd st) \<Longrightarrow> P (snd (snd (run_endpoint env r e st)))"
  by (cases e) (simp_all add: reading_keeps)

lemma start_recording_keeps:
  assumes "\<And>s. allowed (WScenario s)" and "P st"
  shows "P (snd (handle_start_recording env body st))"
proof -
  have "P (snd (start_named env b st))" for b
    using assms(2)
    by (auto simp: start_named_def split: prod.split sum.split option.split)
       (metis reads_keep writes_keep(2) [OF assms(1)])+
  then show ?thesis using assms(2) by (simp add: handle_start_recording_def split: prod.split)
qed

lemma stop_recording_keeps:
  assumes "\<And>i status stopped n k msg. allowed (WScenarioStatus i status stopped n k msg)" and "P st"
  shows "P (snd (handle_stop_recording env st))"
  using assms(2)
  by (auto simp: handle_stop_recording_def Let_def split: prod.split sum.split option.split)
     (metis reads_keep writes_keep(3) [OF assms(1)])+

lemma execute_plan_keeps:
  assumes "\<And>run. allowed (WRun run)"
    and "\<And>i status fin p q diff msg. allowed (WRunStatus i status fin p q diff msg)"
    and "execute_plan n rid now fin sid opts plan st = (x, w, d)" and "P (snd st)"
  shows "P d"
  using assms(3,4)
  by (auto simp: execute_plan_def case_prod_unfold Let_def split: prod.splits sum.splits)
     (metis writes_keep(4) [OF assms(1)] writes_keep(5) [OF assms(2)] prod.collapse)+

lemma execute_replay_keeps:
  assumes "\<And>run. allowed (WRun run)"
    and "\<And>i status fin p q diff msg. allowed (WRunStatus i status fin p q diff msg)"
    and "execute_replay ft n rid now fin sid opts st = (x, w, d)" and "P (snd st)"
  shows "P d"
proof -
  have plan: "P d'" if "execute_plan n rid now fin sid opts plan (w0, d0) = (x, w, d')" "P d0" for plan w0 d0 d'
    using execute_plan_keeps [OF assms(1,2) that(1)] that(2) by simp
  show ?thesis using assms(3,4)
    by (auto simp: execute_replay_def replay_plan_def split: prod.splits sum.splits option.splits if_splits;
        blast intro: reads_keep dest: plan)
qed

lemma fault_rules_keep:
  assumes "P st"
  shows "(\<And>r. allowed (WRule r)) \<Longrightarrow> P (snd (handle_create_fault_rule env body st))"
    and "(\<And>now i b. allowed (WRuleEnabled now i b)) \<Longrightarrow> P (snd (handle_update_fault_rule env i body st))"
    and "(\<And>i. allowed (WRuleDelete i)) \<Longrightarrow> P (snd (handle_delete_fault_rule env i st))"
  using assms
  by (auto simp: handle_create_fault_rule_def handle_update_fault_rule_def handle_delete_fault_rule_def
      Let_def split: prod.split sum.split option.split list.split intro: writes_keep)

lemma serve_api_reads:
  assumes "aq_method r \<in> {''GET'', ''HEAD'', ''OPTIONS''}" and "P (snd st)"
  shows "P (snd (snd (serve_api env r st)))"
  using assms get_route_reads
  by (auto simp: serve_api_def Let_def serve_routes_def split: prod.split option.split)
     (metis reading_endpoint_keeps snd_conv)+

lemma serve_api_keeps:
  assumes "\<And>w. \<not> writes_snapshot w \<Longrightarrow> allowed w" and "P (snd st)"
  shows "P (snd (snd (serve_api env r st)))"
proof -
  have "P (snd (snd (handle_start_replay env i body st)))" for i body
    using execute_replay_keeps [of "ae_ft env" "ae_net env" "ae_id env" "ae_now env" "ae_later env"]
      assms
    by (auto simp: handle_start_replay_def split: prod.split sum.split)
  then have "P (snd (snd (run_endpoint env r e st)))" for e
    using assms reading_endpoint_keeps [of e st]
    by (cases "endpoint_reads e"; cases e)
       (simp_all add: start_recording_keeps stop_recording_keeps fault_rules_keep)
  then show ?thesis
    using assms(2) by (auto simp: serve_api_def serve_routes_def Let_def split: prod.split option.split)
       (metis snd_conv)+
qed

end

subsection \<open>Sequences of requests\<close>

definition api_run :: "('w api_env \<times> api_request) list \<Rightarrow> 'w \<times> db \<Rightarrow> 'w \<times> db" where
  "api_run reqs st = foldl (\<lambda>st er. snd (serve_api (fst er) (snd er) st)) st reqs"

context db_client
begin

lemma api_run_keeps:
  assumes "\<And>w. \<not> writes_snapshot w \<Longrightarrow> allowed w" and "P (snd st)"
  shows "P (snd (api_run reqs st))"
  using assms(2) unfolding api_run_def
  by (induction reqs arbitrary: st) (simp_all add: serve_api_keeps [OF assms(1)])

end

lemma insert_without_snapshot:
  assumes "no_scenario st" and "scenario_insert s st = (r, st')"
  shows "\<exists>err. r = Inl err"
proof (cases r)
  case (Inr u)
  with assms have "\<exists>bs. insert_row (\<lambda>st. sc_status s \<in> set scenario_statuses)
      (\<lambda>st. \<not> in_table scr_id (sc_id s) (db_scens st) \<and> \<not> in_table scr_name (sc_name s) (db_scens st))
      (\<lambda>st. in_table cfr_id (sc_config_snapshot_id s) (db_snaps st))
      (\<lambda>st. st\<lparr>db_scens := db_scens st @ [scenario_row_of s]\<rparr>) (st\<lparr>db_fail := bs\<rparr>) = (Inr (), st')"
    unfolding scenario_insert_def by (auto elim: statement_done)
  with assms(1) show ?thesis by (auto simp: insert_row_done no_scenario_def)
qed simp

lemma start_without_snapshot:
  assumes "no_scenario st"
  shows "an_status (fst (handle_start_recording env body st)) \<in> {400, 500}"
proof -
  have none: "select_one Q (db_scens st') = None" if "no_scenario st'" for Q st'
    using that by (simp add: no_scenario_def select_one_def)
  have sel: "or_none (fst (scenario_select ft Q st')) = None" if "no_scenario st'" for ft Q st'
    using none that by (auto simp: scenario_select_def statement_def or_none_def no_scenario_def split: list.split)
  have act: "or_none (fst (scenario_get_active_recording ft st')) = None" if "no_scenario st'" for ft st'
    using sel [OF that, of ft "\<lambda>r. scr_status r = ''recording''"]
    by (auto simp: scenario_get_active_recording_def or_none_def split: prod.splits sum.splits option.splits db_error.splits)
  have "an_status (fst (start_named env b st)) = 500" for b
    using act [OF assms, of "ae_ft env"] no_scenario_client.scenario_reads(3) [of "ae_ft env", THEN preservesD, OF assms]
      sel [of _ "ae_ft env" "\<lambda>r. scr_name r = sb_name b"]
      no_scenario_client.reads(6) [of "ae_ft env" "\<lambda>r. scr_name r = sb_name b", THEN preservesD]
      insert_without_snapshot
    by (fastforce simp: start_named_def scenario_get_by_name_def storage_error_def write_error_def write_json_def
        split: prod.split sum.split)
  then show ?thesis
    by (simp add: handle_start_recording_def invalid_body_def write_error_def write_json_def split: prod.split)
qed

subsection \<open>Properties\<close>

text \<open>C30: A request by \<open>GET\<close>, \<open>HEAD\<close> or \<open>OPTIONS\<close> changes no table, whichever endpoint it reaches.\<close>

theorem api_reads_change_nothing:
  assumes "aq_method r \<in> {''GET'', ''HEAD'', ''OPTIONS''}"
  shows "same_tables (snd st) (snd (snd (serve_api env r st)))"
  by (rule reading_client.serve_api_reads [OF assms]) simp

definition sample_env :: "unit api_env" where
  "sample_env = \<lparr>ae_ft = Some, ae_fx = (\<lambda>f u s. 0), ae_msg = (\<lambda>e. ''error''), ae_net = sample_net,
     ae_id = ''scn_2'', ae_now = 5, ae_later = 6, ae_version = ''0.1.0'', ae_run_id = ''run_1'', ae_start_at = 0\<rparr>"

definition get_request :: "string list \<Rightarrow> api_request" where
  "get_request segs = \<lparr>aq_method = ''GET'', aq_segments = segs, aq_query = [], aq_origin = [], aq_body = []\<rparr>"

lemma api_reads_change_nothing_witness:
  "same_tables sample_db (snd (snd (serve_api sample_env (get_request [''api'', ''events'']) ((), sample_db))))"
  using api_reads_change_nothing [of "get_request [''api'', ''events'']" "((), sample_db)" sample_env]
  by (simp add: get_request_def)


text \<open>C31: Over the API nothing is ever recorded: after any sequence of requests to a new database
  there is no scenario, and starting a recording answers with an error. Every scenario refers to a
  config snapshot, and no request stores one.\<close>

theorem api_never_records:
  "db_scens (snd (api_run reqs (w, empty_db\<lparr>db_fail := fails\<rparr>))) = [] \<and>
   an_status (fst (handle_start_recording env body (snd (api_run reqs (w, empty_db\<lparr>db_fail := fails\<rparr>))))) \<in> {400, 500}"
proof -
  have "no_scenario (snd (api_run reqs (w, empty_db\<lparr>db_fail := fails\<rparr>)))"
    by (rule no_scenario_client.api_run_keeps) (simp_all add: no_scenario_def empty_db_def)
  then show ?thesis using start_without_snapshot by (auto simp: no_scenario_def)
qed

text \<open>The cursor that a page of events gives for the next page is not read back: a request that
  sends it gets what a request without a cursor gets, the first page again.\<close>

theorem next_cursor_restarts:
  "handle_list_events env ((''cursor'', next_cursor limit events) # q) st =
   handle_list_events env ((''cursor'', []) # q) st"
proof -
  have "int64_query ((''cursor'', next_cursor limit events) # q) ''cursor'' 0 = 0"
  proof (cases "int (length events) = limit")
    case True
    have "parse_int (next_cursor limit events) = None"
      by (rule parse_int_nondigit [of "CHR '':''"]) (simp_all add: next_cursor_def True is_digit_def)
    then show ?thesis by (simp add: int64_query_def query_get_def)
  qed (simp add: int64_query_def query_get_def next_cursor_def)
  moreover have "int_query ((''cursor'', x) # q) ''limit'' d = int_query q ''limit'' d" for x d
    by (simp add: int_query_def query_get_def)
  moreover have "int64_query ((''cursor'', []) # q) ''cursor'' 0 = 0"
    by (simp add: int64_query_def query_get_def)
  ultimately show ?thesis by (simp add: handle_list_events_def Let_def)
qed

text \<open>A scenario that does not exist is reported as a failure of the storage, never as not
  found: the handler answers 200 or 500.\<close>

theorem get_scenario_never_404:
  "an_status (fst (handle_get_scenario env i st)) \<in> {200, 500}"
proof -
  have "fst (scenario_get_by_id ft i st) \<noteq> Inr None" for ft
    by (auto simp: scenario_get_by_id_def scenario_select_def statement_def split: list.split option.split)
  then show ?thesis
    by (auto simp: handle_get_scenario_def storage_failed_def write_error_def write_json_def
        split: prod.split sum.split option.split) (metis fst_conv)
qed

text \<open>C33: A fault rule is created only when it is valid: the request answers 201 and a valid rule
  with the generated identifier is appended, or it answers an error and the rules are as before.\<close>

theorem create_rule_checked:
  "(\<exists>r. an_status (fst (handle_create_fault_rule env body st)) = 201 \<and> validate_rule (ae_fx env) r = [] \<and>
      fr_id r = ae_id env \<and> db_rules (snd (handle_create_fault_rule env body st)) = db_rules st @ [rule_row_of r]) \<or>
   (an_status (fst (handle_create_fault_rule env body st)) \<in> {400, 500} \<and>
    db_rules (snd (handle_create_fault_rule env body st)) = db_rules st)"
proof -
  obtain ok r where d: "decode_body (dec_rule (ae_ft env)) body zero_rule = (ok, r)"
    by (cases "decode_body (dec_rule (ae_ft env)) body zero_rule")
  let ?r = "r\<lparr>fr_id := ae_id env, fr_created_at := ae_now env, fr_updated_at := ae_now env\<rparr>"
  show ?thesis
  proof (cases "ok \<and> validate_rule (ae_fx env) r = []")
    case False
    then show ?thesis
      by (auto simp: handle_create_fault_rule_def d invalid_body_def write_error_def write_json_def split: list.split)
  next
    case True
    then have v: "validate_rule (ae_fx env) ?r = []" by (simp add: validate_rule_def validate_kind_def)
    obtain x d' where i: "rule_insert ?r st = (x, d')" by (cases "rule_insert ?r st")
    show ?thesis
    proof (cases x)
      case (Inl err)
      with i have "same_tables st d'" using do_write_error [of "WRule ?r"] by simp
      then have "db_rules d' = db_rules st"
        unfolding same_tables_def by (metis db.select_convs(6) db.surjective db.update_convs(7))
      with Inl i True d show ?thesis
        by (simp add: handle_create_fault_rule_def Let_def storage_error_def write_error_def write_json_def)
    next
      case (Inr u)
      with i have "db_rules d' = db_rules st @ [rule_row_of ?r]"
        unfolding rule_insert_def by (auto elim!: statement_done simp: insert_row_done)
      with Inr i True d v show ?thesis
        by (intro disjI1 exI [of _ ?r]) (simp add: handle_create_fault_rule_def Let_def write_json_def)
    qed
  qed
qed

text \<open>Every origin in which \<open>localhost\<close> occurs may read the API from a browser, a name such as
  \<open>localhost.example.com\<close> included: its text is sent back as the allowed origin.\<close>

theorem cors_any_localhost:
  "map_of (an_headers (fst (serve_api env (r\<lparr>aq_origin := a @ ''localhost'' @ b\<rparr>) st)))
     ''Access-Control-Allow-Origin'' = Some (a @ ''localhost'' @ b)"
proof -
  have "is_local_origin (a @ ''localhost'' @ b)"
    using str_contains_append [of a "''localhost''" b] by (simp add: is_local_origin_def local_names_def)
  then show ?thesis by (auto simp: serve_api_def Let_def cors_headers_def split: prod.split)
qed


definition recording_db :: db where
  "recording_db = empty_db\<lparr>db_scens := [scenario_row_of sample_scenario]\<rparr>"

lemma recording_db_active:
  "\<exists>a. scenario_get_active_recording Some recording_db = (Inr (Some a), recording_db) \<and> sc_id a = ''scn_1'' \<and>
     event_list_by_scenario Some ''scn_1'' recording_db = (Inr [], recording_db)"
  by (simp add: scenario_get_active_recording_def scenario_select_def statement_def recording_db_def
      empty_db_def select_one_def scenario_row_of_def sample_scenario_def scan_scenario_def
      event_list_by_scenario_def)


text \<open>While a recording is stored and the database answers, a start is refused: the answer is
  409 and nothing changes, so the API never has two recordings.\<close>

theorem start_while_recording:
  assumes "db_fail st = []" and "\<exists>r \<in> set (db_scens st). scr_status r = ''recording''"
    and "decode_body dec_start_body body zero_start_body = (True, b)" and "sb_name b \<noteq> []"
  shows "an_status (fst (handle_start_recording env body st)) = 409 \<and> snd (handle_start_recording env body st) = st"
proof -
  obtain row where "select_one (\<lambda>r. scr_status r = ''recording'') (db_scens st) = Some row"
    using assms(2) by (cases "select_one (\<lambda>r. scr_status r = ''recording'') (db_scens st)")
      (auto simp: select_one_def find_None_iff)
  then have "scenario_get_active_recording (ae_ft env) st = (Inr (Some (scan_scenario (ae_ft env) row)), st)"
    using assms(1) by (simp add: scenario_get_active_recording_def scenario_select_def statement_def)
  with assms(3,4) show ?thesis
    by (simp add: handle_start_recording_def start_named_def or_none_def write_error_def write_json_def)
qed

definition start_text :: string where
  "start_text = ''{'' @ json_quote ''name'' @ '':'' @ json_quote ''run'' @ ''}''"

lemma start_while_recording_witness:
  "an_status (fst (handle_start_recording sample_env start_text recording_db)) = 409"
proof -
  have "decode_body dec_start_body start_text zero_start_body =
      (True, \<lparr>sb_name = ''run'', sb_description = [], sb_tags = None\<rparr>)"
    by code_simp
  from start_while_recording [OF _ _ this, of recording_db sample_env] show ?thesis
    by (simp add: recording_db_def empty_db_def scenario_row_of_def sample_scenario_def)
qed

end
