(* ===== verification/Ids.thy ===== *)
theory Ids
  imports Prelude
begin

section \<open>Identifiers (\<open>internal/id\<close>)\<close>

text \<open>
  An identifier is a kind and a ULID. The ULID itself comes from a third-party package, the clock
  and a random source, so its text is the argument of each function.
\<close>

definition new_with_prefix :: "string \<Rightarrow> string \<Rightarrow> string" where
  "new_with_prefix p ulid = p @ ''_'' @ ulid"

definition event_id :: "string \<Rightarrow> string" where
  "event_id ulid = new_with_prefix ''evt'' ulid"

definition run_id :: "string \<Rightarrow> string" where
  "run_id ulid = new_with_prefix ''run'' ulid"

definition scenario_id :: "string \<Rightarrow> string" where
  "scenario_id ulid = new_with_prefix ''scn'' ulid"

definition replay_run_id :: "string \<Rightarrow> string" where
  "replay_run_id ulid = new_with_prefix ''rpr'' ulid"

definition fault_rule_id :: "string \<Rightarrow> string" where
  "fault_rule_id ulid = new_with_prefix ''flt'' ulid"

definition config_snapshot_id :: "string \<Rightarrow> string" where
  "config_snapshot_id ulid = new_with_prefix ''cfg'' ulid"

definition correlation_id :: "string \<Rightarrow> string" where
  "correlation_id ulid = new_with_prefix ''cor'' ulid"

lemmas id_defs = new_with_prefix_def event_id_def run_id_def scenario_id_def replay_run_id_def
  fault_rule_id_def config_snapshot_id_def correlation_id_def

lemma id_nonempty [simp]: "new_with_prefix p u \<noteq> []"
  by (simp add: new_with_prefix_def)

text \<open>Identifiers of two kinds are never equal, whatever the ULIDs, and one kind keeps ULIDs apart.\<close>

lemma ids_kinds_apart:
  "distinct [event_id a, run_id b, scenario_id c, replay_run_id d, fault_rule_id e,
     config_snapshot_id f, correlation_id g]"
  by (simp add: id_defs)

lemma id_injective: "new_with_prefix p u = new_with_prefix p v \<Longrightarrow> u = v"
  by (simp add: new_with_prefix_def)

end
