(* ===== verification/DbOpen.thy ===== *)
theory DbOpen
  imports Storage
begin

section \<open>Opening the database (\<open>internal/storage/db.go\<close>)\<close>

text \<open>
  \<open>Open\<close>, \<open>migrate\<close> and \<open>Close\<close>: the statements of \<open>migrations\<close> in their order, run one after the
  other until one fails. What a statement does to the file is SQLite's: an argument \<open>ex\<close> of
  \<open>migrate_db\<close>, and \<open>run_ddl\<close> for a database that does not fail, where \<open>IF NOT EXISTS\<close> leaves an
  existing table or index as it is and an index needs its table. The columns of the tables are the
  row types of \<open>Storage\<close>, their constraints its \<open>db_ok\<close>.
\<close>

datatype db_table =
    ConfigSnapshotsTable
  | ScenariosTable
  | ReplayRunsTable
  | EventsTable
  | ServicesTable
  | AdapterStatusTable
  | FaultRulesTable

datatype index_column = Plain string | Asc string | Desc string

datatype migration =
    CreateTable db_table
  | CreateIndex string db_table "index_column list"

definition migrations :: "migration list" where
  "migrations =
     [CreateTable ConfigSnapshotsTable, CreateTable ScenariosTable, CreateTable ReplayRunsTable,
      CreateTable EventsTable, CreateTable ServicesTable, CreateTable AdapterStatusTable,
      CreateTable FaultRulesTable,
      CreateIndex ''idx_events_timestamp'' EventsTable [Desc ''timestamp_ms''],
      CreateIndex ''idx_events_scenario_timestamp'' EventsTable [Plain ''scenario_id'', Asc ''timestamp_ms''],
      CreateIndex ''idx_events_replay_run_timestamp'' EventsTable [Plain ''replay_run_id'', Asc ''timestamp_ms''],
      CreateIndex ''idx_events_correlation_timestamp'' EventsTable [Plain ''correlation_id'', Asc ''timestamp_ms''],
      CreateIndex ''idx_events_source_timestamp'' EventsTable [Plain ''source'', Desc ''timestamp_ms''],
      CreateIndex ''idx_events_service_timestamp'' EventsTable [Plain ''service'', Desc ''timestamp_ms''],
      CreateIndex ''idx_events_action_timestamp'' EventsTable [Plain ''action'', Desc ''timestamp_ms''],
      CreateIndex ''idx_events_status_timestamp'' EventsTable [Plain ''status'', Desc ''timestamp_ms''],
      CreateIndex ''idx_events_parent'' EventsTable [Plain ''parent_event_id''],
      CreateIndex ''idx_scenarios_status_started'' ScenariosTable [Plain ''status'', Desc ''started_at_ms''],
      CreateIndex ''idx_replay_runs_scenario_started'' ReplayRunsTable [Plain ''scenario_id'', Desc ''started_at_ms''],
      CreateIndex ''idx_fault_rules_enabled_kind'' FaultRulesTable [Plain ''enabled'', Plain ''kind''],
      CreateIndex ''idx_adapter_status_status'' AdapterStatusTable [Plain ''status'']]"

fun migrate_from :: "(migration \<Rightarrow> 's \<Rightarrow> string option \<times> 's) \<Rightarrow> nat \<Rightarrow> migration list \<Rightarrow> 's \<Rightarrow> string option \<times> 's" where
  "migrate_from ex i [] s = (None, s)"
| "migrate_from ex i (m # ms) s =
     (case ex m s of
        (Some err, s') \<Rightarrow> (Some (''migration '' @ dec_int (int i) @ '': '' @ err), s')
      | (None, s') \<Rightarrow> migrate_from ex (Suc i) ms s')"

definition migrate_db :: "(migration \<Rightarrow> 's \<Rightarrow> string option \<times> 's) \<Rightarrow> 's \<Rightarrow> string option \<times> 's" where
  "migrate_db ex s = migrate_from ex 0 migrations s"

text \<open>The handle of \<open>database/sql\<close>; a call of \<open>Open\<close> that fails later closes it.\<close>

datatype db_handle = NoHandle | OpenHandle | ClosedHandle

definition db_open :: "(migration \<Rightarrow> 's \<Rightarrow> string option \<times> 's) \<Rightarrow> string option \<times> string option \<Rightarrow> string \<Rightarrow> 's \<Rightarrow>
    (string + unit) \<times> db_handle \<times> 's" where
  "db_open ex oc path s =
     (case fst oc of
        Some err \<Rightarrow> (Inl (''storage: open '' @ path @ '': '' @ err), NoHandle, s)
      | None \<Rightarrow>
          (case snd oc of
             Some err \<Rightarrow> (Inl (''storage: ping '' @ path @ '': '' @ err), ClosedHandle, s)
           | None \<Rightarrow>
               (case migrate_db ex s of
                  (Some err, s') \<Rightarrow> (Inl (''storage: migrate: '' @ err), ClosedHandle, s')
                | (None, s') \<Rightarrow> (Inr (), OpenHandle, s'))))"

definition db_close :: "db_handle \<Rightarrow> db_handle" where
  "db_close h = (case h of NoHandle \<Rightarrow> NoHandle | _ \<Rightarrow> ClosedHandle)"

lemma db_open_handle: "fst (snd (db_open ex oc path s)) = OpenHandle \<longleftrightarrow> fst (db_open ex oc path s) = Inr ()"
  by (auto simp: db_open_def split: option.split prod.split)

subsection \<open>The catalog of the file\<close>

record catalog =
  ct_tables :: "db_table list"
  ct_indexes :: "(string \<times> db_table) list"

definition put_new :: "'a \<Rightarrow> 'a list \<Rightarrow> 'a list" where
  "put_new x xs = (if x \<in> set xs then xs else xs @ [x])"

fun run_ddl :: "migration \<Rightarrow> catalog \<Rightarrow> string option \<times> catalog" where
  "run_ddl (CreateTable t) c = (None, c\<lparr>ct_tables := put_new t (ct_tables c)\<rparr>)"
| "run_ddl (CreateIndex n t cols) c =
     (if n \<in> fst ` set (ct_indexes c) then (None, c)
      else if t \<in> set (ct_tables c) then (None, c\<lparr>ct_indexes := ct_indexes c @ [(n, t)]\<rparr>)
      else (Some ''no such table'', c))"

fun migrated :: "catalog \<Rightarrow> migration \<Rightarrow> bool" where
  "migrated c (CreateTable t) = (t \<in> set (ct_tables c))"
| "migrated c (CreateIndex n t cols) = (n \<in> fst ` set (ct_indexes c))"

text \<open>The tables come first in \<open>migrations\<close>, so no index of it meets a missing table.\<close>

fun tables_first :: "db_table list \<Rightarrow> migration list \<Rightarrow> bool" where
  "tables_first ts [] = True"
| "tables_first ts (CreateTable t # ms) = tables_first (t # ts) ms"
| "tables_first ts (CreateIndex n t cols # ms) = (t \<in> set ts \<and> tables_first ts ms)"

lemma migrations_tables_first: "tables_first [] migrations"
  by (simp add: migrations_def)

lemma run_ddl_keeps: "migrated c m \<Longrightarrow> migrated (snd (run_ddl m' c)) m"
  by (cases m; cases m') (auto simp: put_new_def)

lemma run_ddl_migrated: "fst (run_ddl m c) = None \<Longrightarrow> migrated (snd (run_ddl m c)) m"
  by (cases m) (auto simp: put_new_def split: if_splits)

lemma run_ddl_again: "migrated c m \<Longrightarrow> run_ddl m c = (None, c)"
  by (cases m) (auto simp: put_new_def)

lemma migrate_from_keeps: "migrated c m \<Longrightarrow> migrated (snd (migrate_from run_ddl i ms c)) m"
proof (induction ms arbitrary: i c)
  case (Cons m' ms)
  from run_ddl_keeps [OF Cons.prems, of m'] Cons.IH show ?case
    by (auto split: prod.split option.split)
qed simp

lemma migrate_from_done:
  "tables_first ts ms \<Longrightarrow> set ts \<subseteq> set (ct_tables c) \<Longrightarrow>
   fst (migrate_from run_ddl i ms c) = None \<and> list_all (migrated (snd (migrate_from run_ddl i ms c))) ms"
proof (induction ms arbitrary: ts i c)
  case (Cons m ms)
  obtain ts' where ts': "tables_first ts' ms" "set ts' \<subseteq> set (ct_tables (snd (run_ddl m c)))"
    and ok: "fst (run_ddl m c) = None"
  proof (cases m)
    case (CreateTable t)
    with Cons.prems show ?thesis by (intro that [of "t # ts"]) (auto simp: put_new_def)
  next
    case (CreateIndex n t cols)
    with Cons.prems show ?thesis by (intro that [of ts]) auto
  qed
  obtain c' where c': "run_ddl m c = (None, c')" using ok by (cases "run_ddl m c") simp
  with run_ddl_migrated [OF ok] have "migrated c' m" by simp
  with Cons.IH [OF ts', of "Suc i"] show ?case by (simp add: c' migrate_from_keeps)
qed simp

lemma migrate_from_again: "list_all (migrated c) ms \<Longrightarrow> migrate_from run_ddl i ms c = (None, c)"
  by (induction ms arbitrary: i) (simp_all add: run_ddl_again)

text \<open>When no statement meets an I/O error, opening works on a new and on an old file, leaves all
  tables and indexes behind, and opening it once more changes nothing.\<close>

lemma open_creates_schema:
  "db_open run_ddl (None, None) path c = (Inr (), OpenHandle, snd (migrate_db run_ddl c)) \<and>
   list_all (migrated (snd (migrate_db run_ddl c))) migrations \<and>
   migrate_db run_ddl (snd (migrate_db run_ddl c)) = (None, snd (migrate_db run_ddl c))"
proof -
  have d: "fst (migrate_db run_ddl c) = None" "list_all (migrated (snd (migrate_db run_ddl c))) migrations"
    using migrate_from_done [OF migrations_tables_first, of c 0] by (simp_all add: migrate_db_def)
  obtain c' where c': "migrate_db run_ddl c = (None, c')" using d(1) by (cases "migrate_db run_ddl c") simp
  with d(2) show ?thesis by (simp add: db_open_def migrate_from_again migrate_db_def [of _ c'])
qed

end
