(* ===== verification/Servers.thy ===== *)
theory Servers
  imports Prelude
begin

section \<open>The servers of the proxy and of the studio\<close>

text \<open>
  What \<open>proxy/proxy.go\<close> and \<open>api/server.go\<close> do around \<open>net/http\<close>'s \<open>Server\<close>: whether the server object
  exists, and whether it is serving. The outcomes of listening and of \<open>http.Server.Shutdown\<close> are
  arguments. A server object that was shut down serves no more; \<open>Serve\<close> of the studio makes a new one.
\<close>

subsection \<open>\<open>Proxy.Start\<close>, \<open>Addr\<close> and \<open>Stop\<close>\<close>

record proxy_server =
  pv_listen_addr :: string
  pv_actual_addr :: string
  pv_server :: bool
  pv_serving :: bool

definition proxy_start :: "string + string \<Rightarrow> proxy_server \<Rightarrow> (string + unit) \<times> proxy_server" where
  "proxy_start listened p =
     (let p1 = p\<lparr>pv_server := True\<rparr> in
      case listened of
        Inl err \<Rightarrow> (Inl (''proxy: listen '' @ pv_listen_addr p @ '': '' @ err), p1)
      | Inr addr \<Rightarrow> (Inr (), p1\<lparr>pv_actual_addr := addr, pv_serving := True\<rparr>))"

definition proxy_addr :: "proxy_server \<Rightarrow> string" where
  "proxy_addr p = pv_actual_addr p"

definition proxy_stop :: "string option \<Rightarrow> proxy_server \<Rightarrow> string option \<times> proxy_server" where
  "proxy_stop shutdown p = (if \<not> pv_server p then (None, p) else (shutdown, p\<lparr>pv_serving := False\<rparr>))"

text \<open>A stop after any start, also one that could not listen, leaves nothing serving.\<close>

lemma proxy_start_stop: "\<not> pv_serving p \<Longrightarrow> \<not> pv_serving (snd (proxy_stop sd (snd (proxy_start ln p))))"
  by (cases ln) (simp_all add: proxy_start_def proxy_stop_def)

subsection \<open>\<open>Server.Serve\<close> and \<open>Server.Shutdown\<close>\<close>

record studio_server =
  ss_server :: bool
  ss_serving :: bool

text \<open>\<open>Serve\<close> up to the call of \<open>http.Server.Serve\<close>, which blocks.\<close>

definition studio_serve :: "studio_server \<Rightarrow> studio_server" where
  "studio_serve s = s\<lparr>ss_server := True, ss_serving := True\<rparr>"

definition studio_listen_and_serve :: "string \<Rightarrow> string option \<Rightarrow> studio_server \<Rightarrow> string option \<times> studio_server" where
  "studio_listen_and_serve addr listen_error s =
     (case listen_error of
        Some err \<Rightarrow> (Some (''api: listen '' @ addr @ '': '' @ err), s)
      | None \<Rightarrow> (None, studio_serve s))"

definition studio_shutdown :: "string option \<Rightarrow> studio_server \<Rightarrow> string option \<times> studio_server" where
  "studio_shutdown res s = (if \<not> ss_server s then (None, s) else (res, s\<lparr>ss_serving := False\<rparr>))"

text \<open>
  The agent calls \<open>Serve\<close> in a goroutine, so that a \<open>Stop\<close> that comes quickly shuts down before the
  server object exists. Shutting down after \<open>Serve\<close> stops the studio; before it, it reports success
  and the studio serves on.
\<close>

lemma shutdown_after_serve: "\<not> ss_serving (snd (studio_shutdown res (studio_serve s)))"
  by (simp add: studio_serve_def studio_shutdown_def)

lemma shutdown_before_serve:
  "\<not> ss_server s \<Longrightarrow> fst (studio_shutdown res s) = None \<and> ss_serving (studio_serve (snd (studio_shutdown res s)))"
  by (simp add: studio_serve_def studio_shutdown_def)

end
