(* ===== verification/RedisAdapter.thy ===== *)
theory RedisAdapter
  imports Agent Redaction
begin

section \<open>The Redis adapter (\<open>internal/adapters/redis/adapter.go\<close>)\<close>

text \<open>
  The lines of \<open>MONITOR\<close> are the input; each comes with the time at which it is read and the
  identifier that \<open>id.Event()\<close> would give. \<open>parse_quoted_strings\<close> and \<open>parse_line\<close> read a line,
  \<open>is_relevant_command\<close> filters it, \<open>redis_event\<close> builds the event, and \<open>read_monitor\<close> is the loop
  over the lines up to the cancellation of the context or the end of the connection. The sink is
  an argument; its contract is the locale \<open>event_sink\<close>.
\<close>

record redis_adapter =
  ra_name :: string
  ra_run_id :: string
  ra_queues :: "string list"
  ra_redact_json_paths :: "string list"

record monitor_entry =
  me_timestamp :: instant
  me_command :: string
  me_args :: "string list"
  me_key :: string

subsection \<open>Quoted strings\<close>

text \<open>The text after an opening quote: the string and what follows its closing quote.\<close>

fun read_quoted :: "string \<Rightarrow> (string \<times> string) option" where
  "read_quoted [] = None"
| "read_quoted [c] = (if c = CHR 0x22 then Some ([], []) else None)"
| "read_quoted (c # d # s) =
     (if c = CHR 0x5C then map_option (apfst (Cons d)) (read_quoted s)
      else if c = CHR 0x22 then Some ([], d # s)
      else map_option (apfst (Cons c)) (read_quoted (d # s)))"

lemma read_quoted_length: "read_quoted s = Some (x, r) \<Longrightarrow> length r < length s"
  by (induction s arbitrary: x r rule: read_quoted.induct) (fastforce split: if_splits)+

function parse_quoted_strings :: "string \<Rightarrow> string list" where
  "parse_quoted_strings s =
     (case str_index s [CHR 0x22] of
        None \<Rightarrow> []
      | Some i \<Rightarrow>
          (case read_quoted (drop (i + 1) s) of
             None \<Rightarrow> []
           | Some (x, r) \<Rightarrow> x # parse_quoted_strings r))"
  by pat_completeness auto
termination
  by (relation "measure length") (auto dest!: read_quoted_length)

declare parse_quoted_strings.simps [simp del]

subsection \<open>Lines\<close>

definition parse_line :: "instant \<Rightarrow> string \<Rightarrow> monitor_entry option" where
  "parse_line now line =
     (if \<not> has_prefix line ''+'' then None
      else if str_index line '' '' = None then None
      else case str_index line ''] '' of
        None \<Rightarrow> None
      | Some b \<Rightarrow>
          (case parse_quoted_strings (drop (b + 2) line) of
             [] \<Rightarrow> None
           | cmd # args \<Rightarrow>
               Some \<lparr>me_timestamp = now, me_command = to_upper cmd, me_args = args,
                 me_key = (case args of [] \<Rightarrow> [] | k # _ \<Rightarrow> k)\<rparr>))"

definition relevant_commands :: "string list" where
  "relevant_commands = [''LPUSH'', ''RPUSH'', ''LPOP'', ''RPOP'', ''BRPOP'', ''BLPOP'']"

definition is_relevant_command :: "redis_adapter \<Rightarrow> monitor_entry \<Rightarrow> bool" where
  "is_relevant_command a e =
     (me_command e \<in> set relevant_commands \<and> me_key e \<in> set (ra_queues a))"

definition redact_field :: "(string \<times> json) list \<Rightarrow> string \<Rightarrow> (string \<times> json) list" where
  "redact_field m field = (if has_key m field then AList.update field (JStr redacted_marker) m else m)"

definition redact_payload :: "float_text \<Rightarrow> redis_adapter \<Rightarrow> string \<Rightarrow> string" where
  "redact_payload ft a raw =
     (if raw = [] \<or> ra_redact_json_paths a = [] then raw
      else case unmarshal (dec_map_any ft) raw None of
        (False, _) \<Rightarrow> raw
      | (True, None) \<Rightarrow> json_column enc_map_any None
      | (True, Some m) \<Rightarrow> json_column enc_map_any
          (Some (foldl (\<lambda>m path. redact_field m (trim_prefix path ''$.'')) m (ra_redact_json_paths a))))"

definition redis_event :: "float_text \<Rightarrow> redis_adapter \<Rightarrow> string \<Rightarrow> monitor_entry \<Rightarrow> timeline_event" where
  "redis_event ft a i e =
     (let push = (me_command e = ''LPUSH'' \<or> me_command e = ''RPUSH'');
          pop = (me_command e \<in> {''LPOP'', ''RPOP'', ''BRPOP'', ''BLPOP''});
          action = (if push then ''redis.enqueue'' else if pop then ''redis.dequeue'' else ''redis.command'');
          summary = (if push then ''enqueue to '' @ me_key e
                     else if pop then ''dequeue from '' @ me_key e
                     else me_command e @ '' '' @ me_key e);
          preview = (case me_args e of _ # v # _ \<Rightarrow> redact_payload ft a v | _ \<Rightarrow> [])
      in \<lparr>ev_id = i, ev_run_id = ra_run_id a, ev_scenario_id = None, ev_replay_run_id = None,
          ev_timestamp = me_timestamp e, ev_source = source_redis, ev_service = ra_name a,
          ev_action = action, ev_summary = summary, ev_status = ''ok'', ev_duration_ms = None,
          ev_correlation_id = None, ev_parent_event_id = None, ev_request = None, ev_response = None,
          ev_metadata = Some [(''command'', JStr (me_command e)), (''key'', JStr (me_key e))],
          ev_raw_payload = Some \<lparr>raw_content_type = ''application/json'', raw_encoding = ''utf-8'',
            raw_preview = preview, raw_sha256 = [], raw_redacted = (ra_redact_json_paths a \<noteq> [])\<rparr>,
          ev_faults = None\<rparr>)"

subsection \<open>\<open>readMonitor\<close>\<close>

type_synonym monitor_line = "instant \<times> string \<times> string"

definition monitor_event :: "float_text \<Rightarrow> redis_adapter \<Rightarrow> monitor_line \<Rightarrow> timeline_event option" where
  "monitor_event ft a inp =
     (case inp of (now, i, line) \<Rightarrow>
        (if line = ''+OK'' then None
         else case parse_line now line of
           None \<Rightarrow> None
         | Some e \<Rightarrow> if is_relevant_command a e then Some (redis_event ft a i e) else None))"

text \<open>The state of the loop: the world of the sink and \<open>eventCount\<close>.\<close>

fun read_monitor ::
    "(timeline_event \<Rightarrow> 's \<Rightarrow> ('e + unit) \<times> 's) \<Rightarrow> float_text \<Rightarrow> redis_adapter \<Rightarrow> monitor_line list \<Rightarrow>
     's \<times> nat \<Rightarrow> 's \<times> nat" where
  "read_monitor em ft a [] st = st"
| "read_monitor em ft a (inp # inps) (s, n) =
     (case monitor_event ft a inp of
        None \<Rightarrow> read_monitor em ft a inps (s, n)
      | Some e \<Rightarrow>
          (case em e s of
             (Inl err, s') \<Rightarrow> read_monitor em ft a inps (s', n)
           | (Inr _, s') \<Rightarrow> read_monitor em ft a inps (s', n + 1)))"

subsection \<open>Reading what Redis prints\<close>

text \<open>
  Redis writes an argument between quotes with a backslash before a quote or a backslash; bytes
  it would write as \<open>\n\<close> or \<open>\xHH\<close> are left out here, the parser does not read them back.
\<close>

definition monitor_escape :: "string \<Rightarrow> string" where
  "monitor_escape s = concat (map (\<lambda>c. if c = CHR 0x22 \<or> c = CHR 0x5C then [CHR 0x5C, c] else [c]) s)"

definition monitor_quote :: "string \<Rightarrow> string" where
  "monitor_quote s = [CHR 0x22] @ monitor_escape s @ [CHR 0x22]"

lemma read_quoted_plain: "c \<noteq> CHR 0x5C \<Longrightarrow> c \<noteq> CHR 0x22 \<Longrightarrow>
    read_quoted (c # s) = map_option (apfst (Cons c)) (read_quoted s)"
  by (cases s) simp_all

lemma read_quoted_close: "read_quoted (CHR 0x22 # s) = Some ([], s)"
  by (cases s) simp_all

lemma read_quoted_escape: "read_quoted (monitor_escape s @ CHR 0x22 # r) = Some (s, r)"
  by (induction s) (auto simp: monitor_escape_def read_quoted_close read_quoted_plain)

lemma str_index_char_None: "c \<notin> set s \<Longrightarrow> str_index s [c] = None"
  by (induction s) (auto simp: has_prefix_def)

lemma str_index_char: "c \<notin> set p \<Longrightarrow> str_index (p @ c # s) [c] = Some (length p)"
  by (induction p) (auto simp: has_prefix_def)

lemma parse_quoted_next:
  "CHR 0x22 \<notin> set p \<Longrightarrow> parse_quoted_strings (p @ monitor_quote x @ r) = x # parse_quoted_strings r"
  by (subst parse_quoted_strings.simps)
     (simp add: monitor_quote_def str_index_char read_quoted_escape)

lemma parse_quoted_none: "CHR 0x22 \<notin> set s \<Longrightarrow> parse_quoted_strings s = []"
  by (subst parse_quoted_strings.simps) (simp add: str_index_char_None)

lemma parse_quoted_join: "parse_quoted_strings (join '' '' (map monitor_quote xs)) = xs"
proof (induction xs)
  case Nil
  show ?case by (simp add: parse_quoted_none)
next
  case (Cons x xs)
  show ?case
  proof (cases xs)
    case Nil
    then show ?thesis using parse_quoted_next [of "[]" x "[]"] by (simp add: parse_quoted_none)
  next
    case (Cons y ys)
    have "parse_quoted_strings ('' '' @ join '' '' (map monitor_quote xs)) = xs"
    proof -
      obtain r where r: "join '' '' (map monitor_quote xs) = monitor_quote y @ r"
        by (cases ys) (auto simp: Cons)
      have "parse_quoted_strings ('' '' @ monitor_quote y @ r) = y # parse_quoted_strings r"
        by (rule parse_quoted_next) simp
      moreover have "parse_quoted_strings ([] @ monitor_quote y @ r) = y # parse_quoted_strings r"
        by (rule parse_quoted_next) simp
      ultimately show ?thesis using Cons.IH r by simp
    qed
    then show ?thesis
      using parse_quoted_next [of "[]" x "'' '' @ join '' '' (map monitor_quote xs)"]
      by (simp add: join_Cons Cons)
  qed
qed

subsection \<open>What is emitted\<close>

lemma to_upper_nonempty: "to_upper s = [] \<longleftrightarrow> s = []"
  by (simp add: to_upper_def)

lemma monitor_event_Some:
  assumes "monitor_event ft a (now, i, line) = Some e"
  obtains m where "parse_line now line = Some m" "is_relevant_command a m" "e = redis_event ft a i m"
  using assms by (auto simp: monitor_event_def split: if_splits option.splits)

lemma redis_event_simps [simp]:
  "ev_id (redis_event ft a i m) = i" "ev_run_id (redis_event ft a i m) = ra_run_id a"
  "ev_timestamp (redis_event ft a i m) = me_timestamp m" "ev_service (redis_event ft a i m) = ra_name a"
  "ev_source (redis_event ft a i m) = ''redis''" "ev_status (redis_event ft a i m) = ''ok''"
  "ev_action (redis_event ft a i m) \<noteq> []" "ev_summary (redis_event ft a i m) \<noteq> []"
  by (simp_all add: redis_event_def Let_def source_redis_def)

lemma redis_event_valid:
  "i \<noteq> [] \<Longrightarrow> ra_run_id a \<noteq> [] \<Longrightarrow> ra_name a \<noteq> [] \<Longrightarrow> \<not> is_zero_time (me_timestamp m) \<Longrightarrow>
   event_validate (redis_event ft a i m) = []"
  by (simp add: event_validate_ok is_valid_status_def event_statuses_def)

lemma parse_line_timestamp: "parse_line now line = Some m \<Longrightarrow> me_timestamp m = now"
  by (auto simp: parse_line_def split: if_splits option.splits list.splits)

text \<open>The adapter's counter counts the events that it added to the sink.\<close>

context timeline_sink
begin

lemma read_monitor_count:
  assumes fin: "finite {k. stored s k}"
  shows "card {k. stored (fst (read_monitor em ft a inps (s, n))) k} - card {k. stored s k} =
      snd (read_monitor em ft a inps (s, n)) - n \<and>
    card {k. stored s k} \<le> card {k. stored (fst (read_monitor em ft a inps (s, n))) k} \<and>
    n \<le> snd (read_monitor em ft a inps (s, n))"
  using fin
proof (induction inps arbitrary: s n)
  case (Cons inp inps)
  show ?case
  proof (cases "monitor_event ft a inp")
    case (Some e)
    show ?thesis
    proof (cases "em e s")
      case (Pair r s')
      show ?thesis
      proof (cases r)
        case (Inl err)
        then have "{k. stored s' k} = {k. stored s k}"
          using emit_error_stored Pair by metis
        then show ?thesis using Cons.IH [of s' n] Cons.prems Some Pair Inl by simp
      next
        case (Inr u)
        then have "finite {k. stored s' k} \<and> card {k. stored s' k} = card {k. stored s k} + 1"
          using emitted_count [OF _ Cons.prems] Pair by simp
        then show ?thesis using Cons.IH [of s' "n + 1"] Some Pair Inr by auto
      qed
    qed
  qed (use Cons in simp)
qed simp

end

subsection \<open>Properties\<close>


text \<open>What the Redis adapter emits is a valid event for one of the configured queues, so that
  the sink can only refuse it when the database does.\<close>

theorem redis_event_accepted:
  assumes "monitor_event ft a (now, i, line) = Some e"
    and "i \<noteq> []" "ra_run_id a \<noteq> []" "ra_name a \<noteq> []" "\<not> is_zero_time now"
  shows "event_validate e = [] \<and> (\<exists>q \<in> set (ra_queues a). map_of (entries (ev_metadata e)) ''key'' = Some (JStr q))"
proof -
  from assms(1) obtain m where m: "parse_line now line = Some m" "is_relevant_command a m"
    "e = redis_event ft a i m" by (rule monitor_event_Some)
  with assms redis_event_valid [of i a m ft] parse_line_timestamp [OF m(1)] show ?thesis
    by (auto simp: is_relevant_command_def) (simp add: redis_event_def Let_def)
qed

definition sample_redis :: redis_adapter where
  "sample_redis = \<lparr>ra_name = ''redis'', ra_run_id = ''run_1'', ra_queues = [''jobs''],
     ra_redact_json_paths = [''$.token'']\<rparr>"

definition sample_line :: string where
  "sample_line = ''+1 [0 h] '' @ join '' '' (map monitor_quote [''lpush'', ''jobs'', ''x''])"

lemma sample_line_parses: "parse_line 1 sample_line =
    Some \<lparr>me_timestamp = 1, me_command = ''LPUSH'', me_args = [''jobs'', ''x''], me_key = ''jobs''\<rparr>"
  by code_simp

lemma sample_line_event: "monitor_event Some sample_redis (1, ''evt_1'', sample_line) =
    Some (redis_event Some sample_redis ''evt_1''
      \<lparr>me_timestamp = 1, me_command = ''LPUSH'', me_args = [''jobs'', ''x''], me_key = ''jobs''\<rparr>)"
proof -
  have "sample_line \<noteq> ''+OK''" by (simp add: sample_line_def)
  then show ?thesis
    by (simp add: monitor_event_def sample_line_parses is_relevant_command_def relevant_commands_def
        sample_redis_def)
qed

lemma redis_event_accepted_witness:
  "\<exists>e. monitor_event Some sample_redis (1, ''evt_1'', sample_line) = Some e \<and> event_validate e = []"
  using redis_event_accepted [OF sample_line_event] sample_line_event
  by (simp add: sample_redis_def is_zero_time_def zero_time_def)

text \<open>The adapter's event counter is exact: over any lines, and whichever inserts fail, it grows
  by the number of events that the agent's sink has added to the database.\<close>

theorem redis_counter_exact:
  "card {k. event_stored (fst (read_monitor (emit run b active now) ft a inps (st, n))) k} + n =
   card {k. event_stored st k} + snd (read_monitor (emit run b active now) ft a inps (st, n))"
proof -
  have "{k. event_stored st k} = set (map evr_id (db_events (fst st)))"
    by (auto simp: event_stored_def in_table_def)
  then have "finite {k. event_stored st k}" by simp
  from adapter_sink.read_monitor_count [OF this, of run b active now ft a inps n] show ?thesis
    by linarith
qed

text \<open>A payload that is not a JSON object is stored as it is, yet the event says that its payload
  was redacted whenever redaction paths are configured.\<close>

theorem redis_unredacted_marked_redacted:
  assumes "me_args m = k # v # rest" and "fst (unmarshal (dec_map_any ft) v None) = False"
    and "ra_redact_json_paths a \<noteq> []"
  shows "\<exists>p. ev_raw_payload (redis_event ft a i m) = Some p \<and> raw_preview p = v \<and> raw_redacted p"
  using assms by (cases "unmarshal (dec_map_any ft) v None")
    (simp add: redis_event_def Let_def redact_payload_def)

lemma redis_unredacted_marked_redacted_witness:
  "\<exists>p. ev_raw_payload (redis_event Some sample_redis ''evt_1''
      \<lparr>me_timestamp = 1, me_command = ''LPUSH'', me_args = [''jobs'', ''token=x''], me_key = ''jobs''\<rparr>) = Some p \<and>
    raw_preview p = ''token=x'' \<and> raw_redacted p"
proof (rule redis_unredacted_marked_redacted)
  show "fst (unmarshal (dec_map_any Some) ''token=x'' None) = False" by code_simp
qed (simp_all add: sample_redis_def)

end
