(* ===== verification/PostgresAdapter.thy ===== *)
theory PostgresAdapter
  imports Agent Redaction
begin

section \<open>The Postgres adapter (\<open>internal/adapters/postgres/adapter.go\<close>)\<close>

text \<open>
  The audit table that the adapter creates in the user's database is a list of rows; the triggers
  append to it, \<open>process_audit_rows\<close> is one tick of the poll. Whether the query and the update
  succeed are arguments (\<open>qok\<close>, \<open>uok\<close>), and \<open>ids\<close> gives the event identifier generated for an
  audit row in this tick. The SQL that creates the table and the triggers is not modelled.
\<close>

record pg_adapter =
  pa_name :: string
  pa_run_id :: string
  pa_redact_columns :: "string list"

record audit_row =
  au_id :: int
  au_table :: string
  au_operation :: string
  au_row_data :: "string option"
  au_captured_at :: instant
  au_processed :: bool

subsection \<open>\<open>redactRowData\<close>\<close>

definition column_of :: "string \<Rightarrow> string \<times> string" where
  "column_of col =
     (case split_n2 col ''.'' of
        [t, c] \<Rightarrow> (t, c)
      | c # _ \<Rightarrow> ([], c)
      | [] \<Rightarrow> ([], []))"

definition redact_column :: "string \<Rightarrow> (string \<times> json) list \<Rightarrow> string \<Rightarrow> (string \<times> json) list" where
  "redact_column table_name m col =
     (case column_of col of (table, column) \<Rightarrow>
        (if table \<noteq> [] \<and> table \<noteq> table_name then m
         else if has_key m column then AList.update column (JStr redacted_marker) m
         else m))"

definition redact_row_data :: "float_text \<Rightarrow> string list \<Rightarrow> string \<Rightarrow> string \<Rightarrow> string" where
  "redact_row_data ft cols raw table_name =
     (if raw = [] then []
      else case unmarshal (dec_map_any ft) raw None of
        (False, _) \<Rightarrow> raw
      | (True, None) \<Rightarrow> json_column enc_map_any None
      | (True, Some m) \<Rightarrow>
          json_column enc_map_any (Some (foldl (redact_column table_name) m cols)))"

subsection \<open>\<open>processAuditRows\<close>\<close>

definition pg_event :: "float_text \<Rightarrow> pg_adapter \<Rightarrow> string \<Rightarrow> audit_row \<Rightarrow> timeline_event" where
  "pg_event ft a i r =
     \<lparr>ev_id = i, ev_run_id = pa_run_id a, ev_scenario_id = None, ev_replay_run_id = None,
      ev_timestamp = au_captured_at r, ev_source = source_postgres, ev_service = pa_name a,
      ev_action = (if au_operation r = ''UPDATE'' then ''postgres.update''
                   else if au_operation r = ''DELETE'' then ''postgres.delete''
                   else ''postgres.insert''),
      ev_summary = au_operation r @ '' on '' @ au_table r, ev_status = ''ok'', ev_duration_ms = None,
      ev_correlation_id = None, ev_parent_event_id = None, ev_request = None, ev_response = None,
      ev_metadata = Some [(''operation'', JStr (au_operation r)), (''table'', JStr (au_table r))],
      ev_raw_payload = Some \<lparr>raw_content_type = ''application/json'', raw_encoding = ''utf-8'',
        raw_preview = redact_row_data ft (pa_redact_columns a)
          (case au_row_data r of None \<Rightarrow> [] | Some s \<Rightarrow> s) (au_table r),
        raw_sha256 = [], raw_redacted = (pa_redact_columns a \<noteq> [])\<rparr>,
      ev_faults = None\<rparr>"

text \<open>The loop over the rows: the sink, \<open>eventCount\<close> and the processed identifiers.\<close>

fun emit_rows ::
    "(timeline_event \<Rightarrow> 's \<Rightarrow> ('e + unit) \<times> 's) \<Rightarrow> (audit_row \<Rightarrow> timeline_event) \<Rightarrow> audit_row list \<Rightarrow>
     's \<times> nat \<times> int list \<Rightarrow> 's \<times> nat \<times> int list" where
  "emit_rows em ev [] st = st"
| "emit_rows em ev (r # rs) (s, n, done_ids) =
     (case em (ev r) s of
        (Inl err, s') \<Rightarrow> emit_rows em ev rs (s', n, done_ids)
      | (Inr _, s') \<Rightarrow> emit_rows em ev rs (s', n + 1, done_ids @ [au_id r]))"

definition pending_rows :: "audit_row list \<Rightarrow> audit_row list" where
  "pending_rows tbl = take 100 (sort_key au_id (filter (\<lambda>r. \<not> au_processed r) tbl))"

definition mark_processed :: "int list \<Rightarrow> audit_row list \<Rightarrow> audit_row list" where
  "mark_processed done_ids tbl =
     map (\<lambda>r. if au_id r \<in> set done_ids then r\<lparr>au_processed := True\<rparr> else r) tbl"

definition process_audit_rows ::
    "(timeline_event \<Rightarrow> 's \<Rightarrow> ('e + unit) \<times> 's) \<Rightarrow> float_text \<Rightarrow> pg_adapter \<Rightarrow> (int \<Rightarrow> string) \<Rightarrow>
     bool \<Rightarrow> bool \<Rightarrow> audit_row list \<times> 's \<times> nat \<Rightarrow> audit_row list \<times> 's \<times> nat" where
  "process_audit_rows em ft a ids qok uok st =
     (case st of (tbl, s, n) \<Rightarrow>
        (if \<not> qok then st
         else case emit_rows em (\<lambda>r. pg_event ft a (ids (au_id r)) r) (pending_rows tbl) (s, n, []) of
           (s', n', done_ids) \<Rightarrow>
             (if done_ids \<noteq> [] \<and> uok then mark_processed done_ids tbl else tbl, s', n')))"

subsection \<open>No row is lost\<close>

lemma process_audit_rows_failed: "process_audit_rows em ft a ids False uok st = st"
  by (cases st) (simp add: process_audit_rows_def)

lemma pg_event_id [simp]: "ev_id (pg_event ft a i r) = i"
  by (simp add: pg_event_def)

context timeline_sink
begin

lemma emit_rows_stored:
  assumes "emit_rows em ev rs (s, n, ids0) = (s', n', ids')"
  shows "(\<exists>new. ids' = ids0 @ new \<and> n' = n + length new \<and> set new \<subseteq> au_id ` set rs \<and>
      (\<forall>k \<in> set new. \<exists>r \<in> set rs. au_id r = k \<and> stored s' (ev_id (ev r)))) \<and>
    (\<forall>k. stored s k \<longrightarrow> stored s' k)"
  using assms
proof (induction rs arbitrary: s n ids0)
  case (Cons r rs)
  obtain x s1 where em: "em (ev r) s = (x, s1)" by (cases "em (ev r) s")
  have keep: "stored s k \<Longrightarrow> stored s1 k" for k using em_keeps [OF em] .
  show ?case
  proof (cases x)
    case (Inl err)
    with Cons.prems em have "emit_rows em ev rs (s1, n, ids0) = (s', n', ids')" by simp
    from Cons.IH [OF this] keep show ?thesis by (auto 0 4)
  next
    case (Inr u)
    with Cons.prems em have e: "emit_rows em ev rs (s1, n + 1, ids0 @ [au_id r]) = (s', n', ids')"
      by simp
    have "stored s1 (ev_id (ev r))" using em_done [of "ev r" s s1] em Inr by simp
    with Cons.IH [OF e] have st: "stored s' (ev_id (ev r))" by blast
    from Cons.IH [OF e] obtain new where new: "ids' = (ids0 @ [au_id r]) @ new" "n' = n + 1 + length new"
      "set new \<subseteq> au_id ` set rs" "\<forall>k \<in> set new. \<exists>r \<in> set rs. au_id r = k \<and> stored s' (ev_id (ev r))"
      and k': "\<forall>k. stored s1 k \<longrightarrow> stored s' k" by blast
    show ?thesis
    proof (intro conjI exI [of _ "au_id r # new"])
      show "\<forall>k \<in> set (au_id r # new). \<exists>x \<in> set (r # rs). au_id x = k \<and> stored s' (ev_id (ev x))"
        using new(4) st by auto
    qed (use new keep k' in auto)
  qed
qed simp

lemma process_rows_stored:
  assumes p: "process_audit_rows em ft a ids qok uok (tbl, s, n) = (tbl', s', n')"
    and r: "r \<in> set tbl'" "au_processed r"
  shows "(\<exists>r0 \<in> set tbl. au_id r0 = au_id r \<and> au_processed r0) \<or> stored s' (ids (au_id r))"
proof (cases "tbl' = tbl")
  case False
  then obtain done_ids where e: "emit_rows em (\<lambda>r. pg_event ft a (ids (au_id r)) r) (pending_rows tbl) (s, n, [])
      = (s', n', done_ids)" and t: "tbl' = mark_processed done_ids tbl"
    using p by (auto simp: process_audit_rows_def split: if_splits prod.splits)
  from r(1) t obtain r0 where r0: "r0 \<in> set tbl"
    "r = (if au_id r0 \<in> set done_ids then r0\<lparr>au_processed := True\<rparr> else r0)"
    by (auto simp: mark_processed_def)
  then have i: "au_id r = au_id r0" by simp
  show ?thesis
  proof (cases "au_id r0 \<in> set done_ids")
    case True
    with emit_rows_stored [OF e] have "stored s' (ids (au_id r0))" by auto
    then show ?thesis by (simp add: i)
  qed (use r0 r in auto)
qed (use r in auto)

lemma process_rows_keep:
  "stored (fst (snd st)) k \<Longrightarrow> stored (fst (snd (process_audit_rows em ft a ids qok uok st))) k"
  using emit_rows_stored by (cases st) (fastforce simp: process_audit_rows_def split: prod.split)

end

lemma redact_columns_mark:
  "foldl (redact_column t) m cols =
     foldl mark_field m (map snd (filter (\<lambda>(table, c). table = [] \<or> table = t) (map column_of cols)))"
proof (induction cols arbitrary: m)
  case (Cons col cols)
  have "redact_column t m col = (if fst (column_of col) = [] \<or> fst (column_of col) = t
      then mark_field m (snd (column_of col)) else m)"
    by (simp add: redact_column_def mark_field_def case_prod_unfold)
  then show ?case by (simp add: Cons.IH case_prod_unfold)
qed simp

lemma column_applies:
  "k \<in> set (map snd (filter (\<lambda>(table, c). table = [] \<or> table = t) (map column_of cols))) \<longleftrightarrow>
   list_ex (\<lambda>col. fst (column_of col) \<in> {[], t} \<and> snd (column_of col) = k) cols"
  by (induction cols) (auto simp: case_prod_unfold)

subsection \<open>Properties\<close>

definition sample_pg :: pg_adapter where
  "sample_pg = \<lparr>pa_name = ''db'', pa_run_id = ''run_1'', pa_redact_columns = [''users.email'']\<rparr>"

definition sample_audit :: audit_row where
  "sample_audit = \<lparr>au_id = 1, au_table = ''users'', au_operation = ''INSERT'', au_row_data = None,
     au_captured_at = 1, au_processed = False\<rparr>"

lemma sample_audit_emit:
  "emit deliver new_bus [] 0 (pg_event Some sample_pg ''evt_1'' sample_audit) (empty_db, []) =
     (Inr (), (empty_db\<lparr>db_events := [event_row_of 0 (pg_event Some sample_pg ''evt_1'' sample_audit)]\<rparr>, []))"
  by (simp add: emit_def event_validate_def tag_event_def pg_event_def sample_audit_def sample_pg_def
      is_zero_time_def zero_time_def is_valid_status_def event_statuses_def source_postgres_def
      event_insert_def statement_def insert_row_def empty_db_def publish_def new_bus_def)

lemma sample_audit_poll:
  "process_audit_rows (emit deliver new_bus [] 0) Some sample_pg (\<lambda>_. ''evt_1'') True True
      ([sample_audit], (empty_db, []), 0) = ([sample_audit\<lparr>au_processed := True\<rparr>],
      (empty_db\<lparr>db_events := [event_row_of 0 (pg_event Some sample_pg ''evt_1'' sample_audit)]\<rparr>, []), 1)"
  using sample_audit_emit
  by (simp add: process_audit_rows_def pending_rows_def mark_processed_def) (simp add: sample_audit_def)

text \<open>C21: The preview of a row that is a JSON object reads back as that object with exactly the
  configured columns of its table (or of any table, for a column without one) replaced by
  \<open>[REDACTED]\<close>.\<close>

theorem redact_row_data_columns:
  assumes "float_text_ok ft" and "unmarshal (dec_map_any ft) raw None = (True, Some m)"
  shows "\<exists>m'. unmarshal (dec_map_any ft) (redact_row_data ft cols raw t) None = (True, Some m') \<and>
    (\<forall>k. map_of m' k =
      (if list_ex (\<lambda>col. fst (column_of col) \<in> {[], t} \<and> snd (column_of col) = k) cols \<and> has_key m k
       then Some (JStr redacted_marker) else map_of m k))"
proof -
  let ?fs = "map snd (filter (\<lambda>(table, c). table = [] \<or> table = t) (map column_of cols))"
  have "raw \<noteq> []" using assms(2) by auto
  then have "redact_row_data ft cols raw t = json_column enc_map_any (Some (foldl mark_field m ?fs))"
    using assms(2) by (simp add: redact_row_data_def redact_columns_mark)
  with mark_fields_reads [OF assms, of ?fs] show ?thesis by (simp only: column_applies)
qed

lemma redact_row_data_columns_witness:
  "\<exists>m'. unmarshal (dec_map_any Some) (redact_row_data Some [''users.token''] token_body ''users'') None = (True, Some m') \<and>
     map_of m' ''token'' = Some (JStr redacted_marker) \<and> map_of m' ''a'' = Some (JNum ''1'')"
proof -
  have c: "column_of ''users.token'' = (''users'', ''token'')" by code_simp
  from redact_row_data_columns [OF float_text_ok_Some token_body_reads, of "[''users.token'']" "''users''"]
  show ?thesis by (auto simp: c has_key_def)
qed

end
