(* ===== verification/MailpitAdapter.thy ===== *)
theory MailpitAdapter
  imports Agent Redaction
begin

section \<open>The Mailpit adapter (\<open>internal/adapters/mailpit/adapter.go\<close>)\<close>

text \<open>
  One tick of the poll: what Mailpit's API answers is an argument, the body is decoded here. The
  adapter remembers the time and the identifier of the last message it has seen. \<open>ids\<close> gives the
  event identifier generated for the message at a position of the answer.
\<close>

record mailpit_adapter =
  ma_name :: string
  ma_api_url :: string
  ma_run_id :: string
  ma_poll_interval :: duration
  ma_redact_body :: bool

definition new_mailpit :: "string \<Rightarrow> string \<Rightarrow> string \<Rightarrow> duration \<Rightarrow> bool \<Rightarrow> mailpit_adapter" where
  "new_mailpit name url run interval redact =
     \<lparr>ma_name = name, ma_api_url = trim_right url ''/'', ma_run_id = run,
      ma_poll_interval = (if interval < 500000000 then 1000000000 else interval),
      ma_redact_body = redact\<rparr>"

record mailpit_state =
  mp_event_count :: nat
  mp_last_error :: string
  mp_last_seen_id :: string
  mp_last_seen_time :: instant

subsection \<open>The answer of the API\<close>

record address_field =
  ad_name :: string
  ad_address :: string

record message =
  mg_id :: string
  mg_from :: address_field
  mg_to :: "address_field goslice"
  mg_subject :: string
  mg_created :: instant
  mg_size :: int
  mg_snippet :: string

record messages_response =
  mr_total :: int
  mr_messages :: "message goslice"

definition zero_address :: address_field where
  "zero_address = \<lparr>ad_name = [], ad_address = []\<rparr>"

definition zero_message :: message where
  "zero_message = \<lparr>mg_id = [], mg_from = zero_address, mg_to = None, mg_subject = [],
     mg_created = zero_time, mg_size = 0, mg_snippet = []\<rparr>"

definition dec_address :: "address_field dec" where
  "dec_address = dec_struct
     [(''Name'', at_field dec_string ad_name ad_name_update),
      (''Address'', at_field dec_string ad_address ad_address_update)]"

definition dec_message :: "message dec" where
  "dec_message = dec_struct
     [(''ID'', at_field dec_string mg_id mg_id_update),
      (''From'', at_field dec_address mg_from mg_from_update),
      (''To'', at_field (dec_slice dec_address zero_address) mg_to mg_to_update),
      (''Subject'', at_field dec_string mg_subject mg_subject_update),
      (''Created'', at_field dec_time mg_created mg_created_update),
      (''Size'', at_field dec_num mg_size mg_size_update),
      (''Snippet'', at_field dec_string mg_snippet mg_snippet_update)]"

definition dec_messages_response :: "messages_response dec" where
  "dec_messages_response = dec_struct
     [(''total'', at_field dec_num mr_total mr_total_update),
      (''messages'', at_field (dec_slice dec_message zero_message) mr_messages mr_messages_update)]"

text \<open>The outcome of the request: it cannot be built, it fails, or an answer with status and body.\<close>

datatype fetch_result =
    RequestError
  | FetchError string
  | Answer int string

subsection \<open>\<open>emitMessage\<close> and \<open>fetchNewMessages\<close>\<close>

definition mail_event :: "mailpit_adapter \<Rightarrow> string \<Rightarrow> message \<Rightarrow> timeline_event" where
  "mail_event a i m =
     (let to = map ad_address (entries (mg_to m)) in
      \<lparr>ev_id = i, ev_run_id = ma_run_id a, ev_scenario_id = None, ev_replay_run_id = None,
       ev_timestamp = mg_created m, ev_source = source_mailpit, ev_service = ma_name a,
       ev_action = ''email.captured'',
       ev_summary = ''email to '' @ join '', '' to @ '': '' @ mg_subject m,
       ev_status = ''ok'', ev_duration_ms = None, ev_correlation_id = None,
       ev_parent_event_id = None, ev_request = None, ev_response = None,
       ev_metadata = Some [(''from'', JStr (ad_address (mg_from m))), (''size'', enc_num (mg_size m)),
         (''subject'', JStr (mg_subject m)), (''to'', JArr (map JStr to))],
       ev_raw_payload = Some \<lparr>raw_content_type = ''text/plain'', raw_encoding = ''utf-8'',
         raw_preview = (if ma_redact_body a then redacted_marker else mg_snippet m),
         raw_sha256 = [], raw_redacted = ma_redact_body a\<rparr>,
       ev_faults = None\<rparr>)"

definition is_new_message :: "mailpit_state \<Rightarrow> message \<Rightarrow> bool" where
  "is_new_message st m = (mg_created m > mp_last_seen_time st \<and> mg_id m \<noteq> mp_last_seen_id st)"

text \<open>
  The messages are taken from the last (oldest) to the first. An error of the sink is logged; the
  message counts as seen all the same.
\<close>

definition see_message ::
    "(timeline_event \<Rightarrow> 's \<Rightarrow> ('e + unit) \<times> 's) \<Rightarrow> mailpit_adapter \<Rightarrow> string \<times> message \<Rightarrow>
     's \<times> mailpit_state \<Rightarrow> 's \<times> mailpit_state" where
  "see_message em a im sst =
     (case (im, sst) of ((i, m), (s, st)) \<Rightarrow>
        (if is_new_message st m then
           (snd (em (mail_event a i m) s),
            st\<lparr>mp_last_seen_id := mg_id m, mp_last_seen_time := mg_created m,
               mp_event_count := mp_event_count st + 1\<rparr>)
         else (s, st)))"

definition process_messages ::
    "(timeline_event \<Rightarrow> 's \<Rightarrow> ('e + unit) \<times> 's) \<Rightarrow> mailpit_adapter \<Rightarrow> (nat \<Rightarrow> string) \<Rightarrow> message list \<Rightarrow>
     's \<times> mailpit_state \<Rightarrow> 's \<times> mailpit_state" where
  "process_messages em a ids ms sst =
     foldl (\<lambda>sst im. see_message em a im sst) sst (rev (zip (map ids [0..<length ms]) ms))"

definition fetch_new_messages ::
    "(timeline_event \<Rightarrow> 's \<Rightarrow> ('e + unit) \<times> 's) \<Rightarrow> mailpit_adapter \<Rightarrow> (nat \<Rightarrow> string) \<Rightarrow> fetch_result \<Rightarrow>
     's \<times> mailpit_state \<Rightarrow> 's \<times> mailpit_state" where
  "fetch_new_messages em a ids res sst =
     (case res of
        RequestError \<Rightarrow> sst
      | FetchError err \<Rightarrow> (fst sst, (snd sst)\<lparr>mp_last_error := err\<rparr>)
      | Answer status body \<Rightarrow>
          (if status \<noteq> 200 then sst
           else case decode_body dec_messages_response body \<lparr>mr_total = 0, mr_messages = None\<rparr> of
             (ok, r) \<Rightarrow> if ok then process_messages em a ids (entries (mr_messages r)) sst else sst))"

subsection \<open>Messages are seen once\<close>

lemma see_message_state: "snd (see_message em a (i, m) (s, st)) =
   (if is_new_message st m then st\<lparr>mp_last_seen_id := mg_id m, mp_last_seen_time := mg_created m,
      mp_event_count := mp_event_count st + 1\<rparr> else st)"
  by (simp add: see_message_def)

lemma see_message_time: "mp_last_seen_time (snd sst) \<le> mp_last_seen_time (snd (see_message em a im sst))"
  by (cases im; cases sst) (simp add: see_message_state is_new_message_def)

lemma see_messages_time:
  "mp_last_seen_time (snd sst) \<le> mp_last_seen_time (snd (foldl (\<lambda>sst im. see_message em a im sst) sst ims))"
proof (induction ims arbitrary: sst)
  case (Cons im ims)
  from see_message_time [of sst em a im] Cons.IH [of "see_message em a im sst"] show ?case by simp
qed simp

lemma fetch_time:
  "mp_last_seen_time (snd sst) \<le> mp_last_seen_time (snd (fetch_new_messages em a ids res sst))"
  by (auto simp: fetch_new_messages_def process_messages_def see_messages_time
      split: fetch_result.split prod.split)

text \<open>After the loop every message is as old as the last seen one, when no identifier repeats.\<close>

lemma see_messages_all_old:
  assumes "distinct (map (mg_id \<circ> snd) ims)" and "mp_last_seen_id (snd sst) \<notin> mg_id ` snd ` set ims"
  shows "\<forall>m \<in> snd ` set ims.
    mg_created m \<le> mp_last_seen_time (snd (foldl (\<lambda>sst im. see_message em a im sst) sst ims))"
  using assms
proof (induction ims arbitrary: sst)
  case (Cons im ims)
  obtain i m where im: "im = (i, m)" by (cases im)
  obtain s st where sst: "sst = (s, st)" by (cases sst)
  let ?s1 = "see_message em a im sst"
  have "mp_last_seen_id (snd ?s1) \<notin> mg_id ` snd ` set ims"
    using Cons.prems by (auto simp: im sst see_message_state)
  with Cons have ih: "\<forall>m \<in> snd ` set ims.
      mg_created m \<le> mp_last_seen_time (snd (foldl (\<lambda>sst im. see_message em a im sst) ?s1 ims))"
    by simp
  have "mg_created m \<le> mp_last_seen_time (snd ?s1)"
    using Cons.prems by (auto simp: im sst see_message_state is_new_message_def)
  then have "mg_created m \<le> mp_last_seen_time (snd (foldl (\<lambda>sst im. see_message em a im sst) ?s1 ims))"
    using see_messages_time order_trans by blast
  with ih show ?case by (auto simp: im)
qed simp

lemma see_messages_nothing_new:
  "\<forall>m \<in> snd ` set ims. mg_created m \<le> mp_last_seen_time (snd sst) \<Longrightarrow>
   foldl (\<lambda>sst im. see_message em a im sst) sst ims = sst"
proof (induction ims arbitrary: sst)
  case (Cons im ims)
  have "see_message em a im sst = sst"
    using Cons.prems by (cases im; cases sst) (simp add: see_message_def is_new_message_def)
  with Cons show ?case by simp
qed simp

lemma positions_snd: "snd ` set (rev (zip (map ids [0..<length ms]) ms)) = set ms"
  by (metis length_map length_upt list.set_map map_snd_zip minus_nat.diff_0 set_rev)

lemma process_messages_twice:
  assumes "distinct (map mg_id ms)" and "mp_last_seen_id (snd sst) \<notin> mg_id ` set ms"
  shows "process_messages em' a' ids' ms (process_messages em a ids ms sst) = process_messages em a ids ms sst"
proof -
  let ?ims = "rev (zip (map ids [0..<length ms]) ms)"
  have "map (mg_id \<circ> snd) ?ims = rev (map mg_id ms)"
    by (metis (no_types, lifting) length_map length_upt map_map map_snd_zip minus_nat.diff_0 rev_map)
  then have "distinct (map (mg_id \<circ> snd) ?ims)" using assms(1) by simp
  then have "\<forall>m \<in> snd ` set ?ims. mg_created m \<le> mp_last_seen_time (snd (process_messages em a ids ms sst))"
    unfolding process_messages_def
    by (rule see_messages_all_old) (simp only: positions_snd assms(2) not_False_eq_True)
  then have "\<forall>m \<in> snd ` set (rev (zip (map ids' [0..<length ms]) ms)).
      mg_created m \<le> mp_last_seen_time (snd (process_messages em a ids ms sst))"
    by (simp only: positions_snd)
  then show ?thesis
    unfolding process_messages_def [of em'] by (rule see_messages_nothing_new)
qed

subsection \<open>Properties\<close>

text \<open>C16: An answer that is polled again brings nothing new: when the messages have distinct
  identifiers, none of them the last one seen, the second poll leaves the sink and the adapter as
  they are - also the messages that the sink refused the first time, which are therefore lost.\<close>

theorem mailpit_polls_once:
  assumes "distinct (map mg_id ms)" and "mp_last_seen_id (snd sst) \<notin> mg_id ` set ms"
  shows "process_messages em' a ids' ms (process_messages em a ids ms sst) = process_messages em a ids ms sst"
  using assms by (rule process_messages_twice)

definition sample_mail :: message where
  "sample_mail = zero_message\<lparr>mg_id := ''m1'', mg_created := 10\<rparr>"

definition sample_mailpit_state :: mailpit_state where
  "sample_mailpit_state = \<lparr>mp_event_count = 0, mp_last_error = [], mp_last_seen_id = [], mp_last_seen_time = 5\<rparr>"

definition refuse :: "timeline_event \<Rightarrow> string list \<Rightarrow> (unit + unit) \<times> string list" where
  "refuse e s = (Inl (), s)"

definition keep :: "timeline_event \<Rightarrow> string list \<Rightarrow> (unit + unit) \<times> string list" where
  "keep e s = (Inr (), s @ [ev_id e])"

lemma mailpit_polls_once_witness:
  "fst (process_messages keep (new_mailpit ''mail'' ''http://h/'' ''run_1'' 0 True) (\<lambda>_. ''evt_2'') [sample_mail]
     (process_messages refuse (new_mailpit ''mail'' ''http://h/'' ''run_1'' 0 True) (\<lambda>_. ''evt_1'') [sample_mail]
       ([], sample_mailpit_state))) = []"
proof -
  let ?a = "new_mailpit ''mail'' ''http://h/'' ''run_1'' 0 True"
  have "distinct (map mg_id [sample_mail])" "mp_last_seen_id (snd ([] :: string list, sample_mailpit_state)) \<notin> mg_id ` set [sample_mail]"
    by (simp_all add: sample_mail_def sample_mailpit_state_def)
  note two = mailpit_polls_once [OF this, of keep ?a "\<lambda>_. ''evt_2''" refuse "\<lambda>_. ''evt_1''"]
  have "fst (process_messages refuse ?a (\<lambda>_. ''evt_1'') [sample_mail] ([], sample_mailpit_state)) = []"
    by (simp add: process_messages_def see_message_def is_new_message_def refuse_def)
  with two show ?thesis by simp
qed

end
