(* ===== verification/AdapterLife.thy ===== *)
theory AdapterLife
  imports RedisAdapter PostgresAdapter MailpitAdapter
begin

section \<open>Starting and stopping the adapters (\<open>internal/adapters\<close>)\<close>

text \<open>
  \<open>Start\<close>, \<open>Stop\<close> and \<open>Status\<close> of the three adapters, over the fields they share: the status text,
  the connection, the context that \<open>Stop\<close> cancels, and whether the goroutine of the adapter is
  running. \<open>Stop\<close> waits for that goroutine; \<open>None\<close> is a wait that never ends. The reader of Redis
  ends when its connection is closed under it, the polls of Postgres and Mailpit end when their
  context is cancelled. \<open>adapter_lifecycle\<close> is the contract that the agent relies on.
\<close>

datatype conn_state = NoConn | OpenConn | ClosedConn

datatype worker_kind = ReaderWorker | PollWorker

record life =
  li_status :: string
  li_conn :: conn_state
  li_cancelled :: "bool option"
  li_worker :: bool
  li_event_count :: int
  li_last_error :: string

definition new_life :: life where
  "new_life = \<lparr>li_status = ''stopped'', li_conn = NoConn, li_cancelled = None, li_worker = False,
     li_event_count = 0, li_last_error = []\<rparr>"

definition cancel_context :: "life \<Rightarrow> life" where
  "cancel_context l = l\<lparr>li_cancelled := map_option (\<lambda>_. True) (li_cancelled l)\<rparr>"

definition close_conn :: "life \<Rightarrow> life" where
  "close_conn l = (if li_conn l = NoConn then l else l\<lparr>li_conn := ClosedConn\<rparr>)"

definition worker_ends :: "worker_kind \<Rightarrow> life \<Rightarrow> bool" where
  "worker_ends k l = (case k of ReaderWorker \<Rightarrow> li_conn l \<noteq> OpenConn | PollWorker \<Rightarrow> li_cancelled l = Some True)"

definition wait_worker :: "worker_kind \<Rightarrow> life \<Rightarrow> life option" where
  "wait_worker k l = (if li_worker l \<and> \<not> worker_ends k l then None else Some (l\<lparr>li_worker := False\<rparr>))"

definition set_status :: "string \<Rightarrow> life \<Rightarrow> life" where
  "set_status s l = l\<lparr>li_status := s\<rparr>"

definition run_worker :: "life \<Rightarrow> life" where
  "run_worker l = set_status ''running'' (l\<lparr>li_cancelled := Some False\<rparr>)\<lparr>li_worker := True\<rparr>"

subsection \<open>Redis\<close>

text \<open>The outcomes of dialing and of sending \<open>MONITOR\<close>; a connection that cannot be used is closed.\<close>

definition redis_start :: "string \<Rightarrow> string option \<times> string option \<Rightarrow> life \<Rightarrow> (string + unit) \<times> life" where
  "redis_start addr oc l =
     (case fst oc of
        Some err \<Rightarrow> (Inl (''redis adapter: connect '' @ addr @ '': '' @ err), l)
      | None \<Rightarrow>
          (let l1 = l\<lparr>li_conn := OpenConn\<rparr> in
           case snd oc of
             Some err \<Rightarrow> (Inl (''redis adapter: send MONITOR: '' @ err), l1\<lparr>li_conn := ClosedConn\<rparr>)
           | None \<Rightarrow> (Inr (), run_worker l1)))"

definition redis_stop :: "life \<Rightarrow> life option" where
  "redis_stop l = map_option (set_status ''stopped'') (wait_worker ReaderWorker (close_conn (cancel_context l)))"

definition redis_status :: "string \<Rightarrow> life \<Rightarrow> adapter_status" where
  "redis_status name l = \<lparr>as_adapter = ''redis'', as_service = name, as_enabled = True, as_status = li_status l,
     as_last_event_at = None, as_last_error = li_last_error l, as_event_count = li_event_count l, as_metadata = None\<rparr>"

subsection \<open>Postgres\<close>

type_synonym sql_line = "nat \<times> string"

definition sql_text :: "sql_line list \<Rightarrow> string" where
  "sql_text ls = concat (map (\<lambda>(tabs, s). CHR 0x0A # replicate tabs (CHR 0x09) @ s) ls)"

definition create_table_sql :: string where
  "create_table_sql = sql_text
    [(2, ''CREATE TABLE IF NOT EXISTS _localcloud_audit (''),
     (3, ''id BIGSERIAL PRIMARY KEY,''),
     (3, ''table_name TEXT NOT NULL,''),
     (3, ''operation TEXT NOT NULL,''),
     (3, ''row_data JSONB,''),
     (3, ''captured_at TIMESTAMPTZ NOT NULL DEFAULT NOW(),''),
     (3, ''processed BOOLEAN NOT NULL DEFAULT FALSE''),
     (2, '')''),
     (1, '''')]"

definition create_function_sql :: string where
  "create_function_sql = sql_text
    [(2, ''CREATE OR REPLACE FUNCTION _localcloud_audit_fn()''),
     (2, ''RETURNS TRIGGER AS $$''),
     (2, ''BEGIN''),
     (3, ''INSERT INTO _localcloud_audit (table_name, operation, row_data)''),
     (3, ''VALUES (TG_TABLE_NAME, TG_OP, row_to_json(NEW));''),
     (3, ''RETURN NEW;''),
     (2, ''END;''),
     (2, ''$$ LANGUAGE plpgsql''),
     (1, '''')]"

definition trigger_name :: "string \<Rightarrow> string" where
  "trigger_name table = ''_localcloud_audit_'' @ table"

definition create_trigger_sql :: "string \<Rightarrow> string" where
  "create_trigger_sql table = sql_text
    [(3, ''DO $$''),
     (3, ''BEGIN''),
     (4, ''IF NOT EXISTS (''),
     (5, ''SELECT 1 FROM pg_trigger WHERE tgname = '' @ [CHR 0x27] @ trigger_name table @ [CHR 0x27]),
     (4, '') THEN''),
     (5, ''CREATE TRIGGER '' @ trigger_name table),
     (5, ''AFTER INSERT ON '' @ table),
     (5, ''FOR EACH ROW''),
     (5, ''EXECUTE FUNCTION _localcloud_audit_fn();''),
     (4, ''END IF;''),
     (3, ''END $$''),
     (2, '''')]"

text \<open>The statements of \<open>ensureAuditTrigger\<close> with the prefix of their errors; the first error stops it.\<close>

definition audit_setup :: "string list \<Rightarrow> (string \<times> string) list" where
  "audit_setup tables =
     [(''create audit table: '', create_table_sql), (''create audit function: '', create_function_sql)] @
     map (\<lambda>t. (''create trigger for '' @ t @ '': '', create_trigger_sql t)) tables"

fun exec_setup :: "(string \<Rightarrow> 'w \<Rightarrow> string option \<times> 'w) \<Rightarrow> (string \<times> string) list \<Rightarrow> 'w \<Rightarrow> string option \<times> 'w" where
  "exec_setup ex [] w = (None, w)"
| "exec_setup ex ((label, sql) # rest) w =
     (case ex sql w of
        (Some err, w') \<Rightarrow> (Some (label @ err), w')
      | (None, w') \<Rightarrow> exec_setup ex rest w')"

definition ensure_audit_trigger :: "(string \<Rightarrow> 'w \<Rightarrow> string option \<times> 'w) \<Rightarrow> string list \<Rightarrow> 'w \<Rightarrow> string option \<times> 'w" where
  "ensure_audit_trigger ex tables w = exec_setup ex (audit_setup tables) w"

text \<open>The outcomes of opening and of the ping. A set-up that fails is only logged.\<close>

definition pg_start :: "(string \<Rightarrow> 'w \<Rightarrow> string option \<times> 'w) \<Rightarrow> string list \<Rightarrow> string option \<times> string option \<Rightarrow>
    life \<times> 'w \<Rightarrow> (string + unit) \<times> life \<times> 'w" where
  "pg_start ex tables oc lw =
     (case fst oc of
        Some err \<Rightarrow> (Inl (''postgres adapter: connect: '' @ err), lw)
      | None \<Rightarrow>
          (case snd oc of
             Some err \<Rightarrow> (Inl (''postgres adapter: ping: '' @ err), lw)
           | None \<Rightarrow>
               (case ensure_audit_trigger ex tables (snd lw) of
                  (_, w') \<Rightarrow> (Inr (), run_worker ((fst lw)\<lparr>li_conn := OpenConn\<rparr>), w'))))"

definition pg_stop :: "life \<Rightarrow> life option" where
  "pg_stop l = map_option (set_status ''stopped'' \<circ> close_conn) (wait_worker PollWorker (cancel_context l))"

definition pg_status :: "string \<Rightarrow> life \<Rightarrow> adapter_status" where
  "pg_status name l = (redis_status name l)\<lparr>as_adapter := ''postgres''\<rparr>"

subsection \<open>Mailpit\<close>

definition mailpit_start :: "instant \<Rightarrow> life \<times> mailpit_state \<Rightarrow> (string + unit) \<times> life \<times> mailpit_state" where
  "mailpit_start now ls = (Inr (), run_worker (fst ls), (snd ls)\<lparr>mp_last_seen_time := now\<rparr>)"

definition mailpit_stop :: "life \<Rightarrow> life option" where
  "mailpit_stop l = map_option (set_status ''stopped'') (wait_worker PollWorker (cancel_context l))"

definition mailpit_status :: "string \<Rightarrow> life \<Rightarrow> adapter_status" where
  "mailpit_status name l = (redis_status name l)\<lparr>as_adapter := ''mailpit''\<rparr>"

subsection \<open>The poll\<close>

text \<open>What the \<open>select\<close> of a polling goroutine receives: a tick, or the end of the context.\<close>

datatype 'a poll_event = Tick 'a | PollDone

fun poll_loop :: "('a \<Rightarrow> 's \<Rightarrow> 's) \<Rightarrow> 'a poll_event list \<Rightarrow> 's \<Rightarrow> 's" where
  "poll_loop f [] s = s"
| "poll_loop f (PollDone # es) s = s"
| "poll_loop f (Tick a # es) s = poll_loop f es (f a s)"

lemma poll_stops: "poll_loop f (es @ PollDone # later) s = poll_loop f es s"
proof (induction es arbitrary: s)
  case (Cons e es)
  then show ?case by (cases e) simp_all
qed simp

text \<open>A tick of Postgres: the active recording and the clock of the sink, the identifiers of the new
  events, and whether the query and the update succeed. A tick of Mailpit: the first three, and what
  the request brought.\<close>

type_synonym pg_tick = "string \<times> int \<times> (int \<Rightarrow> string) \<times> bool \<times> bool"
type_synonym mailpit_tick = "string \<times> int \<times> (nat \<Rightarrow> string) \<times> fetch_result"

definition poll_audit_log :: "('h \<Rightarrow> timeline_event \<Rightarrow> 's \<Rightarrow> 's \<times> bool) \<Rightarrow> 'h bus \<Rightarrow> float_text \<Rightarrow> pg_adapter \<Rightarrow>
    pg_tick poll_event list \<Rightarrow> audit_row list \<times> (db \<times> 's) \<times> nat \<Rightarrow> audit_row list \<times> (db \<times> 's) \<times> nat" where
  "poll_audit_log run b ft a = poll_loop (\<lambda>(active, now, ids, qok, uok).
     process_audit_rows (emit run b active now) ft a ids qok uok)"

definition mailpit_poll :: "('h \<Rightarrow> timeline_event \<Rightarrow> 's \<Rightarrow> 's \<times> bool) \<Rightarrow> 'h bus \<Rightarrow> mailpit_adapter \<Rightarrow>
    mailpit_tick poll_event list \<Rightarrow> (db \<times> 's) \<times> mailpit_state \<Rightarrow> (db \<times> 's) \<times> mailpit_state" where
  "mailpit_poll run b a = poll_loop (\<lambda>(active, now, ids, res).
     fetch_new_messages (emit run b active now) a ids res)"

text \<open>What every tick keeps, the poll keeps.\<close>

lemma poll_loop_keeps:
  assumes "\<And>t s. Tick t \<in> set es \<Longrightarrow> P s \<Longrightarrow> P (f t s)"
  shows "P s \<Longrightarrow> P (poll_loop f es s)"
  using assms
proof (induction es arbitrary: s)
  case (Cons e es)
  then show ?case by (cases e) simp_all
qed simp

text \<open>The identifiers that a sequence of ticks gives the event of an audit row.\<close>

fun tick_ids :: "pg_tick poll_event list \<Rightarrow> int \<Rightarrow> string list" where
  "tick_ids [] k = []"
| "tick_ids (PollDone # es) k = []"
| "tick_ids (Tick (active, now, ids, qok, uok) # es) k = ids k # tick_ids es k"

lemma poll_audit_log_keeps:
  assumes "event_stored st i"
  shows "event_stored (fst (snd (poll_audit_log run b ft a es (tbl, st, n)))) i"
  unfolding poll_audit_log_def
  by (rule poll_loop_keeps [where P = "\<lambda>s. event_stored (fst (snd s)) i"])
    (use assms in \<open>auto simp: adapter_sink.process_rows_keep split: prod.split\<close>)

lemma poll_audit_log_stored:
  assumes "poll_audit_log run b ft a es (tbl, st, n) = (tbl', st', n')"
    and "r \<in> set tbl'" and "au_processed r"
  shows "(\<exists>r0 \<in> set tbl. au_id r0 = au_id r \<and> au_processed r0) \<or>
    list_ex (event_stored st') (tick_ids es (au_id r))"
  using assms
proof (induction es arbitrary: tbl st n)
  case Nil
  then show ?case by (auto simp: poll_audit_log_def)
next
  case (Cons e es)
  show ?case
  proof (cases e)
    case (Tick t)
    obtain active now ids qok uok where t: "t = (active, now, ids, qok, uok)" by (cases t)
    obtain tbl1 st1 n1 where p: "process_audit_rows (emit run b active now) ft a ids qok uok (tbl, st, n)
        = (tbl1, st1, n1)" by (metis prod_cases3)
    with Cons.prems(1) have rest: "poll_audit_log run b ft a es (tbl1, st1, n1) = (tbl', st', n')"
      by (simp add: Tick t poll_audit_log_def)
    have keep: "event_stored st1 i \<Longrightarrow> event_stored st' i" for i
      using poll_audit_log_keeps [of st1 i run b ft a es tbl1 n1] by (simp add: rest)
    from Cons.IH [OF rest Cons.prems(2,3)] consider
        (old) r0 where "r0 \<in> set tbl1" "au_id r0 = au_id r" "au_processed r0"
      | (later) "list_ex (event_stored st') (tick_ids es (au_id r))" by blast
    then show ?thesis
    proof cases
      case old
      from adapter_sink.process_rows_stored [OF p old(1,3)] keep show ?thesis
        by (auto simp: Tick t old(2))
    qed (simp add: Tick t)
  qed (use Cons.prems in \<open>auto simp: poll_audit_log_def\<close>)
qed

text \<open>The time of the last message never goes back.\<close>

lemma mailpit_poll_time:
  "mp_last_seen_time (snd sst) \<le> mp_last_seen_time (snd (mailpit_poll run b a es sst))"
  unfolding mailpit_poll_def
  by (rule poll_loop_keeps [where P = "\<lambda>s. mp_last_seen_time (snd sst) \<le> mp_last_seen_time (snd s)"])
    (auto intro: order_trans fetch_time split: prod.split)

subsection \<open>The contract\<close>

definition life_inv :: "life \<Rightarrow> bool" where
  "life_inv l = (li_worker l \<longrightarrow> li_cancelled l \<noteq> None)"

text \<open>
  Any number of starts, each followed by a stop. A start of an adapter that is running is outside
  the contract: the agent starts each adapter once.
\<close>

fun sessions :: "('o \<Rightarrow> life \<Rightarrow> (string + unit) \<times> life) \<Rightarrow> (life \<Rightarrow> life option) \<Rightarrow> 'o list \<Rightarrow> life \<Rightarrow>
    life option" where
  "sessions start stop [] l = Some l"
| "sessions start stop (oc # ocs) l = Option.bind (stop (snd (start oc l))) (sessions start stop ocs)"

locale adapter_lifecycle =
  fixes start :: "'o \<Rightarrow> life \<Rightarrow> (string + unit) \<times> life"
    and stop :: "life \<Rightarrow> life option"
  assumes start_done: "\<not> li_worker l \<Longrightarrow> start oc l = (Inr (), l') \<Longrightarrow>
      life_inv l' \<and> li_worker l' \<and> li_status l' = ''running''"
    and start_fails: "\<not> li_worker l \<Longrightarrow> start oc l = (Inl err, l') \<Longrightarrow>
      life_inv l' \<and> \<not> li_worker l' \<and> li_status l' = li_status l"
    and start_keeps_count: "start oc l = (r, l') \<Longrightarrow> li_event_count l' = li_event_count l"
    and stop_returns: "life_inv l \<Longrightarrow> \<exists>l'. stop l = Some l' \<and> \<not> li_worker l' \<and> li_status l' = ''stopped'' \<and>
      li_event_count l' = li_event_count l"
begin

lemma stop_after_start:
  assumes "\<not> li_worker l"
  shows "\<exists>l'. stop (snd (start oc l)) = Some l' \<and> \<not> li_worker l' \<and> li_status l' = ''stopped'' \<and>
    li_event_count l' = li_event_count l"
proof -
  obtain r l1 where s: "start oc l = (r, l1)" by (cases "start oc l")
  then have "life_inv l1" using start_done [OF assms, of oc l1] start_fails [OF assms, of oc _ l1]
    by (cases r) auto
  from stop_returns [OF this] start_keeps_count [OF s] show ?thesis by (auto simp: s)
qed

lemma sessions_return:
  assumes "\<not> li_worker l" and "li_status l = ''stopped''"
  shows "\<exists>l'. sessions start stop ocs l = Some l' \<and> \<not> li_worker l' \<and> li_status l' = ''stopped''"
  using assms
proof (induction ocs arbitrary: l)
  case (Cons oc ocs)
  from stop_after_start [OF Cons.prems(1), of oc] Cons.IH show ?case by fastforce
qed simp

end

lemmas life_defs = life_inv_def wait_worker_def worker_ends_def close_conn_def cancel_context_def set_status_def
  run_worker_def

interpretation redis_life: adapter_lifecycle "redis_start addr" redis_stop for addr
  by unfold_locales
    (auto simp: redis_start_def redis_stop_def life_defs Let_def split: option.splits prod.splits if_splits)

text \<open>The start of a poll, with the rest of its state fixed.\<close>

definition pg_start_life :: "(string \<Rightarrow> 'w \<Rightarrow> string option \<times> 'w) \<Rightarrow> string list \<Rightarrow> 'w \<Rightarrow>
    string option \<times> string option \<Rightarrow> life \<Rightarrow> (string + unit) \<times> life" where
  "pg_start_life ex tables w oc l = (case pg_start ex tables oc (l, w) of (r, l', _) \<Rightarrow> (r, l'))"

definition mailpit_start_life :: "mailpit_state \<Rightarrow> instant \<Rightarrow> life \<Rightarrow> (string + unit) \<times> life" where
  "mailpit_start_life st now l = (case mailpit_start now (l, st) of (r, l', _) \<Rightarrow> (r, l'))"

interpretation pg_life: adapter_lifecycle "pg_start_life ex tables w" pg_stop for ex tables w
  by unfold_locales
    (auto simp: pg_start_life_def pg_start_def pg_stop_def life_defs split: option.splits prod.splits if_splits)

interpretation mailpit_life: adapter_lifecycle "mailpit_start_life st" mailpit_stop for st
  by unfold_locales
    (auto simp: mailpit_start_life_def mailpit_start_def mailpit_stop_def life_defs split: if_splits)

subsection \<open>Properties\<close>

text \<open>C40: Stopping an adapter always returns: however often an adapter is started and stopped, and
  whatever each start meets (a refused connection, a ping that fails, a set-up that fails), the wait
  for its goroutine ends and the adapter is stopped.\<close>

theorem adapters_stop:
  "(\<exists>l. sessions (redis_start addr) redis_stop rocs new_life = Some l \<and> \<not> li_worker l \<and> li_status l = ''stopped'') \<and>
   (\<exists>l. sessions (pg_start_life ex tables w) pg_stop pocs new_life = Some l \<and> \<not> li_worker l \<and> li_status l = ''stopped'') \<and>
   (\<exists>l. sessions (mailpit_start_life st) mailpit_stop mocs new_life = Some l \<and> \<not> li_worker l \<and> li_status l = ''stopped'')"
  by (intro conjI redis_life.sessions_return pg_life.sessions_return mailpit_life.sessions_return)
    (simp_all add: new_life_def)

text \<open>C15: A row of the audit table is only marked processed after its event is in the database: after
  any number of ticks of the poll with the agent's sink, whichever queries, inserts and updates fail
  and whatever is being recorded, a processed row was processed before or an event that one of the
  ticks made for it is stored.\<close>

theorem processed_rows_are_stored:
  assumes "poll_audit_log run b ft a es (tbl, st, n) = (tbl', st', n')"
    and "r \<in> set tbl'" and "au_processed r"
  shows "(\<exists>r0 \<in> set tbl. au_id r0 = au_id r \<and> au_processed r0) \<or>
    list_ex (event_stored st') (tick_ids es (au_id r))"
  using assms by (rule poll_audit_log_stored)

lemma processed_rows_are_stored_witness:
  "event_stored (empty_db\<lparr>db_events := [event_row_of 0 (pg_event Some sample_pg ''evt_1'' sample_audit)]\<rparr>, [] :: string list) ''evt_1''"
proof -
  have "poll_audit_log deliver new_bus Some sample_pg
      [Tick ([], 0, \<lambda>_. ''evt_0'', False, True), Tick ([], 0, \<lambda>_. ''evt_1'', True, True), PollDone]
      ([sample_audit], (empty_db, []), 0) = ([sample_audit\<lparr>au_processed := True\<rparr>],
      (empty_db\<lparr>db_events := [event_row_of 0 (pg_event Some sample_pg ''evt_1'' sample_audit)]\<rparr>, []), 1)"
    using sample_audit_poll by (simp add: poll_audit_log_def process_audit_rows_failed)
  from processed_rows_are_stored [OF this] show ?thesis
    by (simp add: sample_audit_def event_stored_def in_table_def)
qed

end
