(* ===== verification/GoFlag.thy ===== *)
theory GoFlag
  imports Prelude
begin

section \<open>The \<open>flag\<close> package, as far as the commands use it\<close>

text \<open>
  A flag set is the list of the flags with their current values, the defaults at first. A value is
  a string, a boolean or an integer; \<open>set_flag\<close> is its \<open>Set\<close> method. \<open>parse_flags\<close> is
  \<open>FlagSet.Parse\<close> with \<open>ContinueOnError\<close>: it stops at the first argument that is no flag or after
  a lone double dash, and returns the flags and the remaining arguments, or the error.
\<close>

subsection \<open>Values\<close>

datatype flag_value =
    FlagString string
  | FlagBool bool
  | FlagInt int

type_synonym flag_set = "(string \<times> flag_value) list"

definition parse_bool :: "string \<Rightarrow> bool option" where
  "parse_bool s =
     (if s \<in> {''1'', ''t'', ''T'', ''true'', ''TRUE'', ''True''} then Some True
      else if s \<in> {''0'', ''f'', ''F'', ''false'', ''FALSE'', ''False''} then Some False
      else None)"

text \<open>\<open>strconv.ParseInt(s, 0, 64)\<close>: the base is read from the prefix, and underscores may separate
  digits.\<close>

definition base_prefix :: "string \<Rightarrow> nat \<times> string" where
  "base_prefix s =
     (case s of
        c # d # e # r \<Rightarrow>
          (if c \<noteq> CHR ''0'' then (10, s)
           else if lower_char d = CHR ''b'' then (2, e # r)
           else if lower_char d = CHR ''o'' then (8, e # r)
           else if lower_char d = CHR ''x'' then (16, e # r)
           else (8, d # e # r))
      | c # r \<Rightarrow> (if c = CHR ''0'' then (8, r) else (10, s))
      | [] \<Rightarrow> (10, []))"

definition digit_of :: "char \<Rightarrow> nat option" where
  "digit_of c =
     (if is_digit c then Some (digit_val c)
      else if is_lower (lower_char c) then Some (of_char (lower_char c) - 87)
      else None)"

fun digits_value :: "nat \<Rightarrow> nat \<Rightarrow> string \<Rightarrow> nat option" where
  "digits_value b n [] = Some n"
| "digits_value b n (c # s) =
     (if c = CHR ''_'' then digits_value b n s
      else case digit_of c of
        None \<Rightarrow> None
      | Some d \<Rightarrow> (if d < b then digits_value b (n * b + d) s else None))"

text \<open>What was seen last: nothing yet, a digit (or the base prefix), an underscore, something else.\<close>

datatype seen = SawStart | SawDigit | SawUnderscore | SawOther

fun underscores_from :: "bool \<Rightarrow> seen \<Rightarrow> string \<Rightarrow> bool" where
  "underscores_from hex saw [] = (saw \<noteq> SawUnderscore)"
| "underscores_from hex saw (c # s) =
     (if is_digit c \<or> hex \<and> lower_char c \<in> set ''abcdef'' then underscores_from hex SawDigit s
      else if c = CHR ''_'' then (if saw \<noteq> SawDigit then False else underscores_from hex SawUnderscore s)
      else if saw = SawUnderscore then False
      else underscores_from hex SawOther s)"

definition underscore_ok :: "string \<Rightarrow> bool" where
  "underscore_ok s =
     (case s of
        c # d # r \<Rightarrow>
          (if c = CHR ''0'' \<and> lower_char d \<in> set ''box''
           then underscores_from (lower_char d = CHR ''x'') SawDigit r
           else underscores_from False SawStart s)
      | _ \<Rightarrow> underscores_from False SawStart s)"

definition parse_uint0 :: "string \<Rightarrow> nat option" where
  "parse_uint0 s =
     (if s = [] then None
      else case base_prefix s of (b, r) \<Rightarrow>
        (case digits_value b 0 r of
           None \<Rightarrow> None
         | Some n \<Rightarrow> (if CHR ''_'' \<in> set r \<and> \<not> underscore_ok s then None else Some n)))"

definition parse_int0 :: "string \<Rightarrow> int option" where
  "parse_int0 s =
     (case s of
        [] \<Rightarrow> None
      | c # t \<Rightarrow>
          (if c = CHR ''-'' then Option.bind (parse_uint0 t) (\<lambda>n. in_int64 (- int n))
           else if c = CHR ''+'' then Option.bind (parse_uint0 t) (\<lambda>n. in_int64 (int n))
           else Option.bind (parse_uint0 s) (\<lambda>n. in_int64 (int n))))"

definition set_flag :: "flag_value \<Rightarrow> string \<Rightarrow> flag_value option" where
  "set_flag v s =
     (case v of
        FlagString _ \<Rightarrow> Some (FlagString s)
      | FlagBool _ \<Rightarrow> map_option FlagBool (parse_bool s)
      | FlagInt _ \<Rightarrow> map_option FlagInt (parse_int0 s))"

subsection \<open>Parsing\<close>

datatype flag_error =
    BadFlagSyntax string
  | FlagNotDefined string
  | FlagHelp
  | FlagNeedsArgument string
  | FlagInvalid string string

text \<open>The name of an argument that is a flag, and whether it was the lone double dash.\<close>

datatype flag_arg =
    NoFlag
  | EndOfFlags
  | FlagArg string

definition flag_arg :: "string \<Rightarrow> flag_arg" where
  "flag_arg s =
     (case s of
        c # d # r \<Rightarrow>
          (if c \<noteq> CHR ''-'' then NoFlag
           else if d = CHR ''-'' then (if r = [] then EndOfFlags else FlagArg r)
           else FlagArg (d # r))
      | _ \<Rightarrow> NoFlag)"

text \<open>The name is cut at the first equals sign that is not its first character.\<close>

definition split_flag :: "string \<Rightarrow> string \<times> string option" where
  "split_flag name =
     (case name of
        [] \<Rightarrow> ([], None)
      | c # s \<Rightarrow>
          (let k = takeWhile (\<lambda>x. x \<noteq> CHR ''='') s in
           if k = s then (name, None) else (c # k, Some (drop (Suc (length k)) s))))"

definition is_bool_flag :: "flag_value \<Rightarrow> bool" where
  "is_bool_flag v = (case v of FlagBool _ \<Rightarrow> True | _ \<Rightarrow> False)"

fun parse_flags :: "flag_set \<Rightarrow> string list \<Rightarrow> flag_error + flag_set \<times> string list" where
  "parse_flags fs [] = Inr (fs, [])"
| "parse_flags fs (s # rest) =
     (case flag_arg s of
        NoFlag \<Rightarrow> Inr (fs, s # rest)
      | EndOfFlags \<Rightarrow> Inr (fs, rest)
      | FlagArg nm \<Rightarrow>
          (if nm = [] \<or> hd nm = CHR ''-'' \<or> hd nm = CHR ''='' then Inl (BadFlagSyntax s)
           else case split_flag nm of (name, given) \<Rightarrow>
             (case map_of fs name of
                None \<Rightarrow> Inl (if name = ''help'' \<or> name = ''h'' then FlagHelp else FlagNotDefined name)
              | Some v \<Rightarrow>
                  (if is_bool_flag v then
                     (case set_flag v (case given of Some x \<Rightarrow> x | None \<Rightarrow> ''true'') of
                        None \<Rightarrow> Inl (FlagInvalid name (case given of Some x \<Rightarrow> x | None \<Rightarrow> ''true''))
                      | Some v' \<Rightarrow> parse_flags (AList.update name v' fs) rest)
                   else (case given of
                      Some x \<Rightarrow>
                        (case set_flag v x of
                           None \<Rightarrow> Inl (FlagInvalid name x)
                         | Some v' \<Rightarrow> parse_flags (AList.update name v' fs) rest)
                    | None \<Rightarrow>
                        (case rest of
                           [] \<Rightarrow> Inl (FlagNeedsArgument name)
                         | x # rest' \<Rightarrow>
                             (case set_flag v x of
                                None \<Rightarrow> Inl (FlagInvalid name x)
                              | Some v' \<Rightarrow> parse_flags (AList.update name v' fs) rest')))))))"

definition flag_str :: "flag_set \<Rightarrow> string \<Rightarrow> string" where
  "flag_str fs k = (case map_of fs k of Some (FlagString s) \<Rightarrow> s | _ \<Rightarrow> [])"

definition flag_bool :: "flag_set \<Rightarrow> string \<Rightarrow> bool" where
  "flag_bool fs k = (case map_of fs k of Some (FlagBool b) \<Rightarrow> b | _ \<Rightarrow> False)"

definition flag_int :: "flag_set \<Rightarrow> string \<Rightarrow> int" where
  "flag_int fs k = (case map_of fs k of Some (FlagInt n) \<Rightarrow> n | _ \<Rightarrow> 0)"

subsection \<open>Reading back what is given\<close>

lemma base_prefix_dec_nat: "0 < n \<Longrightarrow> base_prefix (dec_nat n) = (10, dec_nat n)"
proof -
  assume "0 < n"
  then have "hd (dec_nat n) \<noteq> CHR ''0''"
  proof (induction n rule: dec_nat.induct)
    case (1 n)
    show ?case
    proof (cases "n < 10")
      case True
      with 1 have "(of_char (hd (dec_nat n)) :: nat) \<noteq> 48" by (simp add: dec_nat.simps [of n])
      then show ?thesis by auto
    next
      case False
      with 1 show ?thesis by (simp add: dec_nat.simps [of n])
    qed
  qed
  then show ?thesis by (auto simp: base_prefix_def split: list.splits)
qed

lemma digits_value_decimal: "list_all is_digit s \<Longrightarrow> digits_value 10 n s = Some (foldl (\<lambda>a c. 10 * a + digit_val c) n s)"
proof (induction s arbitrary: n)
  case (Cons c s)
  then have "is_digit c" by simp
  then have "c \<noteq> CHR ''_''" "digit_of c = Some (digit_val c)" "digit_val c < 10"
    by (auto simp: is_digit_def digit_of_def digit_val_def)
  with Cons show ?case by (simp add: mult.commute)
qed simp

lemma parse_uint0_dec_nat [simp]: "parse_uint0 (dec_nat n) = Some n"
proof (cases "n = 0")
  case True
  moreover have "dec_nat 0 = ''0''" by code_simp
  moreover have "parse_uint0 ''0'' = Some 0" by code_simp
  ultimately show ?thesis by simp
next
  case False
  have "CHR ''_'' \<notin> set (dec_nat n)"
    using dec_nat_digits [of "CHR ''_''" n] by (auto simp: is_digit_def)
  with False show ?thesis
    using digits_value_decimal [OF dec_nat_all_digits, of 0 n] nat_of_dec_dec_nat [of n]
    by (simp add: parse_uint0_def base_prefix_dec_nat nat_of_dec_def)
qed

lemma parse_int0_dec_int: "int64_min \<le> n \<Longrightarrow> n \<le> int64_max \<Longrightarrow> parse_int0 (dec_int n) = Some n"
proof (cases "n < 0")
  case True
  assume "int64_min \<le> n"
  with True show ?thesis by (simp add: dec_int_def parse_int0_def in_int64_def int64_max_def)
next
  case False
  assume "n \<le> int64_max"
  have "hd (dec_nat (nat n)) \<noteq> CHR ''-'' \<and> hd (dec_nat (nat n)) \<noteq> CHR ''+''"
    using dec_nat_digits [of "hd (dec_nat (nat n))" "nat n"] is_digit_not_sign by simp
  with False \<open>n \<le> int64_max\<close> show ?thesis
    by (cases "dec_nat (nat n)")
      (use parse_uint0_dec_nat [of "nat n"] in \<open>auto simp: dec_int_def parse_int0_def in_int64_def int64_min_def\<close>)
qed

text \<open>Names that the parser takes as a whole.\<close>

definition plain_name :: "string \<Rightarrow> bool" where
  "plain_name k = (k \<noteq> [] \<and> hd k \<noteq> CHR ''-'' \<and> CHR ''='' \<notin> set k)"

lemma split_flag_plain: "plain_name k \<Longrightarrow> split_flag k = (k, None)"
  by (cases k) (auto simp: plain_name_def split_flag_def Let_def takeWhile_eq_all_conv)

lemma flag_arg_plain: "plain_name k \<Longrightarrow> flag_arg (''--'' @ k) = FlagArg k"
  by (simp add: plain_name_def flag_arg_def)

lemma plain_name_head: "plain_name k \<Longrightarrow> k \<noteq> [] \<and> hd k \<noteq> CHR ''-'' \<and> hd k \<noteq> CHR ''=''"
  by (cases k) (auto simp: plain_name_def)

lemma parse_flags_value:
  "plain_name k \<Longrightarrow> map_of fs k = Some v \<Longrightarrow> \<not> is_bool_flag v \<Longrightarrow> set_flag v x = Some v' \<Longrightarrow>
   parse_flags fs ((''--'' @ k) # x # rest) = parse_flags (AList.update k v' fs) rest"
  using plain_name_head [of k] by (simp add: flag_arg_plain split_flag_plain del: append.simps)

lemma parse_flags_bool:
  "plain_name k \<Longrightarrow> map_of fs k = Some (FlagBool b) \<Longrightarrow>
   parse_flags fs ((''--'' @ k) # rest) = parse_flags (AList.update k (FlagBool True) fs) rest"
  using plain_name_head [of k]
  by (simp add: flag_arg_plain split_flag_plain is_bool_flag_def set_flag_def parse_bool_def del: append.simps)

text \<open>Flags given by name and value, in any order: the last value of each counts.\<close>

definition flag_pairs :: "(string \<times> string) list \<Rightarrow> string list" where
  "flag_pairs kvs = concat (map (\<lambda>(k, v). [''--'' @ k, v]) kvs)"

fun put_flags :: "(string \<times> string) list \<Rightarrow> flag_set \<Rightarrow> flag_set option" where
  "put_flags [] fs = Some fs"
| "put_flags ((k, x) # kvs) fs =
     (case map_of fs k of
        None \<Rightarrow> None
      | Some v \<Rightarrow>
          (if \<not> plain_name k \<or> is_bool_flag v then None
           else Option.bind (set_flag v x) (\<lambda>v'. put_flags kvs (AList.update k v' fs))))"

theorem parse_flag_pairs: "put_flags kvs fs = Some fs' \<Longrightarrow> parse_flags fs (flag_pairs kvs) = Inr (fs', [])"
proof (induction kvs arbitrary: fs)
  case Nil
  then show ?case by (simp add: flag_pairs_def)
next
  case (Cons kx kvs)
  obtain k x where kx: "kx = (k, x)" by (cases kx)
  from Cons.prems obtain v v' where v: "map_of fs k = Some v" "plain_name k" "\<not> is_bool_flag v"
      "set_flag v x = Some v'" and rest: "put_flags kvs (AList.update k v' fs) = Some fs'"
    by (auto simp: kx split: option.splits if_splits bind_splits)
  have "flag_pairs (kx # kvs) = (''--'' @ k) # x # flag_pairs kvs" by (simp add: kx flag_pairs_def)
  then show ?case using parse_flags_value [OF v(2,1,3,4)] Cons.IH [OF rest] by metis
qed

end
