(* ===== verification/CliBase.thy ===== *)
theory CliBase
  imports GoFlag GoCodec
begin

section \<open>What the commands share (\<open>internal/cli\<close>)\<close>

text \<open>
  A command takes its arguments and the world to an exit code and what it wrote to the two streams.
  The agent is reached over HTTP: the client of \<open>net/http\<close> is a parameter, and the bytes of a
  response come in the pieces in which they arrive. The other fields of \<open>cli_env\<close> are the text
  that the \<open>flag\<close> package prints for an error, \<open>strconv.Quote\<close>, the reading of JSON numbers as
  floats and their conversion to \<open>int\<close>, and the text of an error of \<open>http.NewRequest\<close>.
\<close>

subsection \<open>Results\<close>

record cli_out =
  co_code :: int
  co_out :: string
  co_err :: string

definition nl :: string where
  "nl = [CHR 0x0A]"

definition text_lines :: "string list \<Rightarrow> string" where
  "text_lines ls = concat (map (\<lambda>l. l @ nl) ls)"

definition cli_ok :: "string \<Rightarrow> cli_out" where
  "cli_ok out = \<lparr>co_code = 0, co_out = out, co_err = []\<rparr>"

definition cli_fail :: "string \<Rightarrow> cli_out" where
  "cli_fail err = \<lparr>co_code = 1, co_out = [], co_err = err @ nl\<rparr>"

subsection \<open>The environment\<close>

record http_call =
  hc_method :: string
  hc_url :: string
  hc_content_type :: string
  hc_body :: string

record http_reply =
  hr_status :: int
  hr_chunks :: "string list"

record 'w cli_env =
  ce_ft :: float_text
  ce_trunc :: "string \<Rightarrow> int"
  ce_http :: "http_call \<Rightarrow> 'w \<Rightarrow> (string + http_reply) \<times> 'w"
  ce_bad_url :: "string \<Rightarrow> string option"
  ce_flag_text :: "string \<Rightarrow> flag_error \<Rightarrow> string"
  ce_quote :: "string \<Rightarrow> string"

definition default_addr :: string where
  "default_addr = ''127.0.0.1:41778''"

definition with_flags :: "('w, 'x) cli_env_scheme \<Rightarrow> string \<Rightarrow> flag_set \<Rightarrow> string list \<Rightarrow>
    (flag_set \<Rightarrow> string list \<Rightarrow> 'w \<Rightarrow> cli_out \<times> 'w) \<Rightarrow> 'w \<Rightarrow> cli_out \<times> 'w" where
  "with_flags env name fs args k w =
     (case parse_flags fs args of
        Inl err \<Rightarrow> (\<lparr>co_code = 1, co_out = [], co_err = ce_flag_text env name err\<rparr>, w)
      | Inr (fs', rest) \<Rightarrow> k fs' rest w)"

subsection \<open>Replies of the agent\<close>

definition reply_body :: "http_reply \<Rightarrow> string" where
  "reply_body r = concat (hr_chunks r)"

text \<open>\<open>json.NewDecoder(resp.Body).Decode(&result)\<close> into a nil map; an error is ignored.\<close>

definition result_map :: "float_text \<Rightarrow> http_reply \<Rightarrow> json gomap" where
  "result_map ft r = snd (decode_body (dec_map_any ft) (reply_body r) None)"

definition call_agent :: "('w, 'x) cli_env_scheme \<Rightarrow> http_call \<Rightarrow> 'w \<Rightarrow> (string + int \<times> json gomap) \<times> 'w" where
  "call_agent env c w =
     (case ce_http env c w of
        (Inl err, w') \<Rightarrow> (Inl err, w')
      | (Inr r, w') \<Rightarrow> (Inr (hr_status r, result_map (ce_ft env) r), w'))"

definition post_json :: "string \<Rightarrow> string \<Rightarrow> http_call" where
  "post_json url body = \<lparr>hc_method = ''POST'', hc_url = url, hc_content_type = ''application/json'', hc_body = body\<rparr>"

definition agent_url :: "string \<Rightarrow> string \<Rightarrow> string" where
  "agent_url addr path = ''http://'' @ addr @ path"

definition unreachable :: "string \<Rightarrow> string \<Rightarrow> string \<Rightarrow> cli_out" where
  "unreachable cmd addr err = cli_fail (cmd @ '': cannot reach agent at '' @ addr @ '': '' @ err)"

text \<open>Type assertions on the values of a decoded map; the zero value when they fail.\<close>

definition map_get :: "json gomap \<Rightarrow> string \<Rightarrow> json" where
  "map_get m k = (case map_of (entries m) k of None \<Rightarrow> JNull | Some v \<Rightarrow> v)"

definition as_str :: "json \<Rightarrow> string" where
  "as_str v = (case v of JStr s \<Rightarrow> s | _ \<Rightarrow> [])"

definition as_bool :: "json \<Rightarrow> bool" where
  "as_bool v = (case v of JBool b \<Rightarrow> b | _ \<Rightarrow> False)"

definition as_map :: "json \<Rightarrow> json gomap" where
  "as_map v = (case v of JObj ms \<Rightarrow> Some ms | _ \<Rightarrow> None)"

definition as_list :: "json \<Rightarrow> json list" where
  "as_list v = (case v of JArr vs \<Rightarrow> vs | _ \<Rightarrow> [])"

text \<open>\<open>int(f)\<close> of a \<open>float64\<close>, 0 when the value is no number.\<close>

definition as_int :: "('w, 'x) cli_env_scheme \<Rightarrow> json \<Rightarrow> int" where
  "as_int env v = (case v of JNum t \<Rightarrow> ce_trunc env t | _ \<Rightarrow> 0)"

text \<open>The message that a command shows for an error reply.\<close>

definition api_message :: "json gomap \<Rightarrow> string" where
  "api_message result =
     (case as_map (map_get result ''error'') of
        None \<Rightarrow> ''unknown error''
      | Some d \<Rightarrow> (case map_get (Some d) ''message'' of JStr m \<Rightarrow> m | _ \<Rightarrow> ''unknown error''))"

subsection \<open>Columns\<close>

text \<open>\<open>utf8.RuneCountInString\<close>: an invalid byte counts as one.\<close>

function rune_count :: "string \<Rightarrow> nat" where
  "rune_count [] = 0"
| "rune_count (c # s) = Suc (rune_count (drop (utf8_len (c # s) - 1) s))"
  by pat_completeness auto
termination by (relation "measure length") auto

text \<open>\<open>fmt\<close>'s \<open>%-ns\<close>.\<close>

definition pad_right :: "nat \<Rightarrow> string \<Rightarrow> string" where
  "pad_right n s = s @ replicate (n - rune_count s) CHR '' ''"

subsection \<open>Reading what the agent writes\<close>

lemma reply_body_single [simp]: "reply_body \<lparr>hr_status = st, hr_chunks = [b]\<rparr> = b"
  by (simp add: reply_body_def)

lemma as_simps [simp]:
  "as_str (JStr s) = s" "as_bool (JBool b) = b" "as_map (JObj ms) = Some ms" "as_list (JArr vs) = vs"
  "as_map JNull = None" "as_list JNull = []" "as_str JNull = []" "as_bool JNull = False"
  "as_int env JNull = 0" "as_int env (JNum t) = ce_trunc env t"
  by (simp_all add: as_str_def as_bool_def as_map_def as_list_def as_int_def)

end
