(* ===== verification/CliFault.thy ===== *)
theory CliFault
  imports CliBase
begin

section \<open>The \<open>fault\<close> command (\<open>internal/cli/cmd_fault.go\<close>)\<close>

text \<open>
  The five subcommands. Each reads its flags, makes one call to the agent and reports the outcome;
  \<open>fault list\<close> prints a table. \<open>json.Marshal\<close> writes the keys of a map in their order, which is the
  order in which \<open>create_body\<close> lists them.
\<close>

subsection \<open>\<open>formatMatch\<close>\<close>

definition match_parts :: "json gomap \<Rightarrow> string list" where
  "match_parts m =
     (let svc = as_str (map_get m ''service''); meth = as_str (map_get m ''method'');
          prefix = as_str (map_get m ''pathPrefix''); path = as_str (map_get m ''path'') in
      (if svc \<noteq> [] then [''svc='' @ svc] else []) @
      (if meth \<noteq> [] then [meth] else []) @
      (if prefix \<noteq> [] then [prefix @ ''*''] else []) @
      (if path \<noteq> [] then [path] else []))"

definition format_match :: "json gomap \<Rightarrow> string" where
  "format_match m =
     (if m = None then ''*''
      else let parts = match_parts m in
        if length parts = 0 then ''*''
        else let result = join '' '' parts in
          if length result > 25 then take 22 result @ ''...'' else result)"

subsection \<open>\<open>fault list\<close>\<close>

definition list_row :: "string list \<Rightarrow> string" where
  "list_row cs =
     (case cs of
        [a, b, c, d, e, f] \<Rightarrow>
          join '' '' [pad_right 12 a, pad_right 20 b, pad_right 10 c, pad_right 25 d, pad_right 8 e, f] @ nl
      | _ \<Rightarrow> [])"

definition rule_row_text :: "('w, 'x) cli_env_scheme \<Rightarrow> json gomap \<Rightarrow> string" where
  "rule_row_text env rule =
     (let i = as_str (map_get rule ''id'') in
      list_row [if length i > 12 then take 12 i else i, as_str (map_get rule ''name''),
        as_str (map_get rule ''kind''), format_match (as_map (map_get rule ''match'')),
        if as_bool (map_get rule ''enabled'') then ''yes'' else ''no'',
        dec_int (as_int env (map_get rule ''hitCount''))])"

definition item_row :: "('w, 'x) cli_env_scheme \<Rightarrow> json \<Rightarrow> string" where
  "item_row env item = (case as_map item of None \<Rightarrow> [] | Some ms \<Rightarrow> rule_row_text env (Some ms))"

definition fault_list :: "('w, 'x) cli_env_scheme \<Rightarrow> string list \<Rightarrow> 'w \<Rightarrow> cli_out \<times> 'w" where
  "fault_list env args = with_flags env ''fault list'' [(''addr'', FlagString default_addr)] args (\<lambda>fs rest w.
     (let addr = flag_str fs ''addr'' in
      case call_agent env \<lparr>hc_method = ''GET'', hc_url = agent_url addr ''/api/fault-rules'',
             hc_content_type = [], hc_body = []\<rparr> w of
        (Inl err, w') \<Rightarrow> (unreachable ''localcloud fault list'' addr err, w')
      | (Inr (status, result), w') \<Rightarrow>
          (let items = as_list (map_get result ''items'') in
           (cli_ok (if length items = 0 then ''No fault rules configured.'' @ nl
              else list_row [''ID'', ''NAME'', ''KIND'', ''MATCH'', ''ENABLED'', ''HITS''] @
                concat (map (item_row env) items)), w'))))"

subsection \<open>\<open>fault create\<close>\<close>

definition create_flags :: flag_set where
  "create_flags =
     [(''name'', FlagString []), (''kind'', FlagString []), (''scope'', FlagString ''both''),
      (''service'', FlagString []), (''method'', FlagString []), (''path-prefix'', FlagString []),
      (''status-code'', FlagInt 0), (''delay-ms'', FlagInt 0), (''reason'', FlagString []),
      (''max-hits'', FlagInt 0), (''expires-after'', FlagString []), (''addr'', FlagString default_addr)]"

definition put_positive :: "string \<Rightarrow> int \<Rightarrow> (string \<times> json) list" where
  "put_positive k n = (if n > 0 then [(k, enc_num n)] else [])"

definition create_body :: "flag_set \<Rightarrow> json" where
  "create_body fs = JObj
     [(''action'', JObj (put_positive ''delayMs'' (flag_int fs ''delay-ms'') @
         omit_str ''reason'' (flag_str fs ''reason'') @
         put_positive ''statusCode'' (flag_int fs ''status-code''))),
      (''enabled'', JBool True),
      (''kind'', JStr (flag_str fs ''kind'')),
      (''match'', JObj (omit_str ''method'' (flag_str fs ''method'') @
         omit_str ''pathPrefix'' (flag_str fs ''path-prefix'') @
         omit_str ''service'' (flag_str fs ''service''))),
      (''name'', JStr (flag_str fs ''name'')),
      (''safety'', JObj (omit_str ''expiresAfter'' (flag_str fs ''expires-after'') @
         put_positive ''maxHits'' (flag_int fs ''max-hits''))),
      (''scope'', JStr (flag_str fs ''scope''))]"

definition fault_create :: "('w, 'x) cli_env_scheme \<Rightarrow> string list \<Rightarrow> 'w \<Rightarrow> cli_out \<times> 'w" where
  "fault_create env args = with_flags env ''fault create'' create_flags args (\<lambda>fs rest w.
     (if flag_str fs ''name'' = [] \<or> flag_str fs ''kind'' = []
      then (cli_fail ''localcloud fault create: --name and --kind are required'', w)
      else let addr = flag_str fs ''addr'' in
        case call_agent env (post_json (agent_url addr ''/api/fault-rules'') (json_print (create_body fs))) w of
          (Inl err, w') \<Rightarrow> (unreachable ''localcloud fault create'' addr err, w')
        | (Inr (status, result), w') \<Rightarrow>
            (if status \<noteq> 201 then (cli_fail (''localcloud fault create: '' @ api_message result), w')
             else (cli_ok (''Fault rule created: '' @ flag_str fs ''name'' @ '' ('' @
                     as_str (map_get result ''id'') @ '')'' @ nl), w'))))"

subsection \<open>\<open>fault enable\<close>, \<open>fault disable\<close>, \<open>fault delete\<close>\<close>

definition fault_set_enabled :: "('w, 'x) cli_env_scheme \<Rightarrow> string list \<Rightarrow> bool \<Rightarrow> 'w \<Rightarrow> cli_out \<times> 'w" where
  "fault_set_enabled env args enabled =
     with_flags env ''fault enable/disable'' [(''addr'', FlagString default_addr)] args (\<lambda>fs rest w.
       (case rest of
          [] \<Rightarrow> (cli_fail ''localcloud fault enable/disable: rule ID is required'', w)
        | rule # _ \<Rightarrow>
            (let addr = flag_str fs ''addr''; url = agent_url addr (''/api/fault-rules/'' @ rule) in
             case ce_bad_url env url of
               Some err \<Rightarrow> (cli_fail (''localcloud fault: '' @ err), w)
             | None \<Rightarrow>
                 (case call_agent env \<lparr>hc_method = ''PATCH'', hc_url = url, hc_content_type = ''application/json'',
                         hc_body = json_print (JObj [(''enabled'', JBool enabled)])\<rparr> w of
                    (Inl err, w') \<Rightarrow> (unreachable ''localcloud fault'' addr err, w')
                  | (Inr (status, result), w') \<Rightarrow>
                      (if status = 200 then (cli_ok (''Fault rule '' @ (if enabled then ''enabled'' else ''disabled'')
                            @ '': '' @ rule @ nl), w')
                       else (cli_fail (''localcloud fault: failed to update rule (status '' @ dec_int status @ '')''), w'))))))"

definition fault_delete :: "('w, 'x) cli_env_scheme \<Rightarrow> string list \<Rightarrow> 'w \<Rightarrow> cli_out \<times> 'w" where
  "fault_delete env args =
     with_flags env ''fault delete'' [(''addr'', FlagString default_addr)] args (\<lambda>fs rest w.
       (case rest of
          [] \<Rightarrow> (cli_fail ''localcloud fault delete: rule ID is required'', w)
        | rule # _ \<Rightarrow>
            (let addr = flag_str fs ''addr''; url = agent_url addr (''/api/fault-rules/'' @ rule) in
             case ce_bad_url env url of
               Some err \<Rightarrow> (cli_fail (''localcloud fault: '' @ err), w)
             | None \<Rightarrow>
                 (case call_agent env \<lparr>hc_method = ''DELETE'', hc_url = url, hc_content_type = [], hc_body = []\<rparr> w of
                    (Inl err, w') \<Rightarrow> (unreachable ''localcloud fault'' addr err, w')
                  | (Inr (status, result), w') \<Rightarrow>
                      (if status = 200 then (cli_ok (''Fault rule deleted: '' @ rule @ nl), w')
                       else (cli_fail (''localcloud fault: failed to delete rule (status '' @ dec_int status @ '')''), w'))))))"

subsection \<open>Dispatch\<close>

definition fault_usage :: string where
  "fault_usage = text_lines
     [''Usage: localcloud fault <subcommand> [flags]'', '''', ''Subcommands:'',
      ''  list      List all fault rules'',
      ''  create    Create a new fault rule'',
      ''  enable    Enable a fault rule by ID'',
      ''  disable   Disable a fault rule by ID'',
      ''  delete    Delete a fault rule by ID'']"

definition cmd_fault :: "('w, 'x) cli_env_scheme \<Rightarrow> string list \<Rightarrow> 'w \<Rightarrow> cli_out \<times> 'w" where
  "cmd_fault env args w =
     (case args of
        [] \<Rightarrow> (\<lparr>co_code = 1, co_out = [], co_err = fault_usage\<rparr>, w)
      | sub # rest \<Rightarrow>
          (if sub = ''list'' then fault_list env rest w
           else if sub = ''create'' then fault_create env rest w
           else if sub = ''enable'' then fault_set_enabled env rest True w
           else if sub = ''disable'' then fault_set_enabled env rest False w
           else if sub = ''delete'' then fault_delete env rest w
           else (\<lparr>co_code = 1, co_out = [],
                  co_err = ''localcloud fault: unknown subcommand '' @ ce_quote env sub @ nl @ fault_usage\<rparr>, w)))"

end
