(* ===== verification/CliScenario.thy ===== *)
theory CliScenario
  imports CliBase
begin

section \<open>Recording, replay and export from the command line\<close>

text \<open>
  \<open>cmd_record.go\<close>, \<open>cmd_replay.go\<close> and \<open>cmd_export.go\<close>. The export copies the body of the response
  in the pieces in which it arrives to the standard output or to a file that the environment
  creates; \<open>read_loop\<close> is the loop of reads with its buffer.
\<close>

record 'w file_env = "'w cli_env" +
  fe_create :: "string \<Rightarrow> 'w \<Rightarrow> string option \<times> 'w"
  fe_append :: "string \<Rightarrow> string \<Rightarrow> 'w \<Rightarrow> 'w"

subsection \<open>\<open>record\<close> and \<open>stop\<close>\<close>

definition record_flags :: flag_set where
  "record_flags = [(''name'', FlagString []), (''desc'', FlagString []), (''tags'', FlagString []),
     (''addr'', FlagString default_addr)]"

definition tag_list :: "string \<Rightarrow> string goslice" where
  "tag_list tags = (if tags = [] then None else Some (map trim_space (split_char tags (CHR '',''))))"

definition record_body :: "flag_set \<Rightarrow> json" where
  "record_body fs = JObj [(''description'', JStr (flag_str fs ''desc'')), (''name'', JStr (flag_str fs ''name'')),
     (''tags'', enc_slice JStr (tag_list (flag_str fs ''tags'')))]"

definition cmd_record :: "('w, 'x) cli_env_scheme \<Rightarrow> string list \<Rightarrow> 'w \<Rightarrow> cli_out \<times> 'w" where
  "cmd_record env args = with_flags env ''record'' record_flags args (\<lambda>fs rest w.
     (if flag_str fs ''name'' = [] then (cli_fail ''localcloud record: --name is required'', w)
      else let addr = flag_str fs ''addr'' in
        case call_agent env (post_json (agent_url addr ''/api/scenarios/start'') (json_print (record_body fs))) w of
          (Inl err, w') \<Rightarrow> (unreachable ''localcloud record'' addr err, w')
        | (Inr (status, result), w') \<Rightarrow>
            (if status \<noteq> 201 then (cli_fail (''localcloud record: '' @ api_message result), w')
             else (cli_ok (''Recording started: '' @ flag_str fs ''name'' @ nl @
                (case map_get result ''id'' of JStr i \<Rightarrow> ''  Scenario ID: '' @ i @ nl | _ \<Rightarrow> []) @
                text_lines [''  All captured events will be tagged to this scenario.'',
                  ''  Run '' @ [CHR 0x27] @ ''localcloud stop'' @ [CHR 0x27] @ '' to finish recording.'']), w'))))"

definition cmd_stop :: "('w, 'x) cli_env_scheme \<Rightarrow> string list \<Rightarrow> 'w \<Rightarrow> cli_out \<times> 'w" where
  "cmd_stop env args = with_flags env ''stop'' [(''addr'', FlagString default_addr)] args (\<lambda>fs rest w.
     (let addr = flag_str fs ''addr'' in
      case call_agent env (post_json (agent_url addr ''/api/scenarios/stop'') ''{}'') w of
        (Inl err, w') \<Rightarrow> (unreachable ''localcloud stop'' addr err, w')
      | (Inr (status, result), w') \<Rightarrow>
          (if status \<noteq> 200 then (cli_fail (''localcloud stop: '' @ api_message result), w')
           else (cli_ok (text_lines
              [''Recording stopped: '' @ as_str (map_get result ''name''),
               ''  Events captured: '' @ dec_int (as_int env (map_get result ''eventCount'')),
               ''  Replayable:      '' @ dec_int (as_int env (map_get result ''replayableCount''))]), w'))))"

subsection \<open>\<open>replay\<close>\<close>

definition replay_flags :: flag_set where
  "replay_flags = [(''scenario'', FlagString []), (''base-url'', FlagString []), (''skip-unsafe'', FlagBool False),
     (''confirm-unsafe'', FlagBool False), (''addr'', FlagString default_addr)]"

definition replay_call_body :: "flag_set \<Rightarrow> json" where
  "replay_call_body fs = JObj [(''baseUrl'', JStr (flag_str fs ''base-url'')),
     (''confirmUnsafe'', JBool (flag_bool fs ''confirm-unsafe'')),
     (''skipUnsafe'', JBool (flag_bool fs ''skip-unsafe''))]"

definition diff_text :: "('w, 'x) cli_env_scheme \<Rightarrow> json gomap \<Rightarrow> string" where
  "diff_text env d =
     (let err = as_str (map_get d ''error'');
          status = (if \<not> as_bool (map_get d ''statusMatch'') \<or> err \<noteq> [] then ''FAIL'' else ''PASS'') in
      nl @ ''  '' @ status @ '' '' @ as_str (map_get d ''method'') @ '' '' @ as_str (map_get d ''path'') @
      ''  original='' @ dec_int (as_int env (map_get d ''originalStatus'')) @
      '' replay='' @ dec_int (as_int env (map_get d ''replayStatus'')) @
      (if err \<noteq> [] then ''  error='' @ err else []))"

definition replay_report :: "('w, 'x) cli_env_scheme \<Rightarrow> json gomap \<Rightarrow> string" where
  "replay_report env result =
     text_lines ([''Replay completed: '' @ as_str (map_get result ''runId''),
       ''  Total:   '' @ dec_int (as_int env (map_get result ''total'')),
       ''  Passed:  '' @ dec_int (as_int env (map_get result ''passed'')),
       ''  Failed:  '' @ dec_int (as_int env (map_get result ''failed''))] @
       (if as_int env (map_get result ''skipped'') > 0
        then [''  Skipped: '' @ dec_int (as_int env (map_get result ''skipped''))] else [])) @
     concat (map (\<lambda>d. case as_map d of None \<Rightarrow> [] | Some ms \<Rightarrow> diff_text env (Some ms))
       (as_list (map_get result ''diffs''))) @ nl"

definition cmd_replay :: "('w, 'x) cli_env_scheme \<Rightarrow> string list \<Rightarrow> 'w \<Rightarrow> cli_out \<times> 'w" where
  "cmd_replay env args = with_flags env ''replay'' replay_flags args (\<lambda>fs rest w.
     (if flag_str fs ''scenario'' = [] then (cli_fail ''localcloud replay: --scenario is required'', w)
      else if flag_str fs ''base-url'' = [] then (cli_fail ''localcloud replay: --base-url is required'', w)
      else let addr = flag_str fs ''addr'' in
        case call_agent env (post_json (agent_url addr (''/api/scenarios/'' @ flag_str fs ''scenario'' @ ''/replay''))
               (json_print (replay_call_body fs))) w of
          (Inl err, w') \<Rightarrow> (unreachable ''localcloud replay'' addr err, w')
        | (Inr (status, result), w') \<Rightarrow>
            (if status \<noteq> 200 then (cli_fail (''localcloud replay: '' @ api_message result), w')
             else (\<lparr>co_code = (if as_int env (map_get result ''failed'') > 0 then 1 else 0),
                     co_out = replay_report env result, co_err = []\<rparr>, w'))))"

subsection \<open>\<open>export\<close>\<close>

text \<open>
  The reads of a body that arrives in pieces: each takes what fits in the buffer from the piece at
  hand; a piece without bytes is a read of nothing, and the end is the error that stops the loop.
\<close>

function read_loop :: "nat \<Rightarrow> string list \<Rightarrow> string list" where
  "read_loop k [] = []"
| "read_loop k (c # cs) =
     (if c = [] \<or> k = 0 then read_loop k cs else take k c # read_loop k (drop k c # cs))"
  by pat_completeness auto
termination by (relation "measure (\<lambda>(k, cs). length (concat cs) + length cs)") auto

declare read_loop.simps(2) [simp del]

definition first_read :: "nat \<Rightarrow> string list \<Rightarrow> string" where
  "first_read k cs = (case cs of [] \<Rightarrow> [] | c # _ \<Rightarrow> take k c)"

definition export_flags :: flag_set where
  "export_flags = [(''scenario'', FlagString []), (''output'', FlagString []), (''addr'', FlagString default_addr)]"

definition write_export :: "('w, 'x) file_env_scheme \<Rightarrow> string \<Rightarrow> string list \<Rightarrow> 'w \<Rightarrow> cli_out \<times> 'w" where
  "write_export env output chunks w =
     (let pieces = read_loop 32768 chunks in
      if output = [] then (cli_ok (concat pieces), w)
      else case fe_create env output w of
        (Some err, w') \<Rightarrow> (cli_fail (''localcloud export: cannot create file: '' @ err), w')
      | (None, w') \<Rightarrow>
          (\<lparr>co_code = 0, co_out = [], co_err = ''Exported to '' @ output @ nl\<rparr>,
           foldl (\<lambda>w' p. fe_append env output p w') w' pieces))"

definition cmd_export :: "('w, 'x) file_env_scheme \<Rightarrow> string list \<Rightarrow> 'w \<Rightarrow> cli_out \<times> 'w" where
  "cmd_export env args = with_flags env ''export'' export_flags args (\<lambda>fs rest w.
     (if flag_str fs ''scenario'' = [] then (cli_fail ''localcloud export: --scenario is required'', w)
      else let addr = flag_str fs ''addr'' in
        case ce_http env (post_json (agent_url addr (''/api/scenarios/'' @ flag_str fs ''scenario'' @ ''/export'')) []) w of
          (Inl err, w') \<Rightarrow> (unreachable ''localcloud export'' addr err, w')
        | (Inr r, w') \<Rightarrow>
            (if hr_status r \<noteq> 200
             then (cli_fail (''localcloud export: '' @ first_read 1024 (hr_chunks r)), w')
             else write_export env (flag_str fs ''output'') (hr_chunks r) w')))"

lemma read_loop_complete: "0 < k \<Longrightarrow> concat (read_loop k cs) = concat cs"
proof (induction k cs rule: read_loop.induct)
  case (2 k c cs)
  then show ?case by (simp add: read_loop.simps(2) [of k c cs] flip: append_assoc)
qed simp

lemma read_loop_buffer: "p \<in> set (read_loop k cs) \<Longrightarrow> p \<noteq> [] \<and> length p \<le> k"
proof (induction k cs rule: read_loop.induct)
  case (2 k c cs)
  then show ?case by (auto simp: read_loop.simps(2) [of k c cs] split: if_splits)
qed simp

end
