(* ===== verification/CliAgent.thy ===== *)
theory CliAgent
  imports CliFault CliScenario Api
begin

section \<open>The commands against the Studio API\<close>

text \<open>
  What a command sends is what the API decodes, and what the API answers is what the command reports.
  \<open>reaches\<close> states that the client of the environment, given a URL made of plain segments at an
  address, hands the request to the API and returns its answer; it is the only assumption on the
  network here, and \<open>direct_client\<close> is a client for which it holds.
\<close>

subsection \<open>The bodies that the commands send\<close>

declare valid_utf8.simps(2) [simp del]

lemma put_positive_omit: "put_positive k n = omit_num k (max 0 n)"
  by (simp add: put_positive_def omit_num_def)

definition flags_utf8 :: "flag_set \<Rightarrow> bool" where
  "flags_utf8 fs = list_all (\<lambda>(k, v). case v of FlagString s \<Rightarrow> valid_utf8 s | FlagInt n \<Rightarrow> is_int64 n | FlagBool _ \<Rightarrow> True) fs"

lemma flags_utf8_values:
  assumes "flags_utf8 fs"
  shows "valid_utf8 (flag_str fs k)" "is_int64 (max 0 (flag_int fs k))"
proof -
  have "case v of FlagString s \<Rightarrow> valid_utf8 s | FlagInt n \<Rightarrow> is_int64 n | FlagBool _ \<Rightarrow> True"
    if "map_of fs k = Some v" for v
    using assms map_of_SomeD [OF that] by (auto simp: flags_utf8_def list_all_iff)
  then show "valid_utf8 (flag_str fs k)" "is_int64 (max 0 (flag_int fs k))"
    by (auto simp: flag_str_def flag_int_def is_int64_def max_def int64_min_def int64_max_def
        split: option.split flag_value.split)
qed

definition flags_match :: "flag_set \<Rightarrow> fault_match" where
  "flags_match fs = zero_match\<lparr>fm_service := flag_str fs ''service'', fm_method := flag_str fs ''method'',
     fm_path_prefix := flag_str fs ''path-prefix''\<rparr>"

definition flags_action :: "flag_set \<Rightarrow> fault_action" where
  "flags_action fs = zero_action\<lparr>fx_status_code := max 0 (flag_int fs ''status-code''),
     fx_delay_ms := max 0 (flag_int fs ''delay-ms''), fx_reason := flag_str fs ''reason''\<rparr>"

definition flags_safety :: "flag_set \<Rightarrow> fault_safety" where
  "flags_safety fs = zero_safety\<lparr>fs_max_hits := max 0 (flag_int fs ''max-hits''),
     fs_expires_after := flag_str fs ''expires-after''\<rparr>"

definition flags_rule :: "flag_set \<Rightarrow> fault_rule" where
  "flags_rule fs = zero_rule\<lparr>fr_name := flag_str fs ''name'', fr_enabled := True, fr_kind := flag_str fs ''kind'',
     fr_scope := flag_str fs ''scope'', fr_match := flags_match fs, fr_action := flags_action fs,
     fr_safety := flags_safety fs\<rparr>"

lemma create_parts_read:
  assumes "flags_utf8 fs"
  shows
    "dec_action ft (JObj (put_positive ''delayMs'' (flag_int fs ''delay-ms'') @
       omit_str ''reason'' (flag_str fs ''reason'') @
       put_positive ''statusCode'' (flag_int fs ''status-code''))) zero_action = (True, flags_action fs)"
    "dec_match (JObj (omit_str ''method'' (flag_str fs ''method'') @ omit_str ''pathPrefix'' (flag_str fs ''path-prefix'') @
       omit_str ''service'' (flag_str fs ''service''))) zero_match = (True, flags_match fs)"
    "dec_safety (JObj (omit_str ''expiresAfter'' (flag_str fs ''expires-after'') @
       put_positive ''maxHits'' (flag_int fs ''max-hits''))) zero_safety = (True, flags_safety fs)"
  using flags_utf8_values [OF assms]
  by (simp_all add: dec_action_def dec_match_def dec_safety_def dec_struct_def put_positive_omit fold_members
      zero_action_def action_field_simps zero_match_def match_field_simps zero_safety_def safety_field_simps
      flags_action_def flags_match_def flags_safety_def)

lemma create_body_ok:
  assumes "flags_utf8 fs"
  shows "json_ok (create_body fs)" "json_depth (create_body fs) \<le> max_nesting"
proof -
  have parts: "members_ok 1 (put_positive ''delayMs'' (flag_int fs ''delay-ms'') @
      omit_str ''reason'' (flag_str fs ''reason'') @ put_positive ''statusCode'' (flag_int fs ''status-code''))"
    "members_ok 1 (omit_str ''method'' (flag_str fs ''method'') @ omit_str ''pathPrefix'' (flag_str fs ''path-prefix'') @
       omit_str ''service'' (flag_str fs ''service''))"
    "members_ok 1 (omit_str ''expiresAfter'' (flag_str fs ''expires-after'') @
       put_positive ''maxHits'' (flag_int fs ''max-hits''))"
    using flags_utf8_values [OF assms] by (simp_all add: put_positive_omit members_ok_omit valid_utf8_literal)
  have "json_ok (create_body fs) \<and> json_depth (create_body fs) \<le> Suc 2"
    unfolding create_body_def using parts(1) [THEN members_ok_obj] parts(2) [THEN members_ok_obj] parts(3) [THEN members_ok_obj] flags_utf8_values [OF assms]
    by (intro members_ok_obj) (simp add: valid_utf8_literal numeral_2_eq_2 del: json_ok.simps(4) json_depth.simps(2))
  then show "json_ok (create_body fs)" "json_depth (create_body fs) \<le> max_nesting"
    by (simp_all add: max_nesting_def)
qed

lemma create_body_read:
  assumes "flags_utf8 fs"
  shows "decode_body (dec_rule ft) (json_print (create_body fs)) zero_rule = (True, flags_rule fs)"
proof -
  have "dec_rule ft (create_body fs) zero_rule = (True, flags_rule fs)"
    using create_parts_read(1) [OF assms, of ft] create_parts_read(2,3) [OF assms]
    by (simp add: create_body_def dec_rule_def dec_struct_def dec_member_def find_field_def at_field_def
        zero_rule_def flags_rule_def)
  then show ?thesis
    using json_decode_print [OF create_body_ok [OF assms]] by (simp add: decode_body_def)
qed

subsection \<open>What a reply reads as\<close>

lemma put_entries_snd:
  "snd (foldl (put_entry d z) acc ms) = foldl (\<lambda>m kv. AList.update (fst kv) (snd (d (snd kv) z)) m) (snd acc) ms"
  by (induction ms arbitrary: acc) (simp_all add: put_entry_def split_beta)

lemma map_of_updates:
  "map_of (foldl (\<lambda>m kv. AList.update (fst kv) (f (snd kv)) m) m0 ms) k =
   (case map_of (rev ms) k of None \<Rightarrow> map_of m0 k | Some v \<Rightarrow> Some (f v))"
  by (induction ms rule: rev_induct) (auto simp: update_conv split: option.splits)

lemma map_get_decoded:
  "map_get (snd (dec_map_any ft (JObj ms) None)) k =
   (case map_of (rev ms) k of None \<Rightarrow> JNull | Some v \<Rightarrow> snd (to_any ft v))"
proof -
  let ?r = "foldl (put_entry (dec_any ft) JNull) (True, []) ms"
  have "snd (dec_map_any ft (JObj ms) None) = Some (snd ?r)"
    by (simp add: dec_map_any_def dec_gomap_def apsnd_def map_prod_def split_beta)
  moreover have "map_of (snd ?r) k = (case map_of (rev ms) k of None \<Rightarrow> None | Some v \<Rightarrow> Some (snd (to_any ft v)))"
    unfolding put_entries_snd using map_of_updates [of "\<lambda>v. snd (to_any ft v)" "[]" ms k]
    by (simp add: dec_any_def split: option.split)
  ultimately show ?thesis by (simp add: map_get_def split: option.splits)
qed

lemma reply_get:
  assumes "json_ok (JObj ms)" "json_depth (JObj ms) \<le> max_nesting"
  shows "map_get (result_map ft \<lparr>hr_status = s, hr_chunks = [body_text (JsonBody (JObj ms))]\<rparr>) k =
    (case map_of (rev ms) k of None \<Rightarrow> JNull | Some v \<Rightarrow> snd (to_any ft v))"
  using json_decode_line [OF assms] map_get_decoded [of ft ms k]
  by (simp add: result_map_def decode_body_def body_text_def del: json_print.simps)

text \<open>The text of an instant is ASCII.\<close>

definition ascii :: "string \<Rightarrow> bool" where
  "ascii s = list_all (\<lambda>c. code c < 0x80) s"

lemma ascii_simps [simp]: "ascii (a @ b) \<longleftrightarrow> ascii a \<and> ascii b" "ascii []" "ascii (c # s) \<longleftrightarrow> code c < 0x80 \<and> ascii s"
  by (simp_all add: ascii_def)

lemma ascii_pad [simp]: "ascii (pad k n)"
proof -
  have "code c < 0x80" if "is_digit c" for c using that by (simp add: is_digit_def)
  then show ?thesis using dec_nat_digits [of _ "nat n"]
    by (auto simp: ascii_def pad_def Let_def list_all_iff)
qed

lemma ascii_trim [simp]: "ascii s \<Longrightarrow> ascii (trim_right s cs)"
  unfolding ascii_def trim_right_def list_all_iff by (auto dest: set_dropWhileD)

lemma time_json_ok [simp]: "json_ok (enc_time t)" "json_depth (enc_time t) = 0"
proof -
  have "ascii (rfc3339_seconds t')" for t'
    by (simp add: rfc3339_seconds_def Let_def split: prod.split)
  then have "ascii (rfc3339_nano t)" by (simp add: rfc3339_nano_def Let_def)
  then show "json_ok (enc_time t)" by (simp add: enc_time_def ascii_def valid_utf8_literal)
qed (simp add: enc_time_def)

lemma enc_rule_ok:
  assumes "valid_utf8 (fr_id r)" "valid_utf8 (fr_name r)" "valid_utf8 (fr_kind r)" "valid_utf8 (fr_scope r)"
    and "match_ok (fr_match r)" "action_ok ft (fr_action r)" "safety_ok (fr_safety r)"
    and "json_depth (enc_action (fr_action r)) < max_nesting" and "json_depth (enc_match (fr_match r)) < max_nesting"
    and "json_depth (enc_safety (fr_safety r)) < max_nesting"
  shows "json_ok (enc_rule r)" "json_depth (enc_rule r) \<le> max_nesting"
proof -
  have "json_depth (enc_action (fr_action r)) \<le> max_nesting - 1" "json_depth (enc_match (fr_match r)) \<le> max_nesting - 1"
    "json_depth (enc_safety (fr_safety r)) \<le> max_nesting - 1"
    using assms(8-10) by simp_all
  then have "json_ok (enc_rule r) \<and> json_depth (enc_rule r) \<le> Suc (max_nesting - 1)"
    unfolding enc_rule_def using assms(1-4) enc_match_ok [OF assms(5)] enc_action_ok [OF assms(6)] enc_safety_ok [OF assms(7)]
    by (intro members_ok_obj) (simp add: valid_utf8_literal omit_ptr_def split: option.split)
  then show "json_ok (enc_rule r)" "json_depth (enc_rule r) \<le> max_nesting"
    by (simp_all add: max_nesting_def)
qed

subsection \<open>An agent at an address\<close>

definition plain_char :: "char \<Rightarrow> bool" where
  "plain_char c = (is_digit c \<or> is_lower c \<or> is_upper c \<or> c = CHR ''_'' \<or> c = CHR ''-'')"

definition plain_segment :: "string \<Rightarrow> bool" where
  "plain_segment s = (s \<noteq> [] \<and> list_all plain_char s)"

definition path_text :: "string list \<Rightarrow> string" where
  "path_text segs = concat (map (\<lambda>s. CHR ''/'' # s) segs)"

definition agent_request :: "string \<Rightarrow> string list \<Rightarrow> string \<Rightarrow> api_request" where
  "agent_request m segs body = \<lparr>aq_method = m, aq_segments = segs, aq_query = [], aq_origin = [], aq_body = body\<rparr>"

definition answered :: "answer \<times> 'w \<times> db \<Rightarrow> (string + http_reply) \<times> 'w \<times> db" where
  "answered r = (Inr \<lparr>hr_status = an_status (fst r), hr_chunks = [body_text (an_body (fst r))]\<rparr>, snd r)"

definition reaches :: "('w \<times> db, 'x) cli_env_scheme \<Rightarrow> 'w api_env \<Rightarrow> string \<Rightarrow> bool" where
  "reaches env aenv addr \<longleftrightarrow> (\<forall>m segs ct body st. list_all plain_segment segs \<longrightarrow>
     ce_http env \<lparr>hc_method = m, hc_url = agent_url addr (path_text segs), hc_content_type = ct, hc_body = body\<rparr> st =
     answered (serve_api aenv (agent_request m segs body) st))"

lemma reachesD:
  "reaches env aenv addr \<Longrightarrow> list_all plain_segment segs \<Longrightarrow> p = path_text segs \<Longrightarrow>
   ce_http env \<lparr>hc_method = m, hc_url = agent_url addr p, hc_content_type = ct, hc_body = body\<rparr> st =
   answered (serve_api aenv (agent_request m segs body) st)"
  unfolding reaches_def by blast

lemma no_cors [simp]: "cors_headers [] = []"
  by (simp add: cors_headers_def)

lemma serve_agent_request:
  "m \<noteq> ''OPTIONS'' \<Longrightarrow> serve_api aenv (agent_request m segs body) st =
     serve_routes aenv (agent_request m segs body) st"
  by (cases "serve_routes aenv (agent_request m segs body) st")
    (simp add: serve_api_def agent_request_def Let_def)

text \<open>A client for which the assumption holds: it reads the path of the URL back.\<close>

definition direct_client :: "'w api_env \<Rightarrow> string \<Rightarrow> http_call \<Rightarrow> 'w \<times> db \<Rightarrow> (string + http_reply) \<times> 'w \<times> db" where
  "direct_client aenv addr c st =
     (let pre = ''http://'' @ addr in
      if has_prefix (hc_url c) pre
      then answered (serve_api aenv (agent_request (hc_method c)
             (tl (split_char (drop (length pre) (hc_url c)) (CHR ''/''))) (hc_body c)) st)
      else (Inl ''no such host'', st))"

lemma split_path_text: "list_all plain_segment segs \<Longrightarrow> split_char (path_text segs) (CHR ''/'') = [] # segs"
proof -
  have plain: "split_char (s @ r) (CHR ''/'') = (s @ hd (split_char r (CHR ''/''))) # tl (split_char r (CHR ''/''))"
    if "list_all plain_char s" for s r
    using that
  proof (induction s)
    case Nil
    have "split_char r (CHR ''/'') \<noteq> []" by (induction r) (auto split: list.split)
    then show ?case by simp
  next
    case (Cons c s)
    then have "c \<noteq> CHR ''/''" by (auto simp: plain_char_def is_digit_def is_lower_def is_upper_def)
    with Cons show ?case by simp
  qed
  have "list_all plain_segment segs \<Longrightarrow> split_char (path_text segs) (CHR ''/'') = [] # segs"
  proof (induction segs)
    case Nil
    then show ?case by (simp add: path_text_def)
  next
    case (Cons x xs)
    then have "split_char (x @ path_text xs) (CHR ''/'') = x # xs"
      using plain [of x "path_text xs"] by (simp add: plain_segment_def)
    then show ?case by (simp add: path_text_def)
  qed
  then show "list_all plain_segment segs \<Longrightarrow> split_char (path_text segs) (CHR ''/'') = [] # segs" .
qed

lemma client_reaches: "ce_http env = direct_client aenv addr \<Longrightarrow> reaches env aenv addr"
proof -
  assume c: "ce_http env = direct_client aenv addr"
  have u: "agent_url addr p = (''http://'' @ addr) @ p" for p by (simp add: agent_url_def)
  then have pre: "has_prefix (agent_url addr p) (''http://'' @ addr)"
    "drop (length (''http://'' @ addr)) (agent_url addr p) = p" for p
    by (metis has_prefix_append, metis append_eq_conv_conj)
  have d: "direct_client aenv addr \<lparr>hc_method = m, hc_url = agent_url addr (path_text segs), hc_content_type = ct,
      hc_body = body\<rparr> st = answered (serve_api aenv (agent_request m segs body) st)"
    if "list_all plain_segment segs" for m segs ct body st
    by (simp only: direct_client_def Let_def http_call.select_convs pre if_True split_path_text [OF that] list.sel)
  show ?thesis unfolding reaches_def c using d by blast
qed

subsection \<open>\<open>fault create\<close> from end to end\<close>

definition created_rule :: "'w api_env \<Rightarrow> flag_set \<Rightarrow> fault_rule" where
  "created_rule aenv fs = (flags_rule fs)\<lparr>fr_id := ae_id aenv, fr_created_at := ae_now aenv, fr_updated_at := ae_now aenv\<rparr>"

lemma created_rule_ok:
  assumes "flags_utf8 fs" "valid_utf8 (ae_id aenv)"
  shows "json_ok (enc_rule (created_rule aenv fs))" "json_depth (enc_rule (created_rule aenv fs)) \<le> max_nesting"
proof -
  have parts: "match_ok (flags_match fs)" "safety_ok (flags_safety fs)" "action_ok Some (flags_action fs)"
    using flags_utf8_values [OF assms(1)]
    by (simp_all add: match_ok_def flags_match_def zero_match_def omap_ok_def is_int64_def safety_ok_def flags_safety_def
        zero_safety_def action_ok_def flags_action_def zero_action_def map_depth_def max_nesting_def
        int64_min_def int64_max_def)
  have "members_ok 0 (omit_gomap JStr k None)" "members_ok 0 (omit_gomap sort_keys k None)" for k
    by (simp_all add: omit_gomap_def)
  then have "json_depth (enc_match (flags_match fs)) \<le> 1" "json_depth (enc_safety (flags_safety fs)) \<le> 1"
    "json_depth (enc_action (flags_action fs)) \<le> 1"
    using flags_utf8_values [OF assms(1)]
      members_ok_obj [of 0 "omit_str k1 s1 @ omit_str k2 s2" for k1 s1 k2 s2]
    by (simp_all add: enc_match_def enc_safety_def enc_action_def flags_match_def flags_safety_def flags_action_def
        zero_match_def zero_safety_def zero_action_def omit_defs foldr_max_le)
  then show "json_ok (enc_rule (created_rule aenv fs))" "json_depth (enc_rule (created_rule aenv fs)) \<le> max_nesting"
    using enc_rule_ok [of "created_rule aenv fs" Some] parts assms(2) flags_utf8_values [OF assms(1)]
    by (simp_all add: created_rule_def flags_rule_def zero_rule_def max_nesting_def)
qed

lemma create_route: "serve_api aenv (agent_request ''POST'' [''api'', ''fault-rules''] body) (w, db) =
   (case handle_create_fault_rule aenv body db of (a, d) \<Rightarrow> (a, w, d))"
  by (simp add: serve_agent_request) (simp add: serve_routes_def agent_request_def api_routes_def method_matches_def on_db_def)

lemma create_path: "''/api/fault-rules'' = path_text [''api'', ''fault-rules'']"
  "list_all plain_segment [''api'', ''fault-rules'']"
  by (simp_all add: path_text_def plain_segment_def plain_char_def is_lower_def is_digit_def is_upper_def)

lemma call_create:
  assumes "reaches env aenv addr" "flags_utf8 fs"
  shows "call_agent env (post_json (agent_url addr ''/api/fault-rules'') (json_print (create_body fs))) (w, db) =
    (case handle_create_fault_rule aenv (json_print (create_body fs)) db of (a, d) \<Rightarrow>
       (Inr (an_status a, result_map (ce_ft env) \<lparr>hr_status = an_status a, hr_chunks = [body_text (an_body a)]\<rparr>), w, d))"
  using reachesD [OF assms(1) create_path(2,1), of "''POST''" "''application/json''" "json_print (create_body fs)" "(w, db)"]
  by (simp add: call_agent_def post_json_def create_route answered_def split: prod.split)

lemma create_handled:
  assumes "flags_utf8 fs"
  shows "handle_create_fault_rule aenv (json_print (create_body fs)) db =
    (case validate_rule (ae_fx aenv) (flags_rule fs) of
       err # _ \<Rightarrow> (write_error 400 ''validation_error'' err, db)
     | [] \<Rightarrow> (case rule_insert (created_rule aenv fs) db of
         (Inl err, d) \<Rightarrow> (storage_error aenv err, d)
       | (Inr _, d) \<Rightarrow> (write_json 201 (enc_rule (created_rule aenv fs)), d)))"
  unfolding handle_create_fault_rule_def create_body_read [OF assms] created_rule_def Let_def
  by (simp split: list.split)

lemma rule_insert_rules:
  "rule_insert r d = (Inl err, d') \<Longrightarrow> db_rules d' = db_rules d"
  "rule_insert r d = (Inr u, d') \<Longrightarrow> db_rules d' = db_rules d @ [rule_row_of r]"
proof -
  assume "rule_insert r d = (Inl err, d')"
  then have "same_tables d d'" using do_write_error [of "WRule r"] by simp
  then show "db_rules d' = db_rules d"
    unfolding same_tables_def by (metis db.select_convs(6) db.surjective db.update_convs(7))
next
  assume "rule_insert r d = (Inr u, d')"
  then show "db_rules d' = db_rules d @ [rule_row_of r]"
    unfolding rule_insert_def by (auto elim!: statement_done simp: insert_row_done)
qed

lemma created_id_shown:
  assumes "flags_utf8 fs" "valid_utf8 (ae_id aenv)"
  shows "as_str (map_get (result_map ft \<lparr>hr_status = s,
    hr_chunks = [body_text (JsonBody (enc_rule (created_rule aenv fs)))]\<rparr>) ''id'') = ae_id aenv"
proof -
  obtain ms where ms: "enc_rule (created_rule aenv fs) = JObj ((''id'', JStr (ae_id aenv)) # ms)" "''id'' \<notin> fst ` set ms"
    by (simp add: enc_rule_def created_rule_def flags_rule_def zero_rule_def omit_ptr_def)
  then have "map_of (rev ms) ''id'' = None" by (simp add: map_of_eq_None_iff)
  with ms show ?thesis using reply_get [of "(''id'', JStr (ae_id aenv)) # ms" ft s "''id''"] created_rule_ok [OF assms]
    by (simp add: map_add_def)
qed

text \<open>C34: \<open>fault create\<close> against an agent at its address: it succeeds exactly when the agent stored the
  rule, and the rule is the one that the flags describe, valid, under the identifier that the command
  prints. When it fails it exits with 1 and the rules of the agent are as they were.\<close>

theorem fault_create_end_to_end:
  assumes "parse_flags create_flags args = Inr (fs, rest)" and "flags_utf8 fs" and "valid_utf8 (ae_id aenv)"
    and "reaches env aenv (flag_str fs ''addr'')"
    and "flag_str fs ''name'' \<noteq> []" and "flag_str fs ''kind'' \<noteq> []"
    and "fault_create env args (w, db) = (out, w', db')"
  shows "w' = w \<and>
    (if co_code out = 0
     then validate_rule (ae_fx aenv) (created_rule aenv fs) = [] \<and>
       db_rules db' = db_rules db @ [rule_row_of (created_rule aenv fs)] \<and>
       co_out out = ''Fault rule created: '' @ flag_str fs ''name'' @ '' ('' @ ae_id aenv @ '')'' @ nl
     else co_code out = 1 \<and> db_rules db' = db_rules db)"
proof -
  let ?a = "handle_create_fault_rule aenv (json_print (create_body fs)) db"
  have run: "fault_create env args (w, db) =
      (let result = result_map (ce_ft env) \<lparr>hr_status = an_status (fst ?a), hr_chunks = [body_text (an_body (fst ?a))]\<rparr> in
       if an_status (fst ?a) \<noteq> 201 then (cli_fail (''localcloud fault create: '' @ api_message result), w, snd ?a)
       else (cli_ok (''Fault rule created: '' @ flag_str fs ''name'' @ '' ('' @ as_str (map_get result ''id'') @ '')'' @ nl),
         w, snd ?a))"
    using assms(5,6) call_create [OF assms(4,2), of w db]
    by (simp only: fault_create_def with_flags_def assms(1) sum.case prod.case Let_def split: prod.split) simp
  have val: "validate_rule fx (created_rule aenv fs) = validate_rule fx (flags_rule fs)" for fx
    by (simp add: validate_rule_def validate_kind_def created_rule_def)
  show ?thesis
  proof (cases "validate_rule (ae_fx aenv) (flags_rule fs)")
    case (Cons err errs)
    then have "an_status (fst ?a) = 400" "snd ?a = db"
      using create_handled [OF assms(2), of aenv db] by (simp_all add: write_error_def write_json_def)
    with run assms(7) show ?thesis by (auto simp: Let_def cli_fail_def)
  next
    case Nil
    obtain x d where i: "rule_insert (created_rule aenv fs) db = (x, d)" by (cases "rule_insert (created_rule aenv fs) db")
    show ?thesis
    proof (cases x)
      case (Inl e)
      with i Nil have "an_status (fst ?a) = 500" "snd ?a = d"
        using create_handled [OF assms(2), of aenv db] by (simp_all add: storage_error_def write_error_def write_json_def)
      with run assms(7) rule_insert_rules(1) i Inl show ?thesis by (auto simp: Let_def cli_fail_def)
    next
      case (Inr u)
      with i Nil have "?a = (write_json 201 (enc_rule (created_rule aenv fs)), d)"
        using create_handled [OF assms(2), of aenv db] by simp
      with run assms(7) rule_insert_rules(2) i Inr Nil val created_id_shown [OF assms(2,3)] show ?thesis
        by (auto simp: Let_def cli_ok_def write_json_def)
    qed
  qed
qed

definition loopback :: "'w api_env \<Rightarrow> ('w \<times> db) cli_env" where
  "loopback aenv =
     \<lparr>ce_ft = Some, ce_trunc = (\<lambda>t. case parse_int t of Some n \<Rightarrow> n | None \<Rightarrow> 0),
      ce_http = direct_client aenv default_addr, ce_bad_url = (\<lambda>u. None), ce_flag_text = (\<lambda>n e. n), ce_quote = (\<lambda>s. s)\<rparr>"

lemma loopback_reaches: "reaches (loopback aenv) aenv default_addr"
  by (rule client_reaches) (simp add: loopback_def)

definition create_args :: "string list" where
  "create_args = flag_pairs [(''name'', ''slow''), (''kind'', ''delay_response''), (''delay-ms'', ''250''), (''max-hits'', ''3'')]"

definition create_values :: flag_set where
  "create_values =
     [(''name'', FlagString ''slow''), (''kind'', FlagString ''delay_response''), (''scope'', FlagString ''both''),
      (''service'', FlagString []), (''method'', FlagString []), (''path-prefix'', FlagString []),
      (''status-code'', FlagInt 0), (''delay-ms'', FlagInt 250), (''reason'', FlagString []),
      (''max-hits'', FlagInt 3), (''expires-after'', FlagString []), (''addr'', FlagString default_addr)]"

lemma create_args_parse: "parse_flags create_flags create_args = Inr (create_values, [])"
  unfolding create_args_def by (rule parse_flag_pairs) code_simp

lemma create_values_ok: "flags_utf8 create_values"
  by (simp add: flags_utf8_def create_values_def default_addr_def valid_utf8_literal is_int64_def int64_min_def int64_max_def)

theorem fault_create_end_to_end_witness:
  "\<exists>out w' db'. fault_create (loopback sample_env) create_args ((), empty_db) = (out, w', db') \<and> w' = () \<and>
    (if co_code out = 0
     then validate_rule (ae_fx sample_env) (created_rule sample_env create_values) = [] \<and>
       db_rules db' = db_rules empty_db @ [rule_row_of (created_rule sample_env create_values)] \<and>
       co_out out = ''Fault rule created: '' @ flag_str create_values ''name'' @ '' ('' @ ae_id sample_env @ '')'' @ nl
     else co_code out = 1 \<and> db_rules db' = db_rules empty_db)"
proof -
  have v: "flag_str create_values ''addr'' = default_addr" "flag_str create_values ''name'' \<noteq> []"
    "flag_str create_values ''kind'' \<noteq> []" "valid_utf8 (ae_id sample_env)"
    by (simp_all add: create_values_def flag_str_def sample_env_def valid_utf8_literal)
  obtain out w' db' where c: "fault_create (loopback sample_env) create_args ((), empty_db) = (out, w', db')"
    by (cases "fault_create (loopback sample_env) create_args ((), empty_db)") auto
  from fault_create_end_to_end [OF create_args_parse create_values_ok v(4) _ v(2,3) c] loopback_reaches v(1) c
  show ?thesis by metis
qed

subsection \<open>\<open>replay\<close> from end to end\<close>

text \<open>A result whose strings are UTF-8, and the reading of small integers as floats and back.\<close>

definition diff_utf8 :: "replay_diff \<Rightarrow> bool" where
  "diff_utf8 d = (valid_utf8 (df_event_id d) \<and> valid_utf8 (df_method d) \<and> valid_utf8 (df_path d) \<and>
     list_all valid_utf8 (df_body_diffs d) \<and> valid_utf8 (df_error d))"

definition result_utf8 :: "replay_result \<Rightarrow> bool" where
  "result_utf8 r = (valid_utf8 (re_run_id r) \<and> valid_utf8 (re_scenario_id r) \<and> list_all diff_utf8 (re_diffs r))"

definition small_numbers :: "('w, 'x) cli_env_scheme \<Rightarrow> bool" where
  "small_numbers env \<longleftrightarrow> (\<forall>n. 0 \<le> n \<and> n < 2 ^ 53 \<longrightarrow> (\<exists>t. ce_ft env (dec_int n) = Some t \<and> ce_trunc env t = n))"

lemma strings_flat [simp]: "foldr max (map (json_depth \<circ> JStr) l) 0 = 0"
  by (induction l) simp_all

lemma enc_diff_ok: "diff_utf8 d \<Longrightarrow> json_ok (enc_diff d) \<and> json_depth (enc_diff d) \<le> Suc 1"
  unfolding enc_diff_def
  by (intro members_ok_obj) (auto simp: diff_utf8_def valid_utf8_literal omit_str_def omit_slice_def enc_slice_def
      list_all_iff foldr_max_le)

lemma enc_result_ok: "result_utf8 r \<Longrightarrow> json_ok (enc_result r) \<and> json_depth (enc_result r) \<le> max_nesting"
proof -
  assume "result_utf8 r"
  then have d: "json_ok (enc_diff d) \<and> json_depth (enc_diff d) \<le> 2" if "d \<in> set (re_diffs r)" for d
    using enc_diff_ok [of d] that by (simp add: result_utf8_def list_all_iff numeral_2_eq_2)
  have "json_ok (enc_result r) \<and> json_depth (enc_result r) \<le> Suc 3"
    unfolding enc_result_def using \<open>result_utf8 r\<close> d
    by (intro members_ok_obj) (auto simp: result_utf8_def valid_utf8_literal foldr_max_le numeral_3_eq_3 numeral_2_eq_2)
  then show ?thesis by (simp add: max_nesting_def)
qed

lemma replay_body_read:
  assumes "flags_utf8 fs"
  shows "decode_body dec_replay_body (json_print (replay_call_body fs)) zero_replay_body =
    (True, \<lparr>rb_base_url = flag_str fs ''base-url'', rb_skip_unsafe = flag_bool fs ''skip-unsafe'',
       rb_confirm_unsafe = flag_bool fs ''confirm-unsafe''\<rparr>)"
proof -
  have "json_ok (replay_call_body fs) \<and> json_depth (replay_call_body fs) \<le> Suc 0"
    unfolding replay_call_body_def using flags_utf8_values [OF assms]
    by (intro members_ok_obj) (simp add: valid_utf8_literal)
  then have "json_decode (json_print (replay_call_body fs)) = Some (replay_call_body fs)"
    by (intro json_decode_print) (simp_all add: max_nesting_def)
  then show ?thesis
    by (simp add: decode_body_def replay_call_body_def dec_replay_body_def dec_struct_def dec_member_def find_field_def
        at_field_def zero_replay_body_def)
qed

lemma replay_route:
  "sid \<noteq> [] \<Longrightarrow> serve_api aenv (agent_request ''POST'' [''api'', ''scenarios'', sid, ''replay''] body) st =
   handle_start_replay aenv sid body st"
  by (cases st; simp add: serve_agent_request)
    (simp add: serve_routes_def agent_request_def api_routes_def method_matches_def)

lemma replay_path: "''/api/scenarios/'' @ sid @ ''/replay'' = path_text [''api'', ''scenarios'', sid, ''replay'']"
  "plain_segment sid \<Longrightarrow> list_all plain_segment [''api'', ''scenarios'', sid, ''replay'']"
  by (simp_all add: path_text_def plain_segment_def plain_char_def is_lower_def is_digit_def is_upper_def)

definition flag_options :: "flag_set \<Rightarrow> replay_options" where
  "flag_options fs = \<lparr>op_base_url = flag_str fs ''base-url'', op_skip_unsafe = flag_bool fs ''skip-unsafe'',
     op_confirm_unsafe = flag_bool fs ''confirm-unsafe''\<rparr>"

lemma handle_start_replay_run:
  assumes "flags_utf8 fs" "flag_str fs ''base-url'' \<noteq> []"
    and "execute_replay (ae_ft aenv) (ae_net aenv) (ae_id aenv) (ae_now aenv) (ae_later aenv) sid (flag_options fs) st =
      (Inr r, st')"
  shows "handle_start_replay aenv sid (json_print (replay_call_body fs)) st = (write_json 200 (enc_result r), st')"
  using assms(2,3) by (simp add: handle_start_replay_def replay_body_read [OF assms(1)] replay_opts_def flag_options_def)

lemma failed_shown:
  assumes "result_utf8 r" "small_numbers env" "0 \<le> re_failed r" "re_failed r < 2 ^ 53"
  shows "as_int env (map_get (result_map (ce_ft env) \<lparr>hr_status = s, hr_chunks = [body_text (JsonBody (enc_result r))]\<rparr>) ''failed'') =
    re_failed r"
proof -
  obtain t where t: "ce_ft env (dec_int (re_failed r)) = Some t" "ce_trunc env t = re_failed r"
    using assms(2-4) by (auto simp: small_numbers_def)
  obtain ms where ms: "enc_result r = JObj ms" "map_of (rev ms) ''failed'' = Some (enc_num (re_failed r))"
    by (simp add: enc_result_def)
  then show ?thesis using reply_get [of ms "ce_ft env" s "''failed''"] enc_result_ok [OF assms(1)] t
    by (simp add: enc_num_def)
qed

text \<open>C35: \<open>replay\<close> against an agent at its address: when the agent's replay with the options of the flags
  returns a result, the command exits with 1 if some entry failed and with 0 otherwise, and nothing
  but the replay has changed the database and the network.\<close>

theorem replay_exit_code:
  assumes "parse_flags replay_flags args = Inr (fs, rest)" and "flags_utf8 fs"
    and "reaches env aenv (flag_str fs ''addr'')" and "small_numbers env"
    and "plain_segment (flag_str fs ''scenario'')" and "flag_str fs ''base-url'' \<noteq> []"
    and "execute_replay (ae_ft aenv) (ae_net aenv) (ae_id aenv) (ae_now aenv) (ae_later aenv)
      (flag_str fs ''scenario'') (flag_options fs) st = (Inr r, st')"
    and "result_utf8 r" and "0 \<le> re_failed r" and "re_failed r < 2 ^ 53"
  shows "snd (cmd_replay env args st) = st' \<and>
    co_code (fst (cmd_replay env args st)) = (if re_failed r > 0 then 1 else 0)"
proof -
  let ?sid = "flag_str fs ''scenario''" and ?b = "json_print (replay_call_body fs)"
  have sid: "?sid \<noteq> []" using assms(5) by (simp add: plain_segment_def)
  have "ce_http env (post_json (agent_url (flag_str fs ''addr'') (''/api/scenarios/'' @ ?sid @ ''/replay'')) ?b) st =
      answered (write_json 200 (enc_result r), st')"
    unfolding post_json_def reachesD [OF assms(3) replay_path(2) [OF assms(5)] replay_path(1)]
      replay_route [OF sid] handle_start_replay_run [OF assms(2,6,7)] by (rule refl)
  then have "call_agent env (post_json (agent_url (flag_str fs ''addr'') (''/api/scenarios/'' @ ?sid @ ''/replay'')) ?b) st =
      (Inr (200, result_map (ce_ft env) \<lparr>hr_status = 200, hr_chunks = [body_text (JsonBody (enc_result r))]\<rparr>), st')"
    by (simp only: call_agent_def answered_def) (simp add: write_json_def)
  then show ?thesis
    using failed_shown [OF assms(8,4,9,10), of 200]
    by (simp only: cmd_replay_def with_flags_def assms(1) sum.case prod.case sid assms(6) if_False Let_def) simp
qed

definition replay_args :: "string list" where
  "replay_args = [''--scenario'', ''scn_1'', ''--base-url'', ''http://localhost:8080/'', ''--skip-unsafe'']"

definition replay_values :: flag_set where
  "replay_values = [(''scenario'', FlagString ''scn_1''), (''base-url'', FlagString ''http://localhost:8080/''),
     (''skip-unsafe'', FlagBool True), (''confirm-unsafe'', FlagBool False), (''addr'', FlagString default_addr)]"

lemma replay_args_parse: "parse_flags replay_flags replay_args = Inr (replay_values, [])"
  unfolding replay_args_def replay_values_def by code_simp

lemma loopback_numbers: "small_numbers (loopback aenv)"
proof -
  have "parse_int (dec_int n) = Some n" if "0 \<le> n" "n < 2 ^ 53" for n
    using that by (intro parse_int_dec_int) (simp_all add: int64_min_def int64_max_def)
  then show ?thesis by (simp add: small_numbers_def loopback_def)
qed

lemma sample_result_utf8:
  "result_utf8 (fst (run_entries sample_net sample_opts sample_plan (new_result ''rpl_1'' ''scn_1'' 2) w))"
  by (simp add: sample_defs result_utf8_def diff_utf8_def status_diffs_def content_type_diffs_def
      original_content_type_def valid_utf8_literal)

theorem replay_exit_code_witness:
  "co_code (fst (cmd_replay (loopback (sample_env\<lparr>ae_id := ''rpl_1'', ae_now := 0, ae_later := 1\<rparr>)) replay_args
     ((), sample_db))) = 0"
proof -
  let ?e = "sample_env\<lparr>ae_id := ''rpl_1'', ae_now := 0, ae_later := 1\<rparr>"
  let ?r = "fst (run_entries sample_net sample_opts sample_plan (new_result ''rpl_1'' ''scn_1'' 2) ())"
  have f: "flags_utf8 replay_values" "flag_str replay_values ''addr'' = default_addr"
    "flag_str replay_values ''scenario'' = ''scn_1''" "flag_str replay_values ''base-url'' \<noteq> []"
    "flag_options replay_values = sample_opts"
    by (simp_all add: flags_utf8_def replay_values_def default_addr_def valid_utf8_literal flag_str_def
        flag_bool_def flag_options_def sample_opts_def)
  obtain d where d: "execute_replay (ae_ft ?e) (ae_net ?e) (ae_id ?e) (ae_now ?e) (ae_later ?e)
      (flag_str replay_values ''scenario'') (flag_options replay_values) ((), sample_db) = (Inr ?r, (), d)"
    using sample_done [of sample_opts sample_net "()"] f by (auto simp: sample_env_def sample_opts_def)
  have "plain_segment (flag_str replay_values ''scenario'')"
    by (simp add: f plain_segment_def plain_char_def is_lower_def is_digit_def)
  from replay_exit_code [OF replay_args_parse f(1) _ loopback_numbers [of ?e] this f(4) d sample_result_utf8]
    loopback_reaches [of ?e] f(2) sample_run(2) [of "''rpl_1''" "''scn_1''" "()"]
  show ?thesis by simp
qed

subsection \<open>\<open>record\<close> against a new agent\<close>

lemma start_route:
  "serve_api aenv (agent_request ''POST'' [''api'', ''scenarios'', ''start''] body) st =
   on_db (handle_start_recording aenv body) st"
  by (simp add: serve_agent_request) (simp add: serve_routes_def agent_request_def api_routes_def method_matches_def)

lemma start_path: "''/api/scenarios/start'' = path_text [''api'', ''scenarios'', ''start'']"
  "list_all plain_segment [''api'', ''scenarios'', ''start'']"
  by (simp_all add: path_text_def plain_segment_def plain_char_def is_lower_def is_digit_def is_upper_def)

lemma call_start_status:
  assumes "reaches env aenv addr" and "no_scenario (snd st)"
    and "call_agent env (post_json (agent_url addr ''/api/scenarios/start'') body) st = (Inr (status, result), st')"
  shows "status \<noteq> 201"
proof -
  obtain w d where st: "st = (w, d)" by (cases st)
  have "fst (call_agent env (post_json (agent_url addr ''/api/scenarios/start'') body) st) =
      Inr (an_status (fst (handle_start_recording aenv body d)),
        result_map (ce_ft env) \<lparr>hr_status = an_status (fst (handle_start_recording aenv body d)),
          hr_chunks = [body_text (an_body (fst (handle_start_recording aenv body d)))]\<rparr>)"
    using reachesD [OF assms(1) start_path(2,1), of "''POST''" "''application/json''" body st]
    by (simp add: call_agent_def post_json_def start_route answered_def st on_db_def split: prod.split)
  then have "status = an_status (fst (handle_start_recording aenv body d))" using assms(3) by simp
  moreover have "an_status (fst (handle_start_recording aenv body d)) \<in> {400, 500}"
    using assms(2) by (intro start_without_snapshot) (simp add: st)
  ultimately show ?thesis by auto
qed

lemma api_run_no_scenario: "no_scenario (snd (api_run reqs (w, empty_db\<lparr>db_fail := fails\<rparr>)))"
  by (rule no_scenario_client.api_run_keeps) (simp_all add: no_scenario_def empty_db_def)

text \<open>\<open>record\<close> never starts a recording on an agent whose database is new: whatever requests came
  before, whatever name is given, the command exits with 1.\<close>

theorem record_never_starts:
  assumes "parse_flags record_flags args = Inr (fs, rest)" and "reaches env aenv (flag_str fs ''addr'')"
  shows "co_code (fst (cmd_record env args (api_run reqs (w, empty_db\<lparr>db_fail := fails\<rparr>)))) = 1"
proof -
  let ?st = "api_run reqs (w, empty_db\<lparr>db_fail := fails\<rparr>)"
  let ?call = "call_agent env (post_json (agent_url (flag_str fs ''addr'') ''/api/scenarios/start'') (json_print (record_body fs))) ?st"
  have "status \<noteq> 201" if "?call = (Inr (status, result), st')" for status result st'
    using call_start_status [OF assms(2) api_run_no_scenario that] .
  then show ?thesis
    by (cases ?call; cases "fst ?call")
      (auto simp: cmd_record_def with_flags_def assms(1) Let_def cli_fail_def unreachable_def split: prod.splits)
qed

theorem record_never_starts_witness:
  "co_code (fst (cmd_record (loopback sample_env) [''--name'', ''signup''] ((), empty_db))) = 1"
proof -
  have "parse_flags record_flags [''--name'', ''signup''] =
      Inr ([(''name'', FlagString ''signup''), (''desc'', FlagString []), (''tags'', FlagString []),
        (''addr'', FlagString default_addr)], [])"
    by code_simp
  from record_never_starts [OF this, of "loopback sample_env" sample_env "[]" "()" "[]"] loopback_reaches [of sample_env]
  show ?thesis by (simp add: flag_str_def api_run_def empty_db_def)
qed

end
