(* ===== verification/Docker.thy ===== *)
theory Docker
  imports Prelude
begin

section \<open>The Docker Compose controller (\<open>internal/docker\<close>)\<close>

text \<open>
  The controller builds the arguments of \<open>docker compose\<close> and reads what the command prints. The
  command itself is a parameter: it takes the arguments and the working directory to the error of
  \<open>Run\<close>, if any, and the bytes written to its two streams, and may change the world.
\<close>

record controller =
  dk_files :: "string list"
  dk_project_name :: string
  dk_work_dir :: string

definition new_controller :: "string list \<Rightarrow> string \<Rightarrow> string \<Rightarrow> controller" where
  "new_controller files project_name work_dir =
     \<lparr>dk_files = files, dk_project_name = project_name, dk_work_dir = work_dir\<rparr>"

type_synonym 'w exec = "string list \<Rightarrow> string \<Rightarrow> 'w \<Rightarrow> (string option \<times> string \<times> string) \<times> 'w"

definition base_args :: "controller \<Rightarrow> string list" where
  "base_args c =
     concat (map (\<lambda>f. [''-f'', f]) (dk_files c)) @
     (if dk_project_name c \<noteq> [] then [''-p'', dk_project_name c] else [])"

text \<open>\<open>fmt.Errorf("docker compose: %w: %s", err, stderr)\<close>.\<close>

definition compose_error :: "string \<Rightarrow> string \<Rightarrow> string" where
  "compose_error err errs = ''docker compose: '' @ err @ '': '' @ errs"

definition compose_output :: "'w exec \<Rightarrow> controller \<Rightarrow> string list \<Rightarrow> 'w \<Rightarrow> (string + string) \<times> 'w" where
  "compose_output ex c args w =
     (case ex (''docker'' # ''compose'' # args) (dk_work_dir c) w of
        ((Some err, out, errs), w') \<Rightarrow> (Inl (compose_error err errs), w')
      | ((None, out, errs), w') \<Rightarrow> (Inr out, w'))"

definition compose_run :: "'w exec \<Rightarrow> controller \<Rightarrow> string list \<Rightarrow> 'w \<Rightarrow> (string + unit) \<times> 'w" where
  "compose_run ex c args w =
     (case ex (''docker'' # ''compose'' # args) (dk_work_dir c) w of
        ((Some err, out, errs), w') \<Rightarrow> (Inl (compose_error err errs), w')
      | ((None, out, errs), w') \<Rightarrow> (Inr (), w'))"

definition compose_up :: "'w exec \<Rightarrow> controller \<Rightarrow> 'w \<Rightarrow> (string + unit) \<times> 'w" where
  "compose_up ex c = compose_run ex c (base_args c @ [''up'', ''-d'', ''--wait''])"

definition compose_down :: "'w exec \<Rightarrow> controller \<Rightarrow> 'w \<Rightarrow> (string + unit) \<times> 'w" where
  "compose_down ex c = compose_run ex c (base_args c @ [''down''])"

definition ps_format :: string where
  "ps_format = ''table {{.Name}}'' @ [CHR 0x09] @ ''{{.Status}}'' @ [CHR 0x09] @ ''{{.Ports}}''"

definition compose_ps :: "'w exec \<Rightarrow> controller \<Rightarrow> 'w \<Rightarrow> (string + string) \<times> 'w" where
  "compose_ps ex c = compose_output ex c (base_args c @ [''ps'', ''--format'', ps_format])"

subsection \<open>\<open>IsHealthy\<close>\<close>

fun lines_healthy :: "string list \<Rightarrow> bool" where
  "lines_healthy [] = True"
| "lines_healthy (l # ls) =
     (let line = trim_space l in
      if line = [] then lines_healthy ls
      else if line \<noteq> ''healthy'' then False
      else lines_healthy ls)"

definition is_healthy :: "'w exec \<Rightarrow> controller \<Rightarrow> 'w \<Rightarrow> (string + bool) \<times> 'w" where
  "is_healthy ex c w =
     (case compose_output ex c (base_args c @ [''ps'', ''--format'', ''{{.Health}}'']) w of
        (Inl err, w') \<Rightarrow> (Inl err, w')
      | (Inr out, w') \<Rightarrow> (Inr (lines_healthy (split_char (trim_space out) (CHR 0x0A))), w'))"

subsection \<open>Properties\<close>

lemma lines_healthy_iff: "lines_healthy ls \<longleftrightarrow> (\<forall>l \<in> set ls. trim_space l \<in> {[], ''healthy''})"
  by (induction ls) (simp_all add: Let_def)

text \<open>Every file of the project comes before the subcommand, and no invocation removes volumes.\<close>

lemma base_args_files: "f \<in> set (dk_files c) \<Longrightarrow> \<exists>a b. base_args c = a @ [''-f'', f] @ b"
proof -
  assume "f \<in> set (dk_files c)"
  then obtain xs ys where "dk_files c = xs @ f # ys" by (meson split_list)
  then show ?thesis
    by (intro exI [of _ "concat (map (\<lambda>f. [''-f'', f]) xs)"]
        exI [of _ "concat (map (\<lambda>f. [''-f'', f]) ys) @ (if dk_project_name c \<noteq> [] then [''-p'', dk_project_name c] else [])"])
      (simp add: base_args_def)
qed

end
