(* ===== verification/CliLocal.thy ===== *)
theory CliLocal
  imports CliScenario Config Docker
begin

section \<open>The local commands: \<open>init\<close>, \<open>doctor\<close>, \<open>down\<close>, \<open>status\<close>\<close>

text \<open>
  \<open>cmd_init.go\<close>, \<open>cmd_doctor.go\<close> and the smaller commands of \<open>cmd_up.go\<close> and \<open>cmd_stubs.go\<close>. The
  operating system is a parameter over an abstract world: files, directories, processes, ports, and
  the two functions of \<open>path/filepath\<close> whose result depends on the platform; so are the YAML
  package's reader and writer and the text of the errors it and the system return.
\<close>

record 'w os_env = "'w file_env" +
  os_stat :: "string \<Rightarrow> 'w \<Rightarrow> bool"
  os_read :: "string \<Rightarrow> 'w \<Rightarrow> string option"
  os_write :: "string \<Rightarrow> string \<Rightarrow> 'w \<Rightarrow> string option \<times> 'w"
  os_mkdir_all :: "string \<Rightarrow> 'w \<Rightarrow> string option \<times> 'w"
  os_dir :: "string \<Rightarrow> string"
  os_abs :: "string \<Rightarrow> string"
  os_exec :: "'w exec"
  os_look_path :: "string \<Rightarrow> 'w \<Rightarrow> string option"
  os_listen :: "string \<Rightarrow> 'w \<Rightarrow> bool"
  os_yaml :: "string \<Rightarrow> config option"
  os_marshal :: "config \<Rightarrow> string + string"
  os_load_error :: "string \<Rightarrow> 'w \<Rightarrow> string"
  os_duration_error :: "string \<Rightarrow> string"
  os_step :: duration_step

definition os_load :: "('w, 'x) os_env_scheme \<Rightarrow> string \<Rightarrow> 'w \<Rightarrow> string + config" where
  "os_load env path w =
     (case load_file (os_yaml env) (os_read env path w) of
        None \<Rightarrow> Inl (os_load_error env path w)
      | Some cfg \<Rightarrow> Inr cfg)"

subsection \<open>The text of the problems that \<open>Validate\<close> finds\<close>

definition service_field :: "string \<Rightarrow> string \<Rightarrow> string" where
  "service_field n rest = ''config: services.'' @ n @ rest"

fun config_error_text :: "(string \<Rightarrow> string) \<Rightarrow> (string \<Rightarrow> string) \<Rightarrow> config_error \<Rightarrow> string" where
  "config_error_text q de (VersionInvalid v) = ''config: version must be 1, got '' @ dec_int v"
| "config_error_text q de ProjectNameRequired = ''config: project.name is required''"
| "config_error_text q de (BindNotLocal b) =
     ''config: agent.bind must be 127.0.0.1 or localhost in V1; got '' @ q b"
| "config_error_text q de (PortInvalid p) = ''config: agent.port must be 1-65535, got '' @ dec_int p"
| "config_error_text q de (StudioPortInvalid p) = ''config: agent.studioPort must be 1-65535, got '' @ dec_int p"
| "config_error_text q de PortsEqual = ''config: agent.port and agent.studioPort must differ''"
| "config_error_text q de (ServiceTypeUnsupported n t) = service_field n (''.type '' @ q t @ '' is unsupported'')"
| "config_error_text q de (PostgresDsnRequired n) = service_field n ''.dsn is required for postgres''"
| "config_error_text q de (PostgresModeInvalid n) =
     service_field n ''.capture.mode must be audit_trigger or disabled''"
| "config_error_text q de (PostgresTablesRequired n) = service_field n
     '' postgres capture requires explicit tables; wildcard capture is not supported in V1''"
| "config_error_text q de (RedisAddrRequired n) = service_field n ''.addr is required for redis''"
| "config_error_text q de (MailpitUrlRequired n) = service_field n ''.apiUrl is required for mailpit''"
| "config_error_text q de (MailpitUrlNotLocal n) = service_field n
     ''.apiUrl must use localhost, 127.0.0.1, or an explicitly allowed local host''"
| "config_error_text q de (PollIntervalInvalid n p) =
     service_field n (''.capture.pollInterval '' @ q p @ '' is invalid'')"
| "config_error_text q de (PollIntervalTooShort n) = service_field n ''.capture.pollInterval minimum is 500ms''"
| "config_error_text q de (MinioEndpointRequired n) = service_field n ''.endpoint is required for minio''"
| "config_error_text q de (MinioLiteralSecret n) = service_field n
     ''.secretKey contains a literal value; use env:MINIO_ROOT_PASSWORD or pass --allow-literal-secrets''"
| "config_error_text q de (LocalstackEndpointRequired n) = service_field n ''.endpoint is required for localstack''"
| "config_error_text q de (RuleNameRequired i) = ''config: faults.rules['' @ dec_nat i @ ''].name is required''"
| "config_error_text q de (RuleNameDuplicate n) = ''config: faults.rules duplicate name '' @ q n"
| "config_error_text q de (RuleKindInvalid i k) =
     ''config: faults.rules['' @ dec_nat i @ ''].kind '' @ q k @ '' is invalid''"
| "config_error_text q de (RuleScopeInvalid i s) =
     ''config: faults.rules['' @ dec_nat i @ ''].scope '' @ q s @ '' is invalid''"
| "config_error_text q de (RuleSafetyRequired n) = ''config: enabled fault rule '' @ q n @
     '' must define safety.maxHits or safety.expiresAfter''"
| "config_error_text q de (MaxDurationInvalid d) =
     ''config: recording.maxDuration '' @ q d @ '' is invalid: '' @ de d"
| "config_error_text q de MaxDurationTooLong =
     ''config: recording.maxDuration must be '' @ [CHR 0xE2, CHR 0x89, CHR 0xA4] @ '' 1h''"
| "config_error_text q de IdleNotBelowMax =
     ''config: recording.autoStopOnIdle must be less than recording.maxDuration''"

definition problem_text :: "('w, 'x) os_env_scheme \<Rightarrow> config_error \<Rightarrow> string" where
  "problem_text env = config_error_text (ce_quote env) (os_duration_error env)"

subsection \<open>\<open>init\<close>\<close>

record init_opts =
  in_path :: string
  in_force :: bool
  in_example :: string

text \<open>The loop over the arguments; \<open>None\<close> is the return at a request for help.\<close>

fun init_args :: "string list \<Rightarrow> init_opts \<Rightarrow> init_opts option" where
  "init_args [] o' = Some o'"
| "init_args (a # as) o' =
     (if a = ''--force'' \<or> a = ''-f'' then init_args as (o'\<lparr>in_force := True\<rparr>)
      else if a = ''--config'' then
        (case as of [] \<Rightarrow> Some o' | v # rest \<Rightarrow> init_args rest (o'\<lparr>in_path := v\<rparr>))
      else if a = ''--example'' then
        (case as of [] \<Rightarrow> Some o' | v # rest \<Rightarrow> init_args rest (o'\<lparr>in_example := v\<rparr>))
      else if a = ''--help'' \<or> a = ''-h'' then None
      else init_args as o')"

definition init_usage :: string where
  "init_usage = text_lines
     [''Usage: localcloud init [flags]'', '''', ''Flags:'',
      ''  --example <name>   Generate example project (e.g. demo-saas)'',
      ''  --config <path>    Config file path (default: localcloud.yml)'',
      ''  --force            Overwrite existing config'']"

definition init_config :: "init_opts \<Rightarrow> config" where
  "init_config o' = (if in_example o' = ''demo-saas'' then demo_config else default_config)"

definition init_done :: "('w, 'x) os_env_scheme \<Rightarrow> init_opts \<Rightarrow> 'w \<Rightarrow> cli_out \<times> 'w" where
  "init_done env o' w =
     (case os_mkdir_all env ''.localcloud'' w of (err, w') \<Rightarrow>
        (\<lparr>co_code = 0,
          co_out = text_lines ([''LocalCloud initialized'', ''  config: '' @ in_path o'] @
            (if in_example o' \<noteq> [] then [''  example: '' @ in_example o'] else []) @
            [''  next: localcloud up'']),
          co_err = (case err of None \<Rightarrow> []
            | Some e \<Rightarrow> ''localcloud: warning: could not create .localcloud/: '' @ e @ nl)\<rparr>, w'))"

definition init_write :: "('w, 'x) os_env_scheme \<Rightarrow> init_opts \<Rightarrow> string \<Rightarrow> 'w \<Rightarrow> cli_out \<times> 'w" where
  "init_write env o' data w =
     (case os_mkdir_all env (os_dir env (in_path o')) w of (err, w1) \<Rightarrow>
        (if err \<noteq> None \<and> in_path o' \<noteq> ''localcloud.yml''
         then (cli_fail (''localcloud: failed to create directory: '' @ the err), w1)
         else case os_write env (in_path o') data w1 of
           (Some e, w2) \<Rightarrow> (cli_fail (''localcloud: failed to write '' @ in_path o' @ '': '' @ e), w2)
         | (None, w2) \<Rightarrow> init_done env o' w2))"

definition cmd_init :: "('w, 'x) os_env_scheme \<Rightarrow> string list \<Rightarrow> 'w \<Rightarrow> cli_out \<times> 'w" where
  "cmd_init env args w =
     (case init_args args \<lparr>in_path = ''localcloud.yml'', in_force = False, in_example = []\<rparr> of
        None \<Rightarrow> (cli_ok init_usage, w)
      | Some o' \<Rightarrow>
          (if \<not> in_force o' \<and> os_stat env (in_path o') w
           then (\<lparr>co_code = 2, co_out = [], co_err = ''localcloud: '' @ in_path o' @
                   '' already exists. Use --force to overwrite.'' @ nl\<rparr>, w)
           else case os_marshal env (init_config o') of
             Inl e \<Rightarrow> (cli_fail (''localcloud: failed to generate config: '' @ e), w)
           | Inr data \<Rightarrow> init_write env o' data w))"

subsection \<open>\<open>doctor\<close>\<close>

fun doctor_args :: "string list \<Rightarrow> string \<times> bool \<Rightarrow> (string \<times> bool) option" where
  "doctor_args [] o' = Some o'"
| "doctor_args (a # as) o' =
     (if a = ''--config'' then
        (case as of [] \<Rightarrow> Some o' | v # rest \<Rightarrow> doctor_args rest (v, snd o'))
      else if a = ''--verbose'' then doctor_args as (fst o', True)
      else if a = ''--help'' \<or> a = ''-h'' then None
      else doctor_args as o')"

definition doctor_usage :: string where
  "doctor_usage = text_lines
     [''Usage: localcloud doctor [flags]'', '''', ''Flags:'',
      ''  --config <path>    Config file path (default: localcloud.yml)'',
      ''  --verbose          Show detailed check output'']"

record tally =
  ty_passed :: nat
  ty_warned :: nat
  ty_failed :: nat
  ty_out :: string

definition tally_line :: "string \<Rightarrow> string \<Rightarrow> string \<Rightarrow> string" where
  "tally_line mark name msg = ''  '' @ mark @ '' '' @ name @ '': '' @ msg @ nl"

definition check_mark :: string where "check_mark = [CHR 0xE2, CHR 0x9C, CHR 0x93]"
definition cross_mark :: string where "cross_mark = [CHR 0xE2, CHR 0x9C, CHR 0x97]"
definition warn_mark :: string where "warn_mark = [CHR 0xE2, CHR 0x9A, CHR 0xA0]"

definition doctor_check :: "string \<Rightarrow> string \<times> bool \<Rightarrow> tally \<Rightarrow> tally" where
  "doctor_check name r t =
     (if snd r then t\<lparr>ty_passed := ty_passed t + 1, ty_out := ty_out t @ tally_line check_mark name (fst r)\<rparr>
      else t\<lparr>ty_failed := ty_failed t + 1, ty_out := ty_out t @ tally_line cross_mark name (fst r)\<rparr>)"

definition doctor_warn :: "string \<Rightarrow> string \<times> bool \<Rightarrow> tally \<Rightarrow> tally" where
  "doctor_warn name r t =
     (if snd r then t\<lparr>ty_passed := ty_passed t + 1, ty_out := ty_out t @ tally_line check_mark name (fst r)\<rparr>
      else t\<lparr>ty_warned := ty_warned t + 1, ty_out := ty_out t @ tally_line warn_mark name (fst r)\<rparr>)"

text \<open>The five outcomes; the configuration is kept when it was read, valid or not.\<close>

definition config_exists :: "('w, 'x) os_env_scheme \<Rightarrow> string \<Rightarrow> 'w \<Rightarrow> string \<times> bool" where
  "config_exists env path w =
     (if os_stat env path w then (path, True) else (path @ '' not found; run localcloud init'', False))"

definition config_valid :: "('w, 'x) os_env_scheme \<Rightarrow> string + config \<Rightarrow> string \<times> bool" where
  "config_valid env loaded =
     (case loaded of
        Inl err \<Rightarrow> (err, False)
      | Inr cfg \<Rightarrow> (case validate_config (os_step env) cfg of
          [] \<Rightarrow> (''ok'', True)
        | e # _ \<Rightarrow> (problem_text env e, False)))"

definition docker_found :: "('w, 'x) os_env_scheme \<Rightarrow> bool \<Rightarrow> 'w \<Rightarrow> string \<times> bool" where
  "docker_found env verbose w =
     (case os_look_path env ''docker'' w of
        None \<Rightarrow> (''docker not found in PATH'', False)
      | Some path \<Rightarrow> (if verbose then path else ''found'', True))"

definition compose_found :: "('w, 'x) os_env_scheme \<Rightarrow> bool \<Rightarrow> 'w \<Rightarrow> (string \<times> bool) \<times> 'w" where
  "compose_found env verbose w =
     (case os_exec env [''docker'', ''compose'', ''version''] [] w of
        ((Some _, _, _), w') \<Rightarrow> ((''docker compose not available'', False), w')
      | ((None, out, _), w') \<Rightarrow> ((if verbose then out else ''found'', True), w'))"

definition port_free :: "('w, 'x) os_env_scheme \<Rightarrow> string \<Rightarrow> 'w \<Rightarrow> string \<times> bool" where
  "port_free env addr w =
     (if os_listen env addr w then (addr @ '' available'', True)
      else (addr @ '' in use or unavailable'', False))"

definition binding_safe :: "config \<Rightarrow> string \<times> bool" where
  "binding_safe cfg =
     (if ac_bind (cf_agent cfg) = ''0.0.0.0''
      then (''agent bound to 0.0.0.0; local traffic may be visible on network'', False)
      else (''loopback only'', True))"

definition host_port :: "string \<Rightarrow> int \<Rightarrow> string" where
  "host_port host port = host @ '':'' @ dec_int port"

definition doctor_network :: "('w, 'x) os_env_scheme \<Rightarrow> 'w \<Rightarrow> config \<Rightarrow> tally \<Rightarrow> tally" where
  "doctor_network env w cfg t =
     doctor_warn ''Network binding'' (binding_safe cfg)
       (doctor_warn ''Studio port'' (port_free env (host_port (ac_bind (cf_agent cfg)) (ac_studio_port (cf_agent cfg))) w)
         (doctor_warn ''Agent port'' (port_free env (host_port (ac_bind (cf_agent cfg)) (ac_port (cf_agent cfg))) w) t))"

definition doctor_tally :: "('w, 'x) os_env_scheme \<Rightarrow> string \<Rightarrow> bool \<Rightarrow> 'w \<Rightarrow> tally \<times> 'w" where
  "doctor_tally env path verbose w =
     (let loaded = os_load env path w;
          t0 = \<lparr>ty_passed = 0, ty_warned = 0, ty_failed = 0, ty_out = ''LocalCloud Doctor'' @ nl @ nl\<rparr>;
          t1 = doctor_check ''Config file'' (config_exists env path w) t0;
          t2 = doctor_check ''Config valid'' (config_valid env loaded) t1;
          t3 = doctor_warn ''Docker available'' (docker_found env verbose w) t2;
          (compose, w') = compose_found env verbose w;
          t4 = doctor_warn ''Docker Compose'' compose t3
      in (case loaded of Inl _ \<Rightarrow> t4 | Inr cfg \<Rightarrow> doctor_network env w' cfg t4, w'))"

definition cmd_doctor :: "('w, 'x) os_env_scheme \<Rightarrow> string list \<Rightarrow> 'w \<Rightarrow> cli_out \<times> 'w" where
  "cmd_doctor env args w =
     (case doctor_args args (''localcloud.yml'', False) of
        None \<Rightarrow> (cli_ok doctor_usage, w)
      | Some (path, verbose) \<Rightarrow>
          (case doctor_tally env path verbose w of (t, w') \<Rightarrow>
             (\<lparr>co_code = (if ty_failed t > 0 then 2 else 0),
               co_out = ty_out t @ nl @ ''Results: '' @ dec_nat (ty_passed t) @ '' passed, '' @
                 dec_nat (ty_warned t) @ '' warnings, '' @ dec_nat (ty_failed t) @ '' failed'' @ nl,
               co_err = []\<rparr>, w')))"

subsection \<open>\<open>down\<close>, \<open>status\<close>, \<open>studio\<close>\<close>

definition config_controller :: "('w, 'x) os_env_scheme \<Rightarrow> string \<Rightarrow> config \<Rightarrow> controller" where
  "config_controller env path cfg = new_controller (cc_files (cf_compose cfg)) (cc_project_name (cf_compose cfg))
     (os_abs env (os_dir env path))"

definition down_flags :: flag_set where
  "down_flags = [(''config'', FlagString ''localcloud.yml''), (''volumes'', FlagBool False)]"

definition cmd_down :: "('w, 'x) os_env_scheme \<Rightarrow> string list \<Rightarrow> 'w \<Rightarrow> cli_out \<times> 'w" where
  "cmd_down env args = with_flags env ''down'' down_flags args (\<lambda>fs rest w.
     (case os_load env (flag_str fs ''config'') w of
        Inl err \<Rightarrow> (cli_fail (''localcloud: '' @ err), w)
      | Inr cfg \<Rightarrow>
          (if length (cc_files (cf_compose cfg)) > 0 then
             (case compose_down (os_exec env) (config_controller env (flag_str fs ''config'') cfg) w of
                (Inl err, w') \<Rightarrow> (\<lparr>co_code = 1, co_out = ''Stopping Docker Compose services...'' @ nl,
                    co_err = ''localcloud: compose down failed: '' @ err @ nl\<rparr>, w')
              | (Inr _, w') \<Rightarrow> (cli_ok (text_lines [''Stopping Docker Compose services...'',
                    ''Docker Compose services stopped.'', ''LocalCloud stopped.'']), w'))
           else (cli_ok (text_lines [''LocalCloud stopped.'']), w))))"

definition cmd_status :: "('w, 'x) os_env_scheme \<Rightarrow> string list \<Rightarrow> 'w \<Rightarrow> cli_out \<times> 'w" where
  "cmd_status env args = with_flags env ''status'' [(''config'', FlagString ''localcloud.yml'')] args (\<lambda>fs rest w.
     (case os_load env (flag_str fs ''config'') w of
        Inl err \<Rightarrow> (cli_fail (''localcloud: '' @ err), w)
      | Inr cfg \<Rightarrow>
          (if length (cc_files (cf_compose cfg)) > 0 then
             (case compose_ps (os_exec env) (config_controller env (flag_str fs ''config'') cfg) w of
                (Inl err, w') \<Rightarrow> (cli_fail (''localcloud: compose ps failed: '' @ err), w')
              | (Inr out, w') \<Rightarrow> (cli_ok (text_lines [''Docker Compose services:'', out]), w'))
           else (cli_ok [], w))))"

definition cmd_studio :: "'w \<Rightarrow> cli_out \<times> 'w" where
  "cmd_studio w = (cli_fail (''localcloud: '' @ [CHR 0x27] @ ''studio'' @ [CHR 0x27] @ '' is not yet implemented''), w)"


subsection \<open>Properties\<close>

lemma tally_failed [simp]:
  "ty_failed (doctor_check name r t) = ty_failed t + (if snd r then 0 else 1)"
  "ty_failed (doctor_warn name r t) = ty_failed t"
  by (simp_all add: doctor_check_def doctor_warn_def)

lemma doctor_network_failed [simp]: "ty_failed (doctor_network env w cfg t) = ty_failed t"
  by (simp add: doctor_network_def)

lemma config_exists_ok [simp]: "snd (config_exists env path w) = os_stat env path w"
  by (simp add: config_exists_def)

lemma config_valid_ok:
  "snd (config_valid env loaded) \<longleftrightarrow> (\<exists>cfg. loaded = Inr cfg \<and> validate_config (os_step env) cfg = [])"
  by (auto simp: config_valid_def split: sum.split list.split)

lemma doctor_tally_failed:
  "ty_failed (fst (doctor_tally env path verbose w)) =
     (if os_stat env path w then 0 else 1) + (if snd (config_valid env (os_load env path w)) then 0 else 1)"
proof -
  obtain compose w' where c: "compose_found env verbose w = (compose, w')"
    by (cases "compose_found env verbose w")
  show ?thesis
    by (cases "os_load env path w")
      (simp_all only: doctor_tally_def c Let_def prod.case sum.case fst_conv tally_failed config_exists_ok
        doctor_network_failed tally.select_convs add_0 add_0_right)
qed

text \<open>C38: The doctor succeeds exactly when the configuration file exists, can be read and has no problem
  that the validation reports: missing docker, busy ports and a public address are only warnings.\<close>

theorem doctor_exit:
  "co_code (fst (cmd_doctor env args w)) = 0 \<longleftrightarrow>
   (case doctor_args args (''localcloud.yml'', False) of
      None \<Rightarrow> True
    | Some (path, verbose) \<Rightarrow> os_stat env path w \<and>
        (\<exists>cfg. os_load env path w = Inr cfg \<and> validate_config (os_step env) cfg = []))"
proof (cases "doctor_args args (''localcloud.yml'', False)")
  case None
  then show ?thesis by (simp add: cmd_doctor_def cli_ok_def)
next
  case (Some pv)
  obtain path verbose where pv: "pv = (path, verbose)" by (cases pv)
  have "co_code (fst (cmd_doctor env args w)) = 0 \<longleftrightarrow> ty_failed (fst (doctor_tally env path verbose w)) = 0"
    by (simp add: cmd_doctor_def Some pv split: prod.split)
  then show ?thesis by (simp add: doctor_tally_failed Some pv flip: config_valid_ok)
qed

text \<open>Without the force flag \<open>init\<close> leaves everything as it is when the file is there: it exits with
  status 2 and the world is unchanged.\<close>

theorem init_keeps_existing:
  assumes "init_args args \<lparr>in_path = ''localcloud.yml'', in_force = False, in_example = []\<rparr> = Some o'"
    and "\<not> in_force o'" and "os_stat env (in_path o') w"
  shows "co_code (fst (cmd_init env args w)) = 2 \<and> snd (cmd_init env args w) = w"
  using assms by (simp add: cmd_init_def)

end
