(* ===== verification/Proxy.thy ===== *)
theory Proxy
  imports Agent Redaction GoHttp "HOL-Library.Multiset"
begin

section \<open>The capture proxy (\<open>internal/proxy/proxy.go\<close>)\<close>

text \<open>
  \<open>New\<close> with its defaults, the handler that \<open>Start\<close> installs, \<open>captureResponse\<close> and
  \<open>handleError\<close>. What the standard library does between them is a parameter: \<open>parse_url\<close> gives
  scheme and host of the target, \<open>rewrite\<close> the header that \<open>httputil.ReverseProxy\<close> sends
  upstream, \<open>transport\<close> the answer of the service, \<open>sha\<close> the hexadecimal SHA-256 of a text. Clock
  readings and generated identifiers are arguments. The event of a response is emitted by a
  goroutine of its own: \<open>proxy_step\<close> interleaves captures and emissions.
\<close>

subsection \<open>\<open>New\<close>\<close>

record proxy =
  px_service_name :: string
  px_target_scheme :: string
  px_target_host :: string
  px_correlation_header :: string
  px_run_id :: string
  px_policy :: policy
  px_body_max_bytes :: int

record proxy_config =
  pc_service_name :: string
  pc_target_base_url :: string
  pc_run_id :: string
  pc_correlation_header :: string
  pc_redaction_policy :: "policy option"
  pc_body_max_bytes :: int

definition new_proxy :: "(string \<Rightarrow> (string \<times> string) option) \<Rightarrow> proxy_config \<Rightarrow> proxy option" where
  "new_proxy parse_url cfg =
     (case parse_url (pc_target_base_url cfg) of
        None \<Rightarrow> None
      | Some (scheme, host) \<Rightarrow> Some
          \<lparr>px_service_name = pc_service_name cfg, px_target_scheme = scheme, px_target_host = host,
           px_correlation_header =
             (if pc_correlation_header cfg = [] then ''x-localcloud-correlation-id''
              else pc_correlation_header cfg),
           px_run_id = pc_run_id cfg,
           px_policy = (case pc_redaction_policy cfg of None \<Rightarrow> default_policy | Some p \<Rightarrow> p),
           px_body_max_bytes = (if pc_body_max_bytes cfg \<le> 0 then 8192 else pc_body_max_bytes cfg)\<rparr>)"

subsection \<open>The handler\<close>

record proxy_request =
  pq_method :: string
  pq_scheme :: string
  pq_host :: string
  pq_path :: string
  pq_raw_query :: string
  pq_headers :: http_header
  pq_body :: string

record proxy_response =
  ps_status :: int
  ps_headers :: http_header
  ps_body :: string

text \<open>The values kept in the context of a request.\<close>

record capture_ctx =
  cx_start :: instant
  cx_correlation :: string
  cx_event_id :: string
  cx_req_body :: string

text \<open>\<open>io.LimitReader(r, int64(max)+1)\<close> copied to a buffer, and the reader put back: the buffer
  followed by what was not read.\<close>

definition read_limited :: "int \<Rightarrow> string \<Rightarrow> string \<times> string" where
  "read_limited max_bytes body =
     (let k = nat (wrap64 (max_bytes + 1)) in (take k body, take k body @ drop k body))"

definition inject_correlation :: "proxy \<Rightarrow> string \<Rightarrow> http_header \<Rightarrow> http_header" where
  "inject_correlation p new_id h =
     (if header_get h (px_correlation_header p) = [] then header_set (px_correlation_header p) new_id h
      else h)"

definition capture_request ::
    "proxy \<Rightarrow> instant \<Rightarrow> string \<Rightarrow> string \<Rightarrow> proxy_request \<Rightarrow> capture_ctx \<times> proxy_request" where
  "capture_request p start new_id event_id r =
     (let h = inject_correlation p new_id (pq_headers r);
          (buf, body) = read_limited (px_body_max_bytes p) (pq_body r) in
      (\<lparr>cx_start = start, cx_correlation = header_get h (px_correlation_header p),
        cx_event_id = event_id, cx_req_body = buf\<rparr>,
       r\<lparr>pq_headers := h, pq_body := body\<rparr>))"

definition direct :: "proxy \<Rightarrow> proxy_request \<Rightarrow> proxy_request" where
  "direct p r = r\<lparr>pq_scheme := px_target_scheme p, pq_host := px_target_host p\<rparr>"

subsection \<open>\<open>captureResponse\<close>\<close>

definition str_ptr :: "string \<Rightarrow> string option" where
  "str_ptr s = (if s = [] then None else Some s)"

definition sha256_hex :: "(string \<Rightarrow> string) \<Rightarrow> string \<Rightarrow> string" where
  "sha256_hex sha s = (if s = [] then [] else sha s)"

definition joined_headers :: "http_header \<Rightarrow> string gomap" where
  "joined_headers h = Some (map (\<lambda>(k, vs). (k, join '', '' vs)) h)"

text \<open>The preview of a body: cut to the limit, then redacted.\<close>

definition capture_body :: "float_text \<Rightarrow> proxy \<Rightarrow> string \<Rightarrow> string \<times> bool" where
  "capture_body ft p body =
     (let cut = (if int (length body) > px_body_max_bytes p then take (nat (px_body_max_bytes p)) body
                 else body) in
      case redact_json_body ft (px_policy p) cut of
        (redacted, n) \<Rightarrow> (if n > 0 then (redacted, True) else (cut, False)))"

definition response_status :: "int \<Rightarrow> string" where
  "response_status status = (if status \<ge> 500 then ''error'' else if status \<ge> 400 then ''warning'' else ''ok'')"

definition milliseconds :: "duration \<Rightarrow> int" where
  "milliseconds d = (if d < 0 then - (- d div 1000000) else d div 1000000)"

definition right_arrow :: string where
  "right_arrow = [CHR 0xE2, CHR 0x86, CHR 0x92]"

definition em_dash :: string where
  "em_dash = [CHR 0xE2, CHR 0x80, CHR 0x94]"

definition replay_warning :: "string \<Rightarrow> string" where
  "replay_warning m =
     (if m \<in> {''POST'', ''PUT'', ''PATCH'', ''DELETE''}
      then m @ '' is an unsafe method '' @ em_dash @ '' replay may create side effects'' else [])"

definition capture_event ::
    "float_text \<Rightarrow> (string \<Rightarrow> string) \<Rightarrow> proxy \<Rightarrow> instant \<Rightarrow> capture_ctx \<Rightarrow> proxy_request \<Rightarrow>
     proxy_response \<Rightarrow> timeline_event" where
  "capture_event ft sha p now c req resp =
     (let (req_preview, req_redacted) = capture_body ft p (cx_req_body c);
          (resp_buf, _) = read_limited (px_body_max_bytes p) (ps_body resp);
          (resp_preview, resp_redacted) = capture_body ft p resp_buf in
      \<lparr>ev_id = cx_event_id c, ev_run_id = px_run_id p, ev_scenario_id = None, ev_replay_run_id = None,
       ev_timestamp = cx_start c, ev_source = source_http_proxy, ev_service = px_service_name p,
       ev_action = ''http.request'',
       ev_summary = pq_method req @ '' '' @ pq_path req @ '' '' @ right_arrow @ '' '' @ dec_int (ps_status resp),
       ev_status = response_status (ps_status resp),
       ev_duration_ms = Some (milliseconds (time_sub now (cx_start c))),
       ev_correlation_id = str_ptr (cx_correlation c), ev_parent_event_id = None,
       ev_request = Some \<lparr>rq_method = pq_method req, rq_scheme = pq_scheme req, rq_host = pq_host req,
         rq_path = pq_path req, rq_query = pq_raw_query req,
         rq_headers = fst (redact_headers (px_policy p) (joined_headers (pq_headers req))),
         rq_body_preview = req_preview, rq_body_sha256 = sha256_hex sha (cx_req_body c),
         rq_body_redacted = req_redacted, rq_replayable = True,
         rq_replay_warning = replay_warning (pq_method req)\<rparr>,
       ev_response = Some \<lparr>rs_status_code = ps_status resp,
         rs_headers = fst (redact_headers (px_policy p) (joined_headers (ps_headers resp))),
         rs_body_preview = resp_preview, rs_body_sha256 = sha256_hex sha resp_buf,
         rs_body_redacted = resp_redacted\<rparr>,
       ev_metadata = None, ev_raw_payload = None, ev_faults = None\<rparr>)"

definition capture_response ::
    "float_text \<Rightarrow> (string \<Rightarrow> string) \<Rightarrow> proxy \<Rightarrow> instant \<Rightarrow> capture_ctx \<Rightarrow> proxy_request \<Rightarrow>
     proxy_response \<Rightarrow> timeline_event \<times> proxy_response" where
  "capture_response ft sha p now c req resp =
     (capture_event ft sha p now c req resp,
      resp\<lparr>ps_body := snd (read_limited (px_body_max_bytes p) (ps_body resp))\<rparr>)"

subsection \<open>A request through the proxy\<close>

definition handle_error :: "string \<Rightarrow> proxy_response" where
  "handle_error err =
     \<lparr>ps_status = 502, ps_headers = [(''Content-Type'', [''text/plain; charset=utf-8'']),
       (''X-Content-Type-Options'', [''nosniff''])],
      ps_body = ''Bad Gateway'' @ [CHR 0x0A]\<rparr>"

text \<open>The answer to the client and the event that is handed to a goroutine, if any.\<close>

definition serve_proxy ::
    "float_text \<Rightarrow> (string \<Rightarrow> string) \<Rightarrow> (http_header \<Rightarrow> http_header) \<Rightarrow>
     (proxy_request \<Rightarrow> string + proxy_response) \<Rightarrow> proxy \<Rightarrow> instant \<Rightarrow> instant \<Rightarrow> string \<Rightarrow> string \<Rightarrow>
     proxy_request \<Rightarrow> proxy_response \<times> timeline_event option" where
  "serve_proxy ft sha rewrite transport p start now new_id event_id r =
     (let (c, r1) = capture_request p start new_id event_id r;
          r2 = direct p r1;
          out = r2\<lparr>pq_headers := rewrite (pq_headers r2)\<rparr> in
      case transport out of
        Inl err \<Rightarrow> (handle_error err, None)
      | Inr resp \<Rightarrow> (case capture_response ft sha p now c out resp of (e, resp') \<Rightarrow> (resp', Some e)))"

subsection \<open>Captures and emissions\<close>

datatype proxy_label =
    Captured timeline_event
  | Emitted timeline_event bool

text \<open>
  The pending events are the goroutines that have not called \<open>Emit\<close> yet. The active recording and
  the clock at the time of the call are the environment's.
\<close>

inductive proxy_step ::
    "('h \<Rightarrow> timeline_event \<Rightarrow> 's \<Rightarrow> 's \<times> bool) \<Rightarrow> 'h bus \<Rightarrow> timeline_event multiset \<times> (db \<times> 's) \<Rightarrow>
     proxy_label \<Rightarrow> timeline_event multiset \<times> (db \<times> 's) \<Rightarrow> bool"
  for run b where
  step_capture: "proxy_step run b (pend, st) (Captured e) (add_mset e pend, st)"
| step_emit: "e \<in># pend \<Longrightarrow> emit run b active now e st = (r, st') \<Longrightarrow>
    proxy_step run b (pend, st) (Emitted e (r = Inr ())) (pend - {#e#}, st')"

inductive proxy_run ::
    "('h \<Rightarrow> timeline_event \<Rightarrow> 's \<Rightarrow> 's \<times> bool) \<Rightarrow> 'h bus \<Rightarrow> db \<times> 's \<Rightarrow> proxy_label list \<Rightarrow>
     timeline_event multiset \<times> (db \<times> 's) \<Rightarrow> bool"
  for run b st0 where
  run_start: "proxy_run run b st0 [] ({#}, st0)"
| run_step: "proxy_run run b st0 ls s \<Longrightarrow> proxy_step run b s l s' \<Longrightarrow> proxy_run run b st0 (ls @ [l]) s'"

inductive_cases proxy_stepE: "proxy_step run b s l s'"
inductive_simps proxy_step_capture: "proxy_step run b s (Captured e) s'"

fun captured :: "proxy_label \<Rightarrow> timeline_event option" where
  "captured (Captured e) = Some e"
| "captured (Emitted e ok) = None"

fun emitted :: "proxy_label \<Rightarrow> timeline_event option" where
  "emitted (Captured e) = None"
| "emitted (Emitted e ok) = Some e"

subsection \<open>Bodies\<close>

lemma read_limited_simps [simp]: "snd (read_limited k body) = body"
  "fst (read_limited k body) = take (nat (wrap64 (k + 1))) body"
  by (simp_all add: read_limited_def Let_def)

text \<open>A limit that the code can use: not negative, and one more is no overflow.\<close>

definition limit_ok :: "int \<Rightarrow> bool" where
  "limit_ok k = (0 \<le> k \<and> k < int64_max)"

lemma wrap64_limit: "limit_ok k \<Longrightarrow> wrap64 (k + 1) = k + 1"
  by (simp add: limit_ok_def wrap64_id int64_min_def)

lemma short_body: "limit_ok k \<Longrightarrow> int (length body) \<le> k \<Longrightarrow> fst (read_limited k body) = body"
  by (simp add: wrap64_limit)

lemma long_body:
  assumes "limit_ok k" and "k < int (length body)"
  shows "length (fst (read_limited k body)) = nat k + 1" and "take (nat k) (fst (read_limited k body)) = take (nat k) body"
proof -
  have "nat (k + 1) = nat k + 1" using assms(1) by (simp add: limit_ok_def nat_add_distrib)
  then show "length (fst (read_limited k body)) = nat k + 1"
    "take (nat k) (fst (read_limited k body)) = take (nat k) body"
    using assms by (simp_all add: wrap64_limit limit_ok_def min_def) linarith+
qed

lemma capture_body_short:
  "int (length body) \<le> px_body_max_bytes p \<Longrightarrow>
   capture_body ft p body = (case redact_json_body ft (px_policy p) body of (r, n) \<Rightarrow> (r, n > 0))"
  by (auto simp: capture_body_def redact_json_body_def split: prod.split bool.split)

lemma capture_body_cut:
  assumes "limit_ok (px_body_max_bytes p)" and "px_body_max_bytes p < int (length body)"
    and "take (nat (px_body_max_bytes p)) body = a @ [c]" and "\<not> is_json_ws c" and "c \<noteq> CHR ''}''"
  shows "capture_body ft p (fst (read_limited (px_body_max_bytes p) body)) = (a @ [c], False)"
proof -
  have "redact_json_body ft (px_policy p) (a @ [c]) = (a @ [c], 0)"
    using json_object_ends assms(4,5) by (intro redact_json_body_not_object) blast
  with assms long_body [OF assms(1,2)] show ?thesis
    by (simp add: capture_body_def limit_ok_def)
qed

subsection \<open>Headers\<close>

text \<open>What the event says of the denied headers of the request and of the response.\<close>

definition denied_values :: "policy \<Rightarrow> timeline_event \<Rightarrow> string list" where
  "denied_values pol e =
     (let vals = (\<lambda>h. map snd (filter (\<lambda>kv. header_denied pol (fst kv)) (entries h))) in
      (case ev_request e of None \<Rightarrow> [] | Some r \<Rightarrow> vals (rq_headers r)) @
      (case ev_response e of None \<Rightarrow> [] | Some r \<Rightarrow> vals (rs_headers r)))"

lemma redacted_values:
  "filter (\<lambda>kv. header_denied pol (fst kv)) (entries (fst (redact_headers pol (joined_headers h)))) =
   map (\<lambda>kv. (fst kv, redacted_marker)) (filter (\<lambda>kv. header_denied pol (fst kv)) (entries (joined_headers h)))"
  by (induction h) (auto simp: redact_headers_def joined_headers_def redact_header_def)

lemma capture_event_parts [simp]:
  "ev_id (capture_event ft sha p now c req resp) = cx_event_id c"
  "ev_run_id (capture_event ft sha p now c req resp) = px_run_id p"
  "ev_timestamp (capture_event ft sha p now c req resp) = cx_start c"
  "ev_source (capture_event ft sha p now c req resp) = source_http_proxy"
  "ev_service (capture_event ft sha p now c req resp) = px_service_name p"
  "ev_action (capture_event ft sha p now c req resp) = ''http.request''"
  "ev_summary (capture_event ft sha p now c req resp) \<noteq> []"
  "ev_status (capture_event ft sha p now c req resp) = response_status (ps_status resp)"
  by (simp_all add: capture_event_def case_prod_unfold Let_def)

lemma capture_event_request:
  "map_option rq_body_preview (ev_request (capture_event ft sha p now c req resp)) =
     Some (fst (capture_body ft p (cx_req_body c)))"
  "map_option rq_body_redacted (ev_request (capture_event ft sha p now c req resp)) =
     Some (snd (capture_body ft p (cx_req_body c)))"
  by (simp_all add: capture_event_def case_prod_unfold Let_def)

lemma capture_request_body [simp]:
  "cx_req_body (fst (capture_request p start nid eid r)) = fst (read_limited (px_body_max_bytes p) (pq_body r))"
  by (simp add: capture_request_def case_prod_unfold Let_def)

subsection \<open>Properties\<close>


text \<open>C23: Every value of a denied header in a captured event, of the request or of the response,
  is the redaction marker.\<close>

theorem captured_headers_redacted:
  "set (denied_values (px_policy p) (capture_event ft sha p now c req resp)) \<subseteq> {redacted_marker}"
  by (auto simp: denied_values_def capture_event_def case_prod_unfold Let_def redacted_values)

text \<open>C24: The event of a response is one that the sink accepts: with a service name, a run, an
  event identifier and a start time, \<open>Validate\<close> finds nothing, whatever the request and the
  response are.\<close>

theorem captured_event_valid:
  assumes "px_service_name p \<noteq> []" and "px_run_id p \<noteq> []" and "cx_event_id c \<noteq> []"
    and "\<not> is_zero_time (cx_start c)"
  shows "event_validate (capture_event ft sha p now c req resp) = []"
  using assms
  by (simp add: event_validate_ok source_http_proxy_def is_valid_status_def response_status_def
      event_statuses_def)

definition sample_proxy :: proxy where
  "sample_proxy = \<lparr>px_service_name = ''api'', px_target_scheme = ''http'', px_target_host = ''localhost:3000'',
     px_correlation_header = ''x-localcloud-correlation-id'', px_run_id = ''run_1'',
     px_policy = default_policy, px_body_max_bytes = 22\<rparr>"

definition sample_request :: "string \<Rightarrow> proxy_request" where
  "sample_request body = \<lparr>pq_method = ''POST'', pq_scheme = [], pq_host = ''localhost:8080'',
     pq_path = ''/login'', pq_raw_query = [], pq_headers = [], pq_body = body\<rparr>"

definition sample_response :: proxy_response where
  "sample_response = \<lparr>ps_status = 204, ps_headers = [], ps_body = []\<rparr>"

definition sample_ctx :: "string \<Rightarrow> capture_ctx" where
  "sample_ctx body = fst (capture_request sample_proxy 7 ''cor_1'' ''evt_1'' (sample_request body))"

lemma sample_limit [simp]: "limit_ok (px_body_max_bytes sample_proxy)"
  by (simp add: sample_proxy_def limit_ok_def int64_max_def)

lemma captured_event_valid_witness:
  "event_validate (capture_event Some (\<lambda>s. s) sample_proxy 9 (sample_ctx []) (sample_request []) sample_response) = []"
  by (rule captured_event_valid)
     (simp_all add: sample_proxy_def sample_ctx_def capture_request_def case_prod_unfold Let_def
       is_zero_time_def zero_time_def)

text \<open>C25: A JSON object that fits the limit is stored redacted: the preview of the request body
  reads as the object with the policy's fields replaced and the others kept.\<close>

theorem captured_body_redacted:
  assumes "float_text_ok ft" and "limit_ok (px_body_max_bytes p)"
    and "int (length (pq_body r)) \<le> px_body_max_bytes p"
    and "unmarshal (dec_map_any ft) (pq_body r) None = (True, Some m)"
  shows "\<exists>rq m'. ev_request (capture_event ft sha p now (fst (capture_request p start nid eid r)) req resp) = Some rq \<and>
    unmarshal (dec_map_any ft) (rq_body_preview rq) None = (True, Some m') \<and>
    (\<forall>k. map_of m' k = (if policy_field (px_policy p) k \<and> has_key m k
       then Some (JStr redacted_marker) else map_of m k))"
proof -
  obtain out n where r: "redact_json_body ft (px_policy p) (pq_body r) = (out, n)"
    by (cases "redact_json_body ft (px_policy p) (pq_body r)")
  have "capture_body ft p (fst (read_limited (px_body_max_bytes p) (pq_body r))) = (out, n > 0)"
    unfolding short_body [OF assms(2,3)] capture_body_short [OF assms(3)] r by simp
  with redact_json_body_lookup [OF assms(1,4) r]
    capture_event_request(1) [of ft sha p now "fst (capture_request p start nid eid r)" req resp]
  show ?thesis by auto
qed

lemma captured_body_redacted_witness:
  "\<exists>rq m'. ev_request (capture_event Some (\<lambda>s. s) sample_proxy 9 (sample_ctx token_body)
        (sample_request token_body) sample_response) = Some rq \<and>
     unmarshal (dec_map_any Some) (rq_body_preview rq) None = (True, Some m') \<and>
     map_of m' ''token'' = Some (JStr redacted_marker)"
proof -
  have b: "pq_body (sample_request token_body) = token_body" by (simp add: sample_request_def)
  have len: "int (length (pq_body (sample_request token_body))) \<le> px_body_max_bytes sample_proxy"
  proof -
    have "length token_body = 17" by code_simp
    then show ?thesis by (simp add: b sample_proxy_def)
  qed
  have u: "unmarshal (dec_map_any Some) (pq_body (sample_request token_body)) None =
      (True, Some [(''a'', JNum ''1''), (''token'', JNum ''2'')])"
    unfolding b by (rule token_body_reads)
  have pol: "px_policy sample_proxy = default_policy" by (simp add: sample_proxy_def)
  obtain rq m' where "ev_request (capture_event Some (\<lambda>s. s) sample_proxy 9 (sample_ctx token_body)
        (sample_request token_body) sample_response) = Some rq"
    "unmarshal (dec_map_any Some) (rq_body_preview rq) None = (True, Some m')"
    "\<forall>k. map_of m' k = (if policy_field default_policy k \<and> has_key [(''a'', JNum ''1''), (''token'', JNum ''2'')] k
       then Some (JStr redacted_marker) else map_of [(''a'', JNum ''1''), (''token'', JNum ''2'')] k)"
    using captured_body_redacted [OF float_text_ok_Some sample_limit len u,
        of "\<lambda>s. s" 9 7 "''cor_1''" "''evt_1''" "sample_request token_body" sample_response]
    unfolding pol sample_ctx_def by blast
  then show ?thesis using policy_field_token by (auto simp: has_key_def)
qed

text \<open>A body longer than the limit is cut before it is redacted, and a JSON object that is
  cut is no JSON: unless the cut happens to end with a closing brace, the start of the body is stored
  as the client sent it, passwords included, and not marked as redacted.\<close>

theorem long_body_not_redacted:
  assumes "limit_ok (px_body_max_bytes p)" and "px_body_max_bytes p < int (length (pq_body r))"
    and "take (nat (px_body_max_bytes p)) (pq_body r) = a @ [c]" and "\<not> is_json_ws c" and "c \<noteq> CHR ''}''"
  shows "\<exists>rq. ev_request (capture_event ft sha p now (fst (capture_request p start nid eid r)) req resp) = Some rq \<and>
    rq_body_preview rq = take (nat (px_body_max_bytes p)) (pq_body r) \<and> \<not> rq_body_redacted rq"
  using capture_event_request [of ft sha p now "fst (capture_request p start nid eid r)" req resp]
    capture_body_cut [OF assms] assms(3) by auto

definition login_body :: string where
  "login_body = ''{'' @ json_quote ''password'' @ '':'' @ json_quote ''hunter2'' @ '','' @
     json_quote ''remember'' @ '':true}''"

lemma long_body_not_redacted_witness:
  "\<exists>rq. ev_request (capture_event Some (\<lambda>s. s) sample_proxy 9 (sample_ctx login_body)
        (sample_request login_body) sample_response) = Some rq \<and>
     rq_body_preview rq = ''{'' @ json_quote ''password'' @ '':'' @ json_quote ''hunter2'' @ '','' \<and>
     \<not> rq_body_redacted rq"
proof -
  have b: "pq_body (sample_request login_body) = login_body" "nat (px_body_max_bytes sample_proxy) = 22"
    "px_body_max_bytes sample_proxy = 22"
    by (simp_all add: sample_request_def sample_proxy_def)
  have len: "px_body_max_bytes sample_proxy < int (length (pq_body (sample_request login_body)))"
  proof -
    have "length login_body = 38" by code_simp
    then show ?thesis by (simp add: b)
  qed
  have cut: "take (nat (px_body_max_bytes sample_proxy)) (pq_body (sample_request login_body)) =
      (''{'' @ json_quote ''password'' @ '':'' @ json_quote ''hunter2'') @ [CHR '','']"
  proof -
    have "take 22 login_body = (''{'' @ json_quote ''password'' @ '':'' @ json_quote ''hunter2'') @ [CHR '','']"
      by code_simp
    then show ?thesis by (simp only: b nat_numeral)
  qed
  have "\<not> is_json_ws (CHR '','')" "CHR '','' \<noteq> CHR ''}''" by (simp_all add: is_json_ws_def)
  from long_body_not_redacted [OF sample_limit len cut this, of Some "\<lambda>s. s" 9 7 "''cor_1''" "''evt_1''"
      "sample_request login_body" sample_response]
  show ?thesis unfolding sample_ctx_def cut by simp
qed

subsection \<open>Captures and emissions: properties\<close>

lemma emit_stored:
  assumes "emit run b active now e st = (r, st')"
  shows "event_stored st' k \<longleftrightarrow> event_stored st k \<or> (r = Inr () \<and> ev_id e = k)"
  using agent_sink.em_keeps [OF assms] agent_sink.em_only_key [OF assms]
    agent_sink.em_done [of run b active now e st st'] assms by (cases r) auto



end
