(* ===== verification/CliUp.thy ===== *)
theory CliUp
  imports CliLocal Proxy RedisAdapter PostgresAdapter MailpitAdapter Agent
begin

section \<open>The command \<open>up\<close> (\<open>internal/cli/cmd_up.go\<close>)\<close>

text \<open>
  \<open>up\<close> loads and checks the configuration, starts the compose services, builds one capture
  component per service of the configuration, starts the agent and the proxies and, at a signal,
  stops the proxies and the agent. The services come in the order in which the map is iterated,
  which is the order of the list here. The starts and stops of the components are the environment's;
  the model fixes which are called, in which order, and what follows from their errors.
\<close>

subsection \<open>Components from the configuration\<close>

record listening_proxy =
  lp_name :: string
  lp_listen :: string
  lp_proxy :: proxy

datatype adapter_part =
    PostgresPart string pg_adapter "string list" "string list"
  | RedisPart string redis_adapter
  | MailpitPart mailpit_adapter

definition new_postgres :: "string \<Rightarrow> string \<Rightarrow> string \<Rightarrow> string list \<Rightarrow> string list \<Rightarrow> string list \<Rightarrow> adapter_part" where
  "new_postgres name dsn run tables columns schemas =
     PostgresPart dsn \<lparr>pa_name = name, pa_run_id = run, pa_redact_columns = columns\<rparr> tables
       (if length schemas = 0 then [''public''] else schemas)"

definition new_redis :: "string \<Rightarrow> string \<Rightarrow> string \<Rightarrow> string list \<Rightarrow> string list \<Rightarrow> adapter_part" where
  "new_redis name addr run queues paths =
     RedisPart addr \<lparr>ra_name = name, ra_run_id = run, ra_queues = queues, ra_redact_json_paths = paths\<rparr>"

fun part_name :: "adapter_part \<Rightarrow> string" where
  "part_name (PostgresPart _ a _ _) = pa_name a"
| "part_name (RedisPart _ a) = ra_name a"
| "part_name (MailpitPart a) = ma_name a"

datatype part =
    NoPart
  | ProxyPart listening_proxy
  | AdapterPart adapter_part

record 'w up_env = "'w os_env" +
  ue_parse_url :: "string \<Rightarrow> (string \<times> string) option"
  ue_url_error :: "string \<Rightarrow> string"

definition poll_interval :: "duration_step \<Rightarrow> string \<Rightarrow> duration" where
  "poll_interval fx s =
     (if s = [] then 2 * 1000000000
      else case parse_duration fx s of None \<Rightarrow> 2 * 1000000000 | Some d \<Rightarrow> d)"

definition service_proxy_config :: "config \<Rightarrow> string \<Rightarrow> string \<Rightarrow> service_config \<Rightarrow> proxy_config" where
  "service_proxy_config cfg run name svc =
     \<lparr>pc_service_name = name, pc_target_base_url = sv_base_url svc, pc_run_id = run,
      pc_correlation_header = ac_correlation_header (cf_agent cfg),
      pc_redaction_policy = Some default_policy, pc_body_max_bytes = rc_body_max_bytes (cf_redaction cfg)\<rparr>"

text \<open>The error is the text of \<open>proxy.New\<close>, which fails when the target URL does not parse.\<close>

definition service_part :: "('w, 'x) up_env_scheme \<Rightarrow> config \<Rightarrow> string \<Rightarrow> string \<times> service_config \<Rightarrow> string + part" where
  "service_part env cfg run ns =
     (case ns of (name, svc) \<Rightarrow>
        (let cap = sv_capture svc in
         if sv_type svc = ''http'' then
           (if cp_proxy_port cap = 0 then Inr NoPart
            else case new_proxy (ue_parse_url env) (service_proxy_config cfg run name svc) of
              None \<Rightarrow> Inl (ue_url_error env (sv_base_url svc))
            | Some p \<Rightarrow> Inr (ProxyPart \<lparr>lp_name = name,
                lp_listen = host_port (ac_bind (cf_agent cfg)) (cp_proxy_port cap), lp_proxy = p\<rparr>))
         else if sv_type svc = ''postgres'' then
           (if sv_dsn svc = [] then Inr NoPart
            else Inr (AdapterPart (new_postgres name (sv_dsn svc) run (cp_tables cap) (cp_redact_columns cap) (cp_schemas cap))))
         else if sv_type svc = ''redis'' then
           (if sv_addr svc = [] then Inr NoPart
            else Inr (AdapterPart (new_redis name (sv_addr svc) run (cp_queues cap) (cp_redact_json_paths cap))))
         else if sv_type svc = ''mailpit'' then
           (if sv_api_url svc = [] then Inr NoPart
            else Inr (AdapterPart (MailpitPart (new_mailpit name (sv_api_url svc) run
                   (poll_interval (os_step env) (cp_poll_interval cap)) (cp_redact_body cap)))))
         else Inr NoPart))"

fun add_part :: "part \<Rightarrow> listening_proxy list \<times> adapter_part list \<Rightarrow> listening_proxy list \<times> adapter_part list" where
  "add_part NoPart ps = ps"
| "add_part (ProxyPart p) (proxies, adapters) = (proxies @ [p], adapters)"
| "add_part (AdapterPart a) (proxies, adapters) = (proxies, adapters @ [a])"

text \<open>The loop over the services: the first error stops it, with the name of the service.\<close>

fun register_services :: "('w, 'x) up_env_scheme \<Rightarrow> config \<Rightarrow> string \<Rightarrow> (string \<times> service_config) list \<Rightarrow>
    listening_proxy list \<times> adapter_part list \<Rightarrow> (string \<times> string) + listening_proxy list \<times> adapter_part list" where
  "register_services env cfg run [] ps = Inr ps"
| "register_services env cfg run (ns # rest) ps =
     (case service_part env cfg run ns of
        Inl err \<Rightarrow> Inl (fst ns, err)
      | Inr p \<Rightarrow> register_services env cfg run rest (add_part p ps))"

subsection \<open>Running\<close>

text \<open>What is done to the parts, in order. The outcomes come from the environment.\<close>

datatype up_call =
    StartAgent "adapter_part list"
  | StartProxy listening_proxy
  | AwaitSignal
  | StopProxy listening_proxy
  | StopAgent

record up_outcome =
  uo_agent :: "string option"
  uo_proxy :: "listening_proxy \<Rightarrow> string option"
  uo_agent_stop :: "string option"

fun start_proxies :: "up_outcome \<Rightarrow> listening_proxy list \<Rightarrow> string option \<times> up_call list" where
  "start_proxies oc [] = (None, [])"
| "start_proxies oc (p # ps) =
     (case uo_proxy oc p of
        Some err \<Rightarrow> (Some err, [StartProxy p])
      | None \<Rightarrow> (case start_proxies oc ps of (r, calls) \<Rightarrow> (r, StartProxy p # calls)))"

definition running_text :: "config \<Rightarrow> string" where
  "running_text cfg = text_lines
     [''LocalCloud is running.'',
      ''  Agent:  '' @ host_port (ac_bind (cf_agent cfg)) (ac_port (cf_agent cfg)),
      ''  Studio: http://'' @ host_port (ac_bind (cf_agent cfg)) (ac_studio_port (cf_agent cfg)),
      ''Press Ctrl+C to stop.'']"

definition run_agent :: "up_outcome \<Rightarrow> config \<Rightarrow> string \<Rightarrow> listening_proxy list \<Rightarrow> adapter_part list \<Rightarrow> string \<Rightarrow>
    cli_out \<times> up_call list" where
  "run_agent oc cfg run proxies adapters out =
     (let out1 = out @ ''Starting LocalCloud agent (run: '' @ run @ '')...'' @ nl in
      case uo_agent oc of
        Some err \<Rightarrow> (\<lparr>co_code = 1, co_out = out1, co_err = ''localcloud: agent start failed: '' @ err @ nl\<rparr>, [StartAgent adapters])
      | None \<Rightarrow>
          (case start_proxies oc proxies of
             (Some err, calls) \<Rightarrow>
               (\<lparr>co_code = 1, co_out = out1, co_err = ''localcloud: proxy start failed: '' @ err @ nl\<rparr>, StartAgent adapters # calls)
           | (None, calls) \<Rightarrow>
               (\<lparr>co_code = 0,
                 co_out = out1 @ running_text cfg @ nl @ text_lines [''Shutting down...'', ''LocalCloud stopped.''],
                 co_err = (case uo_agent_stop oc of None \<Rightarrow> []
                   | Some err \<Rightarrow> ''localcloud: agent stop error: '' @ err @ nl)\<rparr>,
                StartAgent adapters # calls @ AwaitSignal # map StopProxy proxies @ [StopAgent])))"

definition up_services :: "('w, 'x) up_env_scheme \<Rightarrow> up_outcome \<Rightarrow> config \<Rightarrow> string \<Rightarrow> string \<Rightarrow>
    cli_out \<times> up_call list" where
  "up_services env oc cfg run out =
     (case register_services env cfg run (cf_services cfg) ([], []) of
        Inl (name, err) \<Rightarrow>
          (\<lparr>co_code = 1, co_out = out, co_err = ''localcloud: proxy '' @ name @ '': '' @ err @ nl\<rparr>, [])
      | Inr (proxies, adapters) \<Rightarrow> run_agent oc cfg run proxies adapters out)"

definition up_flags :: flag_set where
  "up_flags = [(''config'', FlagString ''localcloud.yml''), (''no-compose'', FlagBool False), (''verbose'', FlagBool False)]"

definition up_compose :: "('w, 'x) up_env_scheme \<Rightarrow> bool \<Rightarrow> string \<Rightarrow> config \<Rightarrow> 'w \<Rightarrow> (string + string) \<times> 'w" where
  "up_compose env skip path cfg w =
     (if \<not> skip \<and> length (cc_files (cf_compose cfg)) > 0 then
        (case compose_up (os_exec env) (config_controller env path cfg) w of
           (Inl err, w') \<Rightarrow> (Inl err, w')
         | (Inr _, w') \<Rightarrow> (Inr (text_lines [''Starting Docker Compose services...'', ''Docker Compose services started.'']), w'))
      else (Inr [], w))"

text \<open>\<open>run\<close> is the identifier that \<open>agent.New\<close> generates.\<close>

definition cmd_up :: "('w, 'x) up_env_scheme \<Rightarrow> up_outcome \<Rightarrow> string \<Rightarrow> string list \<Rightarrow> 'w \<Rightarrow>
    (cli_out \<times> up_call list) \<times> 'w" where
  "cmd_up env oc run args w =
     (case parse_flags up_flags args of
        Inl err \<Rightarrow> ((\<lparr>co_code = 1, co_out = [], co_err = ce_flag_text env ''up'' err\<rparr>, []), w)
      | Inr (fs, rest) \<Rightarrow>
          (case os_load env (flag_str fs ''config'') w of
             Inl err \<Rightarrow> ((cli_fail (''localcloud: '' @ err), []), w)
           | Inr cfg \<Rightarrow>
               (case validate_config (os_step env) cfg of
                  p # ps \<Rightarrow> ((\<lparr>co_code = 1, co_out = [],
                      co_err = text_lines (map (\<lambda>e. ''localcloud: '' @ problem_text env e) (p # ps))\<rparr>, []), w)
                | [] \<Rightarrow>
                    (case os_mkdir_all env (pj_data_dir (cf_project cfg)) w of
                       (Some err, w1) \<Rightarrow> ((cli_fail (''localcloud: cannot create data dir: '' @ err), []), w1)
                     | (None, w1) \<Rightarrow>
                         (case up_compose env (flag_bool fs ''no-compose'') (flag_str fs ''config'') cfg w1 of
                            (Inl err, w2) \<Rightarrow>
                              ((\<lparr>co_code = 1, co_out = ''Starting Docker Compose services...'' @ nl,
                                 co_err = ''localcloud: compose up failed: '' @ err @ nl\<rparr>, []), w2)
                          | (Inr out, w2) \<Rightarrow> (up_services env oc cfg run out, w2))))))"

subsection \<open>Properties\<close>

lemma start_proxies_all: "start_proxies oc ps = (None, calls) \<Longrightarrow> calls = map StartProxy ps"
  by (induction ps arbitrary: calls) (auto split: option.splits prod.splits)

text \<open>The part that a service of a valid configuration gets.\<close>

definition wants_proxy :: "string \<times> service_config \<Rightarrow> bool" where
  "wants_proxy ns = (sv_type (snd ns) = ''http'' \<and> cp_proxy_port (sv_capture (snd ns)) \<noteq> 0)"

definition wants_adapter :: "string \<times> service_config \<Rightarrow> bool" where
  "wants_adapter ns = (sv_type (snd ns) \<in> {''postgres'', ''redis'', ''mailpit''})"

lemma new_proxy_some: "pu (pc_target_base_url c) \<noteq> None \<Longrightarrow> new_proxy pu c \<noteq> None"
  by (auto simp: new_proxy_def)

lemma valid_service_part:
  assumes "validate_service (os_step env) n svc = []"
    and "wants_proxy (n, svc) \<Longrightarrow> ue_parse_url env (sv_base_url svc) \<noteq> None"
  shows "\<exists>p. service_part env cfg run (n, svc) = Inr p \<and>
    (if wants_proxy (n, svc) then \<exists>l. p = ProxyPart l \<and> lp_name l = n
     else if wants_adapter (n, svc) then \<exists>a. p = AdapterPart a \<and> part_name a = n
     else p = NoPart)"
proof -
  consider "sv_type svc = ''http''" | "sv_type svc = ''postgres''" | "sv_type svc = ''redis''"
    | "sv_type svc = ''mailpit''" | "sv_type svc \<notin> {''http'', ''postgres'', ''redis'', ''mailpit''}" by blast
  then show ?thesis
  proof cases
    case 1
    show ?thesis
    proof (cases "cp_proxy_port (sv_capture svc) = 0")
      case False
      with 1 assms(2) have "ue_parse_url env (pc_target_base_url (service_proxy_config cfg run n svc)) \<noteq> None"
        by (simp add: wants_proxy_def service_proxy_config_def)
      then obtain p where "new_proxy (ue_parse_url env) (service_proxy_config cfg run n svc) = Some p"
        using new_proxy_some by blast
      with 1 False show ?thesis by (simp add: service_part_def Let_def wants_proxy_def)
    qed (simp add: 1 service_part_def Let_def wants_proxy_def wants_adapter_def)
  next
    case 2
    with assms(1) have "sv_dsn svc \<noteq> []"
      by (auto simp: validate_service_def validate_postgres_def Let_def split: if_splits)
    with 2 show ?thesis
      by (simp add: service_part_def Let_def wants_proxy_def wants_adapter_def new_postgres_def)
  next
    case 3
    with assms(1) have "sv_addr svc \<noteq> []" by (auto simp: validate_service_def split: if_splits)
    with 3 show ?thesis
      by (simp add: service_part_def Let_def wants_proxy_def wants_adapter_def new_redis_def)
  next
    case 4
    with assms(1) have "sv_api_url svc \<noteq> []"
      by (auto simp: validate_service_def validate_mailpit_def Let_def split: if_splits)
    with 4 show ?thesis
      by (simp add: service_part_def Let_def wants_proxy_def wants_adapter_def new_mailpit_def)
  next
    case 5
    then show ?thesis by (simp add: service_part_def Let_def wants_proxy_def wants_adapter_def)
  qed
qed

lemma valid_services_registered:
  assumes "\<forall>(n, svc) \<in> set ns. validate_service (os_step env) n svc = []"
    and "\<forall>(n, svc) \<in> set ns. wants_proxy (n, svc) \<longrightarrow> ue_parse_url env (sv_base_url svc) \<noteq> None"
  shows "\<exists>px ad. register_services env cfg run ns (pq, aq) = Inr (pq @ px, aq @ ad) \<and>
    map lp_name px = map fst (filter wants_proxy ns) \<and> map part_name ad = map fst (filter wants_adapter ns)"
  using assms
proof (induction ns arbitrary: pq aq)
  case Nil
  then show ?case by simp
next
  case (Cons ns rest)
  obtain n svc where ns: "ns = (n, svc)" by (cases ns)
  obtain p where p: "service_part env cfg run (n, svc) = Inr p"
    "if wants_proxy (n, svc) then \<exists>l. p = ProxyPart l \<and> lp_name l = n
     else if wants_adapter (n, svc) then \<exists>a. p = AdapterPart a \<and> part_name a = n else p = NoPart"
    using valid_service_part [of env n svc cfg run] Cons.prems by (auto simp: ns)
  have rest: "\<exists>px ad. register_services env cfg run rest (pq, aq) = Inr (pq @ px, aq @ ad) \<and>
      map lp_name px = map fst (filter wants_proxy rest) \<and>
      map part_name ad = map fst (filter wants_adapter rest)" for pq aq
    using Cons.IH Cons.prems by (meson list.set_intros(2))
  have apart: "wants_proxy (n, svc) \<Longrightarrow> \<not> wants_adapter (n, svc)"
    by (auto simp: wants_proxy_def wants_adapter_def)
  show ?case
  proof (cases p)
    case NoPart
    with p rest [of pq aq] show ?thesis by (auto simp: ns split: if_splits)
  next
    case (ProxyPart l)
    with p have "wants_proxy (n, svc)" "lp_name l = n" by (auto split: if_splits)
    with ProxyPart p(1) rest [of "pq @ [l]" aq] apart show ?thesis
      by (auto simp: ns)
  next
    case (AdapterPart a)
    with p have "\<not> wants_proxy (n, svc)" "wants_adapter (n, svc)" "part_name a = n" by (auto split: if_splits)
    with AdapterPart p(1) rest [of pq "aq @ [a]"] show ?thesis
      by (auto simp: ns)
  qed
qed

lemma valid_config_services:
  "validate_config fx cfg = [] \<Longrightarrow> \<forall>(n, svc) \<in> set (cf_services cfg). validate_service fx n svc = []"
  by (auto simp: validate_config_def)

text \<open>C36: For a valid configuration whose proxy targets are URLs, \<open>up\<close> builds a proxy for every HTTP
  service with a proxy port and an adapter for every Postgres, Redis and Mailpit service, under the
  names of the services, and nothing else.\<close>

theorem up_registers_services:
  assumes "validate_config (os_step env) cfg = []"
    and "\<forall>(n, svc) \<in> set (cf_services cfg). wants_proxy (n, svc) \<longrightarrow> ue_parse_url env (sv_base_url svc) \<noteq> None"
  shows "\<exists>proxies adapters. register_services env cfg run (cf_services cfg) ([], []) = Inr (proxies, adapters) \<and>
    map lp_name proxies = map fst (filter wants_proxy (cf_services cfg)) \<and>
    map part_name adapters = map fst (filter wants_adapter (cf_services cfg))"
  using valid_services_registered [OF valid_config_services [OF assms(1)] assms(2), of cfg run "[]" "[]"] by simp

definition sample_up :: "unit up_env" where
  "sample_up =
     \<lparr>ce_ft = Some, ce_trunc = (\<lambda>t. 0), ce_http = (\<lambda>c w. (Inl ''refused'', w)), ce_bad_url = (\<lambda>u. None),
      ce_flag_text = (\<lambda>n e. n), ce_quote = (\<lambda>s. s),
      fe_create = (\<lambda>p w. (None, w)), fe_append = (\<lambda>p c w. w),
      os_stat = (\<lambda>p w. True), os_read = (\<lambda>p w. Some []), os_write = (\<lambda>p c w. (None, w)),
      os_mkdir_all = (\<lambda>p w. (None, w)), os_dir = (\<lambda>p. ''.''), os_abs = (\<lambda>p. p),
      os_exec = (\<lambda>args dir w. ((None, [], []), w)), os_look_path = (\<lambda>p w. None), os_listen = (\<lambda>a w. True),
      os_yaml = (\<lambda>s. Some demo_config), os_marshal = (\<lambda>c. Inr []), os_load_error = (\<lambda>p w. p),
      os_duration_error = (\<lambda>s. s), os_step = (\<lambda>a b c. 0),
      ue_parse_url = (\<lambda>u. Some (''http'', ''localhost:3000'')), ue_url_error = (\<lambda>u. u)\<rparr>"

lemma sample_up_fields [simp]:
  "os_step sample_up = (\<lambda>a b c. 0)" "ue_parse_url sample_up = (\<lambda>u. Some (''http'', ''localhost:3000''))"
  "os_mkdir_all sample_up = (\<lambda>p w. (None, w))" "os_yaml sample_up = (\<lambda>s. Some demo_config)"
  "os_read sample_up = (\<lambda>p w. Some [])"
  by (simp_all add: sample_up_def)

theorem up_registers_services_witness:
  "\<exists>proxies adapters. register_services sample_up demo_config ''run_1'' (cf_services demo_config) ([], []) =
      Inr (proxies, adapters) \<and>
    map lp_name proxies = [''api''] \<and> map part_name adapters = [''postgres'', ''redis'', ''mailpit'']"
proof -
  have "map fst (filter wants_proxy (cf_services demo_config)) = [''api'']"
    "map fst (filter wants_adapter (cf_services demo_config)) = [''postgres'', ''redis'', ''mailpit'']"
    by (simp_all add: demo_config_def apply_defaults_def demo_services_def wants_proxy_def wants_adapter_def
        zero_service_def zero_capture_def)
  moreover have "\<forall>(n, svc) \<in> set (cf_services demo_config). wants_proxy (n, svc) \<longrightarrow>
      ue_parse_url sample_up (sv_base_url svc) \<noteq> None" by simp
  ultimately show ?thesis
    using up_registers_services [of sample_up demo_config "''run_1''"] demo_config_valid by auto
qed

text \<open>The lists of headers and JSON paths in the redaction section of the configuration have no
  effect on the proxies: the same parts are built whatever they are.\<close>

theorem up_ignores_redaction_lists:
  "register_services env (cfg\<lparr>cf_redaction := (cf_redaction cfg)\<lparr>rc_headers := hs, rc_json_paths := jp\<rparr>\<rparr>) run ns ps =
   register_services env cfg run ns ps"
proof (induction ns arbitrary: ps)
  case (Cons ns rest)
  have "service_part env (cfg\<lparr>cf_redaction := (cf_redaction cfg)\<lparr>rc_headers := hs, rc_json_paths := jp\<rparr>\<rparr>) run ns =
      service_part env cfg run ns"
    by (cases ns) (simp add: service_part_def service_proxy_config_def Let_def split: option.split)
  with Cons show ?case by (simp split: sum.split)
qed simp

lemma run_agent_ok:
  "co_code (fst (run_agent oc cfg run proxies adapters out)) = 0 \<Longrightarrow>
   snd (run_agent oc cfg run proxies adapters out) =
     StartAgent adapters # map StartProxy proxies @ AwaitSignal # map StopProxy proxies @ [StopAgent]"
  using start_proxies_all [of oc proxies]
  by (auto simp: run_agent_def Let_def split: option.splits prod.splits)

lemma up_services_ok:
  assumes "co_code (fst (up_services env oc cfg run out)) = 0"
  shows "\<exists>proxies adapters. register_services env cfg run (cf_services cfg) ([], []) = Inr (proxies, adapters) \<and>
    snd (up_services env oc cfg run out) =
      StartAgent adapters # map StartProxy proxies @ AwaitSignal # map StopProxy proxies @ [StopAgent]"
  using assms run_agent_ok [of oc cfg run] by (auto simp: up_services_def split: sum.splits prod.splits)


lemma sample_up_load: "os_load sample_up path w = Inr demo_config"
proof -
  have "apply_defaults demo_config = demo_config"
    unfolding demo_config_def by (simp only: apply_defaults_complete)
  then show ?thesis by (simp add: os_load_def load_file_def parse_config_def)
qed

definition quiet_outcome :: up_outcome where
  "quiet_outcome = \<lparr>uo_agent = None, uo_proxy = (\<lambda>p. None), uo_agent_stop = None\<rparr>"

lemma start_proxies_quiet: "start_proxies quiet_outcome ps = (None, map StartProxy ps)"
  by (induction ps) (simp_all add: quiet_outcome_def)

lemma run_agent_quiet: "co_code (fst (run_agent quiet_outcome cfg run ps ad out)) = 0"
  unfolding run_agent_def Let_def start_proxies_quiet by (simp add: quiet_outcome_def)

lemma sample_up_runs:
  "\<exists>out calls. cmd_up sample_up quiet_outcome ''run_1'' [''--no-compose''] () = ((out, calls), ()) \<and> co_code out = 0"
proof -
  have f: "parse_flags up_flags [''--no-compose''] =
      Inr ([(''config'', FlagString ''localcloud.yml''), (''no-compose'', FlagBool True), (''verbose'', FlagBool False)], [])"
    by code_simp
  obtain px ad where r: "register_services sample_up demo_config ''run_1'' (cf_services demo_config) ([], []) = Inr (px, ad)"
    using valid_services_registered [where env = sample_up and ns = "cf_services demo_config" and cfg = demo_config
        and run = "''run_1''" and pq = "[]" and aq = "[]"]
      valid_config_services [OF demo_config_valid] by auto
  have "cmd_up sample_up quiet_outcome ''run_1'' [''--no-compose''] () =
      (run_agent quiet_outcome demo_config ''run_1'' px ad [], ())"
    unfolding cmd_up_def f
    by (simp add: sample_up_load demo_config_valid up_compose_def flag_bool_def up_services_def r)
  with run_agent_quiet show ?thesis
    by (cases "run_agent quiet_outcome demo_config ''run_1'' px ad []") (metis fst_conv)
qed


end
