(* ===== verification/Cli.thy ===== *)
theory Cli
  imports CliUp CliFault CliScenario
begin

section \<open>The entry point of the command line (\<open>internal/cli/cli.go\<close>)\<close>

text \<open>
  \<open>run\<close> prints the usage without arguments and otherwise calls the command that the first argument
  names. Only \<open>up\<close> calls parts of the agent; the calls are part of its result. \<open>main\<close> passes the
  arguments after the program's name and exits with the code.
\<close>

definition cli_usage :: "string \<Rightarrow> string" where
  "cli_usage ver = text_lines
     [''localcloud '' @ ver @ '' '' @ em_dash @ '' local development control plane'', '''',
      ''Usage:'', ''  localcloud <command> [flags]'', '''',
      ''Commands:'',
      ''  init        Create localcloud.yml and project scaffolding'',
      ''  up          Start agent, adapters, and optionally Docker Compose stack'',
      ''  down        Stop agent and optionally Compose services'',
      ''  status      Show agent, adapter, and service health'',
      ''  studio      Open Studio dashboard in browser'',
      ''  record      Start recording a named scenario'',
      ''  stop        Stop active recording'',
      ''  replay      Replay a scenario'' @ [CHR 0x27] @ ''s captured requests'',
      ''  export      Export a scenario as portable JSON'',
      ''  doctor      Diagnose config, ports, Docker, and adapters'',
      ''  fault       Manage fault injection rules'',
      ''  version     Print version'', '''',
      ''Run '' @ [CHR 0x27] @ ''localcloud <command> --help'' @ [CHR 0x27] @ '' for command-specific help.'']"

definition without_calls :: "cli_out \<times> 'w \<Rightarrow> (cli_out \<times> up_call list) \<times> 'w" where
  "without_calls r = ((fst r, []), snd r)"

definition cli_run :: "('w, 'x) up_env_scheme \<Rightarrow> up_outcome \<Rightarrow> string \<Rightarrow> string \<Rightarrow> string list \<Rightarrow> 'w \<Rightarrow>
    (cli_out \<times> up_call list) \<times> 'w" where
  "cli_run env oc run ver args w =
     (case args of
        [] \<Rightarrow> without_calls (cli_ok (cli_usage ver), w)
      | cmd # rest \<Rightarrow>
          (if cmd \<in> {''version'', ''--version'', ''-v''} then without_calls (cli_ok (''localcloud '' @ ver @ nl), w)
           else if cmd \<in> {''help'', ''--help'', ''-h''} then without_calls (cli_ok (cli_usage ver), w)
           else if cmd = ''init'' then without_calls (cmd_init env rest w)
           else if cmd = ''up'' then cmd_up env oc run rest w
           else if cmd = ''down'' then without_calls (cmd_down env rest w)
           else if cmd = ''status'' then without_calls (cmd_status env rest w)
           else if cmd = ''studio'' then without_calls (cmd_studio w)
           else if cmd = ''record'' then without_calls (cmd_record env rest w)
           else if cmd = ''stop'' then without_calls (cmd_stop env rest w)
           else if cmd = ''replay'' then without_calls (cmd_replay env rest w)
           else if cmd = ''export'' then without_calls (cmd_export env rest w)
           else if cmd = ''doctor'' then without_calls (cmd_doctor env rest w)
           else if cmd = ''fault'' then without_calls (cmd_fault env rest w)
           else without_calls (\<lparr>co_code = 1, co_out = [],
             co_err = ''localcloud: unknown command '' @ ce_quote env cmd @ nl @
               ''Run '' @ [CHR 0x27] @ ''localcloud help'' @ [CHR 0x27] @ '' for usage.'' @ nl\<rparr>, w)))"

definition main_exit :: "('w, 'x) up_env_scheme \<Rightarrow> up_outcome \<Rightarrow> string \<Rightarrow> string \<Rightarrow> string list \<Rightarrow> 'w \<Rightarrow> int \<times> 'w" where
  "main_exit env oc run ver argv w =
     (case cli_run env oc run ver (drop 1 argv) w of ((out, _), w') \<Rightarrow> (co_code out, w'))"

subsection \<open>Properties\<close>

lemma cli_out_codes [simp]: "co_code (cli_ok s) = 0" "co_code (cli_fail s) = 1" "co_code (unreachable c a e) = 1"
  by (simp_all add: cli_ok_def cli_fail_def unreachable_def)

lemma with_flags_code:
  assumes "\<And>fs rest. co_code (fst (k fs rest w)) \<in> C" "1 \<in> C"
  shows "co_code (fst (with_flags env n fs args k w)) \<in> C"
  using assms by (auto simp: with_flags_def split: sum.split prod.split)

lemma fault_codes:
  "co_code (fst (fault_list env args w)) \<in> {0, 1}" "co_code (fst (fault_create env args w)) \<in> {0, 1}"
  "co_code (fst (fault_set_enabled env args b w)) \<in> {0, 1}" "co_code (fst (fault_delete env args w)) \<in> {0, 1}"
  unfolding fault_list_def fault_create_def fault_set_enabled_def fault_delete_def
  by (rule with_flags_code; simp add: Let_def split: sum.split prod.split list.split option.split)+

lemma cmd_fault_code: "co_code (fst (cmd_fault env args w)) \<in> {0, 1}"
  using fault_codes [of env] by (simp add: cmd_fault_def split: list.split)

lemma scenario_codes:
  "co_code (fst (cmd_record env args w)) \<in> {0, 1}" "co_code (fst (cmd_stop env args w)) \<in> {0, 1}"
  "co_code (fst (cmd_replay env args w)) \<in> {0, 1}"
  unfolding cmd_record_def cmd_stop_def cmd_replay_def
  by (rule with_flags_code; simp add: Let_def split: sum.split prod.split)+

lemma cmd_export_code: "co_code (fst (cmd_export env args w)) \<in> {0, 1}"
  unfolding cmd_export_def
  by (rule with_flags_code; simp add: Let_def write_export_def split: sum.split prod.split option.split)

lemma local_codes:
  "co_code (fst (cmd_down env args w)) \<in> {0, 1}" "co_code (fst (cmd_status env args w)) \<in> {0, 1}"
  unfolding cmd_down_def cmd_status_def
  by (rule with_flags_code; simp add: Let_def split: sum.split prod.split)+

lemma cmd_init_code: "co_code (fst (cmd_init env args w)) \<in> {0, 1, 2}"
  by (simp add: cmd_init_def init_write_def init_done_def split: option.split sum.split prod.split)

lemma cmd_doctor_code: "co_code (fst (cmd_doctor env args w)) \<in> {0, 2}"
  by (simp add: cmd_doctor_def split: option.split prod.split)

lemma cmd_up_code: "co_code (fst (fst (cmd_up env oc run args w))) \<in> {0, 1}"
proof -
  have "co_code (fst (run_agent oc cfg run px ad out)) \<in> {0, 1}" for cfg px ad out
    by (simp add: run_agent_def Let_def split: option.split prod.split)
  then have "co_code (fst (up_services env oc cfg run out)) \<in> {0, 1}" for cfg out
    by (simp add: up_services_def split: sum.split prod.split)
  then show ?thesis by (simp add: cmd_up_def split: sum.split prod.split list.split option.split)
qed

definition codes_of :: "string \<Rightarrow> int set" where
  "codes_of cmd = (if cmd = ''init'' \<or> cmd = ''doctor'' then {0, 1, 2} else {0, 1})"

lemma codes_of_intros:
  "co_code (fst r) \<in> {0, 1} \<Longrightarrow> co_code (fst (fst (without_calls r))) \<in> codes_of cmd"
  "co_code (fst (fst q)) \<in> {0, 1} \<Longrightarrow> co_code (fst (fst q)) \<in> codes_of cmd"
  "cmd = ''init'' \<Longrightarrow> co_code (fst r) \<in> {0, 1, 2} \<Longrightarrow> co_code (fst (fst (without_calls r))) \<in> codes_of cmd"
  "cmd = ''doctor'' \<Longrightarrow> co_code (fst r) \<in> {0, 2} \<Longrightarrow> co_code (fst (fst (without_calls r))) \<in> codes_of cmd"
  by (auto simp: codes_of_def without_calls_def)

lemma if_code:
  "(P \<Longrightarrow> co_code (fst (fst a)) \<in> S) \<Longrightarrow> (\<not> P \<Longrightarrow> co_code (fst (fst b)) \<in> S) \<Longrightarrow>
   co_code (fst (fst (if P then a else b))) \<in> S"
  by simp

lemma plain_codes: "co_code (fst (cli_ok s, w)) \<in> {0, 1}" "co_code (fst (cmd_studio w)) \<in> {0, 1}"
  "co_code (fst (\<lparr>co_code = 1, co_out = a, co_err = b\<rparr>, w)) \<in> {0, 1}"
  by (simp_all add: cmd_studio_def)

lemma cli_run_code: "co_code (fst (fst (cli_run env oc run ver (cmd # rest) w))) \<in> codes_of cmd"
  unfolding cli_run_def list.case
  by (intro if_code,
      ((rule codes_of_intros(1), rule plain_codes scenario_codes cmd_export_code local_codes cmd_fault_code; fail)
      | (rule codes_of_intros(2), rule cmd_up_code; fail)
      | (rule codes_of_intros(3), assumption, rule cmd_init_code; fail)
      | (rule codes_of_intros(4), assumption, rule cmd_doctor_code; fail))+)


end
