(* ===== verification/Spec2Isabelle.thy ===== *)
theory Spec2Isabelle
  imports Fault ScenarioExport Replay Sse Api Ids DbOpen Servers AdapterLife CliAgent Cli
begin

text \<open>
  Verification of LocalCloud, a local agent that records what the services of a development setup
  do, keeps it in a SQLite database, shows it in a studio, replays recorded requests and injects
  faults. Source files are named below \<open>internal/\<close>.

  The program and its parts. Capture components observe the services: an HTTP proxy
  (\<open>proxy/proxy.go\<close>) and the adapters for Redis, Postgres and Mailpit (\<open>adapters/\<close>). Each builds
  timeline events (\<open>timeline/\<close>), redacts them (\<open>redaction/\<close>) and hands them to the sink of the agent
  (\<open>agent/agent.go\<close>), which tags them with the active recording, stores them (\<open>storage/\<close>) and
  publishes them on the event bus (\<open>eventbus/\<close>); the Studio API (\<open>api/\<close>) subscribes to the bus and
  pushes the events to its streams. The API also reads the tables, starts and stops recordings, and
  runs replays (\<open>replay/\<close>), exports (\<open>scenario/\<close>) and the administration of fault rules
  (\<open>fault/\<close>). The command line (\<open>cli/\<close>) loads the configuration (\<open>config/\<close>), runs docker compose
  (\<open>docker/\<close>) and the agent, and is a client of the API.

  The theories, with their imports in this order:

  \<^item> \<open>Prelude\<close>: Go's maps and slices, 64-bit wrap-around (\<open>wrap64\<close>) and the functions of \<open>strings\<close>
    and \<open>strconv\<close> that the program calls.
  \<^item> \<open>GoTime\<close>, \<open>GoHttp\<close>, \<open>GoJson\<close>, \<open>GoCodec\<close>, \<open>GoFlag\<close>: what is used of \<open>time\<close> (instants in
    nanoseconds, RFC 3339, \<open>ParseDuration\<close>), of \<open>net/http\<close> headers, of \<open>encoding/json\<close> (printer,
    parser, struct decoders; the locale \<open>json_codec\<close> states the round trip of a record and is
    interpreted for each record that is stored as JSON) and of \<open>flag\<close>.
  \<^item> \<open>Ids\<close>, \<open>Timeline\<close>: identifiers; \<open>timeline/event.go\<close> and \<open>models.go\<close>, every struct as a record
    with the same fields, \<open>Validate\<close>, encoders and decoders.
  \<^item> \<open>Redaction\<close>: \<open>redaction/redaction.go\<close>.
  \<^item> \<open>EventBus\<close>: \<open>eventbus/bus.go\<close>. The locale \<open>registry\<close> states what a table of subscribers under
    generated identifiers promises; the bus and the stream table of the API are interpretations.
  \<^item> \<open>Storage\<close>: the tables of \<open>storage/db.go\<close> as lists of rows with their constraints, and the
    repositories of \<open>events.go\<close> and \<open>repositories.go\<close>. \<open>StorageClient\<close>: the locale \<open>db_client\<close> with
    which a component that only uses the repositories inherits what every statement keeps.
    \<open>DbOpen\<close>: \<open>Open\<close>, \<open>Close\<close> and the migrations, run over the catalog of the file.
  \<^item> \<open>Fault\<close>: \<open>fault/matcher.go\<close> and \<open>engine.go\<close>.
  \<^item> \<open>Agent\<close>: \<open>agent/agent.go\<close> and \<open>recording.go\<close>. The locales \<open>event_sink\<close> and \<open>timeline_sink\<close> are
    the contract of \<open>adapters.EventSink\<close>; \<open>emit\<close> is its interpretation, the adapters its clients.
  \<^item> \<open>RedisAdapter\<close>, \<open>PostgresAdapter\<close>, \<open>MailpitAdapter\<close>, \<open>AdapterLife\<close>: the three adapters, and
    their start, stop, status and polls under the contract \<open>adapter_lifecycle\<close>.
  \<^item> \<open>Proxy\<close>: \<open>proxy/proxy.go\<close>; \<open>proxy_step\<close> is the step relation of captures and of the goroutines
    that emit them.
  \<^item> \<open>ScenarioExport\<close>, \<open>Replay\<close>: \<open>scenario/export.go\<close>, \<open>replay/replay.go\<close>.
  \<^item> \<open>Config\<close>: \<open>config/config.go\<close>, with the abstract specification \<open>config_ok\<close> that \<open>Validate\<close>
    implements.
  \<^item> \<open>Sse\<close>, \<open>Api\<close>: \<open>api/server.go\<close> and \<open>handlers.go\<close>; \<open>sse_reach\<close> are the states of the streams,
    \<open>serve_api\<close> is a request through the middleware, the routes and the handlers.
  \<^item> \<open>Servers\<close>: the starts and stops of the HTTP servers of the proxy and of the studio.
  \<^item> \<open>Docker\<close>: \<open>docker/compose.go\<close>.
  \<^item> \<open>CliBase\<close>, \<open>CliFault\<close>, \<open>CliScenario\<close>, \<open>CliLocal\<close>, \<open>CliUp\<close>, \<open>Cli\<close>: the commands of \<open>cli/\<close> and
    their dispatch; \<open>CliAgent\<close> runs commands against the API of an agent.
  \<^item> \<open>Spec2Isabelle\<close>: the subscription of the studio to the bus, and an event from the sink to the API
    and the streams.

  What the lemmas show. The database keeps its keys, checks and references whatever is run and
  whatever fails (\<open>db_always_ok\<close>), a failed statement changes nothing, and events are read back as
  they were stored. The sink stores before it publishes; nothing that a capture component emits is
  lost or stored twice. Redaction removes exactly the configured fields and headers from what fits
  the limits. The proxy does not change the traffic. A limit on the hits of a fault rule is kept.
  Replays send only safe requests unless confirmed, and their numbers and records agree. The API
  keeps the schema, its reads change nothing, and its streams neither reorder nor repeat. The
  validation of a configuration is its specification. The commands report what the agent did: a
  fault rule is created exactly as described by the flags, a replay exits with 1 when a request
  failed. Some lemmas prove behaviour that contradicts the documentation; they are listed with the
  findings of the manifest.

  Representation. A string is the list of its bytes. A Go map is an association list in iteration
  order under \<open>Some\<close>, \<open>nil\<close> is \<open>None\<close>, and so for slices. An \<open>int\<close> is an integer where the code
  cannot overflow and is reduced by \<open>wrap64\<close> where it can. An error is a value of a sum type. Go's
  \<open>any\<close> is a JSON document whose numbers keep the text that \<open>float64\<close> prints.

  Parameters. The shortest text of a \<open>float64\<close> (\<open>float_text\<close>), the fraction of a duration
  (\<open>dur_frac\<close>), SHA-256, ULIDs, the clock, the YAML package, URL parsing, HTTP clients and servers,
  the operating system, docker, the database of Postgres and the failures of SQLite
  (\<open>db_fail\<close> is a list of outcomes, one per statement) are arguments. Where a theorem needs a
  documented property of a parameter it is a named hypothesis (\<open>float_text_ok\<close>, \<open>small_numbers\<close>,
  \<open>reaches\<close>), instantiated in its witness.

  Bounds and fuel. The JSON parser takes fuel \<open>2 * length s + 2\<close>, and \<open>parser_fuel\<close> shows that more
  changes nothing. The buffer of \<open>itoa\<close> has 20 bytes, and \<open>None\<close> is an index out of range, which
  \<open>itoa_total\<close> excludes for 64-bit integers. A stream channel holds 64 messages. A wait that never
  ends is \<open>None\<close> in \<open>AdapterLife\<close>, and \<open>adapters_stop\<close> excludes it.

  Not modelled. Locks: operations are atomic, and concurrency is the interleaving of steps. Logging.
  The cancellation of contexts inside a database statement. What \<open>net/http\<close> does between listening
  and shutting down, apart from calling the handlers. What an index or a write-ahead log does to a query. The rows of
  the table \<open>adapter_status\<close>, which no code reads or writes. Case folding and white space outside ASCII. The web interface and the demo, which are not
  Go.
\<close>

section \<open>An event on its way to the studio\<close>

text \<open>
  \<open>NewServer\<close> subscribes the event streams to the bus of the agent: \<open>studio_bus\<close> is the bus with this
  one subscriber, \<open>studio_handler\<close> calls it.
\<close>

definition studio_handler :: "unit \<Rightarrow> timeline_event \<Rightarrow> sse \<Rightarrow> sse \<times> bool" where
  "studio_handler u e s = (sse_handler e s, False)"

definition studio_bus :: "unit bus" where
  "studio_bus = \<lparr>bus_subs = [(''sub_1'', ())], bus_next = 1\<rparr>"

lemma studio_bus_subscribed: "subscribe () new_bus = Some (''sub_1'', studio_bus)"
  unfolding studio_bus_def by code_simp

lemma publish_to_studio: "publish studio_handler studio_bus e s = broadcast_sse (json_print (enc_event e)) s"
  by (simp add: publish_def studio_bus_def studio_handler_def sse_handler_def)

lemma emit_inserted:
  assumes "emit run b active now e (d, s) = (Inr (), (d', s'))"
  shows "event_insert now (tag_event active e) d = (Inr (), d')" "s' = publish run b (tag_event active e) s"
  using assms by (auto simp: emit_def Let_def split: if_splits prod.splits sum.splits)

lemma stored_event_served:
  assumes "event_ok (ae_ft env) e" and "event_insert now e d = (Inr (), d')" and "db_fail d' = []"
  shows "handle_get_event env (ev_id e) d' = (write_json 200 (enc_event (event_ms e)), d')"
proof -
  have "find_row evr_id (db_events d') (ev_id e) = Some (event_row_of now e)"
    by (rule event_table.insert_found [OF assms(2)])
  then have "event_get_by_id (ae_ft env) (ev_id e) d' = (Inr (Some (event_ms e)), d')"
    using assms(3) by (simp add: event_get_by_id_def statement_def find_row_def scan_event_row [OF assms(1)])
  then show ?thesis by (simp add: handle_get_event_def)
qed

text \<open>C4: What a capture component emits arrives in the studio: when the sink accepts an event, the API
  answers a request for it with the stored event, tagged with the active scenario, and every stream
  with room in its channel gets the event as its newest message, in one piece and once.\<close>

theorem emitted_event_reaches_studio:
  assumes "emit studio_handler studio_bus active now e (d, s) = (Inr (), (d', s'))"
    and "event_ok (ae_ft env) (tag_event active e)" and "db_fail d' = []"
    and "sse_lookup s i = Some c" and "length (cl_queue c) < channel_size"
  shows "handle_get_event env (ev_id e) d' = (write_json 200 (enc_event (event_ms (tag_event active e))), d') \<and>
    sse_lookup s' i = Some (c\<lparr>cl_queue := cl_queue c @ [json_print (enc_event (tag_event active e))]\<rparr>)"
  using stored_event_served [OF assms(2) emit_inserted(1) [OF assms(1)] assms(3)] emit_inserted(2) [OF assms(1)] assms(4,5)
  by (simp add: publish_to_studio broadcast_lookup offer_def)

text \<open>A stream that has just connected, and the sample event.\<close>

definition sample_streams :: sse where
  "sample_streams = \<lparr>sse_clients = [(''sse_1'', new_client)], sse_next_id = 1\<rparr>"

lemma sample_emitted:
  "emit studio_handler studio_bus [] 0 sample_event (empty_db, sample_streams) =
     (Inr (), (empty_db\<lparr>db_events := [event_row_of 0 sample_event]\<rparr>,
        publish studio_handler studio_bus sample_event sample_streams))"
proof -
  have "tag_event [] sample_event = sample_event" by (simp add: tag_event_def)
  moreover have "event_validate sample_event = []"
    by (simp add: event_validate_ok sample_event_def is_zero_time_def zero_time_def is_valid_status_def
        event_statuses_def)
  ultimately show ?thesis by (simp add: emit_def sample_event_insert)
qed

theorem emitted_event_reaches_studio_witness:
  "\<exists>s' c. an_status (fst (handle_get_event sample_env ''evt_1'' (empty_db\<lparr>db_events := [event_row_of 0 sample_event]\<rparr>))) = 200 \<and>
     s' = publish studio_handler studio_bus sample_event sample_streams \<and>
     sse_lookup s' ''sse_1'' = Some c \<and> cl_queue c = [json_print (enc_event sample_event)]"
proof -
  have t: "tag_event [] sample_event = sample_event" "ev_id sample_event = ''evt_1''"
    by (simp_all add: tag_event_def sample_event_def)
  have l: "sse_lookup sample_streams ''sse_1'' = Some new_client" "length (cl_queue new_client) < channel_size"
    "cl_queue new_client = []"
    by (simp_all add: sample_streams_def sse_lookup_def new_client_def channel_size_def)
  have "event_ok (ae_ft sample_env) (tag_event [] sample_event)" by (simp add: t sample_event_ok)
  from emitted_event_reaches_studio [OF sample_emitted this _ l(1,2)] l(3) show ?thesis
    by (simp add: t write_json_def empty_db_def)
qed

end
